(* ===== verification/Prelude.thy ===== *)
theory Prelude
  imports Main "HOL-Library.Word"
begin

text \<open>
  Shared vocabulary of the development: the machine integers of the crate, the outcome of a
  fallible Rust function (a value, an error, or a panic) with its sequencing operator (the
  question-mark operator), byte order on the little-endian targets of macOS, in-place writes
  to fixed-size buffers, and the two contracts that the crate's conversion traits obey:
  \<open>wire_enum\<close> for an enumeration with a byte encoding that can be decoded again, and
  \<open>try_copy\<close> for the trait \<open>TryCopyTo\<close>.
\<close>

unbundle bit_operations_syntax

named_theorems outcome_simps "rewriting of outcomes and of their sequencing"
named_theorems wire_simps "byte order and fixed-size buffers"

section \<open>Machine integers and strings\<close>

type_synonym u8 = "8 word"
type_synonym i8 = "8 word"
type_synonym u16 = "16 word"
type_synonym u32 = "32 word"
type_synonym i32 = "32 word"
type_synonym u64 = "64 word"

text \<open>A Rust string is the list of its UTF-8 bytes.\<close>

type_synonym rstring = "u8 list"

section \<open>Outcomes\<close>

datatype (dead 'e, 'a) outcome = Ok 'a | Err 'e | Panic

fun obind :: "('e, 'a) outcome \<Rightarrow> ('a \<Rightarrow> ('e, 'b) outcome) \<Rightarrow> ('e, 'b) outcome" where
  "obind (Ok x) f = f x"
| "obind (Err e) f = Err e"
| "obind Panic f = Panic"

fun map_err :: "('e \<Rightarrow> 'f) \<Rightarrow> ('e, 'a) outcome \<Rightarrow> ('f, 'a) outcome" where
  "map_err g (Ok x) = Ok x"
| "map_err g (Err e) = Err (g e)"
| "map_err g Panic = Panic"

text \<open>\<open>Option::unwrap\<close> and \<open>expect\<close>.\<close>

fun unwrap :: "'a option \<Rightarrow> ('e, 'a) outcome" where
  "unwrap (Some x) = Ok x"
| "unwrap None = Panic"

fun is_ok :: "('e, 'a) outcome \<Rightarrow> bool" where
  "is_ok (Ok x) = True"
| "is_ok (Err e) = False"
| "is_ok Panic = False"

abbreviation forget :: "('e, 'a) outcome \<Rightarrow> ('e, unit) outcome" where
  "forget \<equiv> map_outcome (\<lambda>_. ())"

lemma obind_Ok_iff [outcome_simps]:
  "obind m f = Ok y \<longleftrightarrow> (\<exists>x. m = Ok x \<and> f x = Ok y)"
  by (cases m) auto

lemma obind_Err_iff [outcome_simps]:
  "obind m f = Err e \<longleftrightarrow> m = Err e \<or> (\<exists>x. m = Ok x \<and> f x = Err e)"
  by (cases m) auto

lemma obind_Panic_iff [outcome_simps]:
  "obind m f = Panic \<longleftrightarrow> m = Panic \<or> (\<exists>x. m = Ok x \<and> f x = Panic)"
  by (cases m) auto

lemma map_err_iffs [outcome_simps]:
  "map_err g m = Ok y \<longleftrightarrow> m = Ok y"
  "map_err g m = Err e \<longleftrightarrow> (\<exists>e'. m = Err e' \<and> e = g e')"
  "map_err g m = Panic \<longleftrightarrow> m = Panic"
  by (cases m; auto)+

lemma unwrap_iffs [outcome_simps]:
  "unwrap x = Ok y \<longleftrightarrow> x = Some y"
  "unwrap x \<noteq> Err e"
  "unwrap x = Panic \<longleftrightarrow> x = None"
  by (cases x; auto)+

lemma is_ok_iff: "is_ok m \<longleftrightarrow> (\<exists>x. m = Ok x)"
  by (cases m) auto

lemma is_ok_forget [simp]: "is_ok (map_outcome f m) = is_ok m"
  by (cases m) auto

lemma obind_assoc: "obind (obind m f) g = obind m (\<lambda>x. obind (f x) g)"
  by (cases m) auto

lemma forget_obind_cong:
  assumes "forget m = forget m'"
    and "\<And>x y. m = Ok x \<Longrightarrow> m' = Ok y \<Longrightarrow> forget (f x) = forget (g y)"
  shows "forget (obind m f) = forget (obind m' g)"
  using assms by (cases m; cases m') auto

lemma forget_map_err_cong: "forget m = forget m' \<Longrightarrow> forget (map_err g m) = forget (map_err g m')"
  by (cases m; cases m') auto

section \<open>Fixed-size buffers\<close>

text \<open>
  \<open>dst[..src.len()].copy_from_slice(src)\<close> and a kernel that writes through a pointer to a
  buffer it was given: the length of the buffer never changes.
\<close>

definition overwrite :: "'a list \<Rightarrow> 'a list \<Rightarrow> 'a list" where
  "overwrite src dst = take (length dst) (src @ drop (length src) dst)"

lemma length_overwrite [simp, wire_simps]: "length (overwrite src dst) = length dst"
  by (simp add: overwrite_def)

lemma overwrite_fits [wire_simps]:
  "length src \<le> length dst \<Longrightarrow> overwrite src dst = src @ drop (length src) dst"
  by (simp add: overwrite_def)

lemma overwrite_same_length [wire_simps]: "length src = length dst \<Longrightarrow> overwrite src dst = src"
  by (simp add: overwrite_def)

lemma overwrite_idem: "overwrite src (overwrite src dst) = overwrite src dst"
proof (cases "length src \<le> length dst")
  case True
  then show ?thesis by (simp add: overwrite_def)
next
  case False
  then show ?thesis by (simp add: overwrite_def)
qed

text \<open>Assigning both elements of an array of two, twice.\<close>

lemma update_pair_idem [simp]:
  "xs[0 := a, Suc 0 := b, 0 := a, Suc 0 := b] = xs[0 := a, Suc 0 := b]"
  by (cases xs) simp_all

text \<open>A C array of zeros, as \<open>FromZeros::new_zeroed\<close> makes it.\<close>

abbreviation zeros :: "nat \<Rightarrow> ('w::len) word list" where
  "zeros n \<equiv> replicate n 0"

section \<open>Byte order\<close>

text \<open>
  The crate only supports macOS, whose targets are little-endian: the bytes of an integer in
  memory are \<open>le_bytes\<close>, and \<open>to_be\<close> and \<open>from_be\<close> reverse them.
\<close>

definition le_bytes :: "'w::len word \<Rightarrow> u8 list" where
  "le_bytes w = map (\<lambda>i. ucast (drop_bit (8 * i) w)) [0..<LENGTH('w) div 8]"

fun of_le_bytes :: "u8 list \<Rightarrow> 'w::len word" where
  "of_le_bytes [] = 0"
| "of_le_bytes (b # bs) = ucast b OR push_bit 8 (of_le_bytes bs)"

definition be_bytes :: "'w::len word \<Rightarrow> u8 list" where
  "be_bytes w = rev (le_bytes w)"

definition to_be :: "'w::len word \<Rightarrow> 'w word" where
  "to_be w = of_le_bytes (rev (le_bytes w))"

definition from_be :: "'w::len word \<Rightarrow> 'w word" where
  "from_be w = of_le_bytes (rev (le_bytes w))"

lemma length_le_bytes [simp, wire_simps]: "length (le_bytes (w :: 'w::len word)) = LENGTH('w) div 8"
  by (simp add: le_bytes_def)

lemma length_be_bytes [simp, wire_simps]: "length (be_bytes (w :: 'w::len word)) = LENGTH('w) div 8"
  by (simp add: be_bytes_def)

lemma bit_of_le_bytes:
  "bit (of_le_bytes bs :: 'w::len word) n \<longleftrightarrow>
     n < LENGTH('w) \<and> n div 8 < length bs \<and> bit (bs ! (n div 8)) (n mod 8)"
proof (induction bs arbitrary: n)
  case Nil
  then show ?case by simp
next
  case (Cons b bs)
  show ?case
  proof (cases "n < 8")
    case True
    then show ?thesis by (auto simp: bit_or_iff bit_push_bit_iff bit_ucast_iff)
  next
    case False
    define m where "m = n - 8"
    have n: "n = m + 8" using False by (simp add: m_def)
    have d: "n div 8 = Suc (m div 8)" "n mod 8 = m mod 8" by (simp_all add: n)
    have hi: "\<not> bit (ucast b :: 'w word) n"
      using False bit_imp_le_length [of b n] by (auto simp: bit_ucast_iff)
    have "bit (of_le_bytes (b # bs) :: 'w word) n \<longleftrightarrow>
        n < LENGTH('w) \<and> bit (of_le_bytes bs :: 'w word) m"
      using hi by (auto simp: n bit_or_iff bit_push_bit_iff dest: bit_imp_le_length)
    also have "\<dots> \<longleftrightarrow> n < LENGTH('w) \<and> n div 8 < length (b # bs) \<and> bit ((b # bs) ! (n div 8)) (n mod 8)"
      unfolding d using Cons.IH [of m] by (auto simp: n)
    finally show ?thesis .
  qed
qed

lemma le_bytes_of_le_bytes [wire_simps]:
  assumes "length bs * 8 = LENGTH('w::len)"
  shows "le_bytes (of_le_bytes bs :: 'w word) = bs"
proof (rule nth_equalityI)
  show len: "length (le_bytes (of_le_bytes bs :: 'w word)) = length bs"
    using assms by simp
  fix i
  assume "i < length (le_bytes (of_le_bytes bs :: 'w word))"
  then have i: "i < length bs" using len by simp
  then have i': "i < LENGTH('w) div 8" using assms by simp
  show "le_bytes (of_le_bytes bs :: 'w word) ! i = bs ! i"
  proof (rule bit_eqI)
    fix n
    show "bit (le_bytes (of_le_bytes bs :: 'w word) ! i) n \<longleftrightarrow> bit (bs ! i) n"
    proof (cases "n < 8")
      case True
      have "8 * i + n < LENGTH('w)" using i True assms by linarith
      moreover have "(8 * i + n) div 8 = i" "(8 * i + n) mod 8 = n" using True by simp_all
      ultimately show ?thesis
        using i i' True by (simp add: le_bytes_def bit_ucast_iff bit_drop_bit_eq bit_of_le_bytes)
    next
      case False
      then show ?thesis using bit_imp_le_length by fastforce
    qed
  qed
qed

lemma of_le_bytes_le_bytes [wire_simps]:
  assumes "8 dvd LENGTH('w::len)"
  shows "of_le_bytes (le_bytes (w :: 'w word)) = w"
proof (rule bit_eqI)
  fix n
  show "bit (of_le_bytes (le_bytes w) :: 'w word) n \<longleftrightarrow> bit w n"
  proof (cases "n < LENGTH('w)")
    case True
    have "n div 8 < LENGTH('w) div 8"
      using True assms by (auto elim!: dvdE)
    moreover have "8 * (n div 8) + n mod 8 = n" by simp
    ultimately show ?thesis
      using True by (simp add: bit_of_le_bytes le_bytes_def bit_ucast_iff bit_drop_bit_eq)
  next
    case False
    then show ?thesis using bit_imp_le_length [of w n] bit_imp_le_length by blast
  qed
qed

text \<open>Storing a value converted with \<open>to_be\<close> puts its bytes in network order.\<close>

lemma le_bytes_to_be [wire_simps]:
  assumes "8 dvd LENGTH('w::len)"
  shows "le_bytes (to_be (w :: 'w word)) = be_bytes w"
  using assms by (simp add: to_be_def be_bytes_def le_bytes_of_le_bytes)

lemma from_be_to_be [wire_simps]:
  assumes "8 dvd LENGTH('w::len)"
  shows "from_be (to_be (w :: 'w word)) = w"
  using assms by (simp add: from_be_def le_bytes_to_be be_bytes_def of_le_bytes_le_bytes)

section \<open>The contract of a decodable enumeration\<close>

text \<open>
  The enumerations \<open>Direction\<close>, \<open>AddrFamily\<close> and \<open>Proto\<close> have a conversion to a byte and a
  fallible conversion back, which reports the offending byte.
\<close>

locale wire_enum =
  fixes enc :: "'a \<Rightarrow> u8"
    and dec :: "u8 \<Rightarrow> ('e, 'a) outcome"
    and bad :: "u8 \<Rightarrow> 'e"
  assumes dec_enc: "dec (enc x) = Ok x"
    and dec_sound: "dec v = Ok x \<Longrightarrow> enc x = v"
    and dec_total: "dec v = Err (bad v) \<or> (\<exists>x. dec v = Ok x)"
begin

lemma enc_inject: "enc x = enc y \<longleftrightarrow> x = y"
  by (metis dec_enc outcome.inject(1))

lemma dec_Ok_iff: "dec v = Ok x \<longleftrightarrow> v = enc x"
proof
  assume "dec v = Ok x"
  then show "v = enc x" by (simp add: dec_sound)
next
  assume "v = enc x"
  then show "dec v = Ok x" by (simp add: dec_enc)
qed

lemma dec_Err_iff: "dec v = Err (bad v) \<longleftrightarrow> v \<notin> range enc"
proof
  assume e: "dec v = Err (bad v)"
  show "v \<notin> range enc"
  proof
    assume "v \<in> range enc"
    then obtain x where "v = enc x" by blast
    with e dec_enc [of x] show False by simp
  qed
next
  assume "v \<notin> range enc"
  with dec_total [of v] show "dec v = Err (bad v)" by (auto simp: dec_Ok_iff)
qed

lemma dec_no_panic: "dec v \<noteq> Panic"
  using dec_total [of v] by auto

end

section \<open>The contract of \<open>TryCopyTo\<close>\<close>

text \<open>
  Every implementation of \<open>TryCopyTo\<close> writes a value into a caller's buffer. The contract:
  a well-formed buffer (its arrays have their declared lengths) stays well-formed, whether
  the copy succeeds does not depend on what the buffer held, and copying twice is copying
  once.
\<close>

locale try_copy =
  fixes copy :: "'a \<Rightarrow> 'b \<Rightarrow> ('e, 'b) outcome"
    and wf :: "'b \<Rightarrow> bool"
  assumes copy_wf: "wf d \<Longrightarrow> copy x d = Ok d' \<Longrightarrow> wf d'"
    and copy_uniform: "wf d1 \<Longrightarrow> wf d2 \<Longrightarrow> forget (copy x d1) = forget (copy x d2)"
    and copy_idem: "wf d \<Longrightarrow> copy x d = Ok d' \<Longrightarrow> copy x d' = Ok d'"
begin

lemma ok_uniform: "wf d1 \<Longrightarrow> wf d2 \<Longrightarrow> is_ok (copy x d1) = is_ok (copy x d2)"
  using copy_uniform [of d1 d2 x] by (metis is_ok_forget)

lemma err_uniform: "wf d1 \<Longrightarrow> wf d2 \<Longrightarrow> copy x d1 = Err e \<Longrightarrow> copy x d2 = Err e"
  using copy_uniform [of d1 d2 x] by (cases "copy x d2") auto

lemma copy_again: "wf d \<Longrightarrow> copy x d = Ok d' \<Longrightarrow> obind (copy x d) (copy x) = Ok d'"
  by (simp add: copy_idem)

end

end
