(* ===== verification/Layout.thy ===== *)
theory Layout
  imports Prelude
begin

text \<open>
  The layout rule of \<open>#[repr(C)]\<close> structs and unions (and of \<open>#[repr(C, packed)]\<close>) on a
  64-bit macOS target, as a function from a type description to its size, alignment and field
  offsets, and the guarantees the rule gives for any type: fields lie inside the object, in
  declaration order, without overlap, each at a multiple of its alignment. The bindings of
  \<open>ffi/pfvar.rs\<close> assert sizes and offsets at compile time; the theory \<open>LayoutTable\<close>
  replays those assertions against this rule.
\<close>

section \<open>Type descriptions\<close>

text \<open>Every scalar of the bindings is aligned to its own size on these targets.\<close>

datatype layout =
    Scalar nat
  | Array layout nat
  | Struct bool "(string \<times> layout) list"
  | Union "(string \<times> layout) list"

definition round_up :: "nat \<Rightarrow> nat \<Rightarrow> nat" where
  "round_up n a = (if a = 0 \<or> n mod a = 0 then n else n + (a - n mod a))"

text \<open>
  Placing fields one after the other: each at the next multiple of its alignment (packed: at
  the very next byte). The result lists name, offset and size, and the end of the last field.
\<close>

definition field_start :: "bool \<Rightarrow> nat \<Rightarrow> nat \<Rightarrow> nat" where
  "field_start packed off al = (if packed then off else round_up off al)"

fun place :: "bool \<Rightarrow> nat \<Rightarrow> (string \<times> nat \<times> nat) list \<Rightarrow> (string \<times> nat \<times> nat) list \<times> nat" where
  "place packed off [] = ([], off)"
| "place packed off ((n, sz, al) # fs) =
     (let o' = field_start packed off al;
          rest = place packed (o' + sz) fs
      in ((n, o', sz) # fst rest, snd rest))"

fun align_of :: "layout \<Rightarrow> nat" where
  "align_of (Scalar n) = n"
| "align_of (Array t n) = align_of t"
| "align_of (Struct packed fs) =
     (if packed then 1 else fold (\<lambda>(_, t) m. max m (align_of t)) fs 1)"
| "align_of (Union fs) = fold (\<lambda>(_, t) m. max m (align_of t)) fs 1"

fun size_of :: "layout \<Rightarrow> nat" where
  "size_of (Scalar n) = n"
| "size_of (Array t n) = size_of t * n"
| "size_of (Struct packed fs) =
     round_up (snd (place packed 0 (map (\<lambda>(n, t). (n, size_of t, align_of t)) fs)))
       (align_of (Struct packed fs))"
| "size_of (Union fs) =
     round_up (fold (\<lambda>(_, t) m. max m (size_of t)) fs 0) (align_of (Union fs))"

text \<open>\<open>offset_of!\<close> for every field, in declaration order.\<close>

fun offsets_of :: "layout \<Rightarrow> (string \<times> nat) list" where
  "offsets_of (Scalar n) = []"
| "offsets_of (Array t n) = []"
| "offsets_of (Struct packed fs) =
     map (\<lambda>(n, o', _). (n, o'))
       (fst (place packed 0 (map (\<lambda>(n, t). (n, size_of t, align_of t)) fs)))"
| "offsets_of (Union fs) = map (\<lambda>(n, _). (n, 0)) fs"

text \<open>The extents \<open>(offset, size)\<close> of the fields of a struct.\<close>

definition extents :: "bool \<Rightarrow> (string \<times> layout) list \<Rightarrow> (string \<times> nat \<times> nat) list" where
  "extents packed fs = fst (place packed 0 (map (\<lambda>(n, t). (n, size_of t, align_of t)) fs))"

section \<open>Guarantees of the rule\<close>

lemma round_up_next:
  assumes "a \<noteq> 0" "n mod a \<noteq> 0"
  shows "round_up n a = n div a * a + a"
proof -
  have "n mod a < a" using assms by simp
  moreover have "n div a * a + n mod a = n" by simp
  ultimately have "n + (a - n mod a) = n div a * a + a" by linarith
  then show ?thesis using assms by (simp add: round_up_def)
qed

lemma round_up_fits: "a = 0 \<or> n mod a = 0 \<Longrightarrow> round_up n a = n"
  by (simp add: round_up_def)

lemma round_up_ge: "n \<le> round_up n a"
  by (simp add: round_up_def trans_le_add1 del: Nat.add_diff_assoc)

lemma round_up_dvd: "a \<noteq> 0 \<Longrightarrow> a dvd round_up n a"
  by (cases "n mod a = 0") (auto simp: round_up_fits round_up_next)

lemma round_up_tight:
  assumes "a \<noteq> 0"
  shows "round_up n a < n + a"
proof (cases "n mod a = 0")
  case False
  have "n div a * a + n mod a = n" by simp
  with False have "n div a * a < n" by linarith
  then show ?thesis using assms False by (simp add: round_up_next)
qed (use assms in \<open>simp add: round_up_fits\<close>)

lemma field_start_ge: "off \<le> field_start p off al"
  by (simp add: field_start_def round_up_ge)

lemma place_end_ge: "off \<le> snd (place p off fs)"
proof (induction p off fs rule: place.induct)
  case (2 packed off n sz al fs)
  have "off \<le> field_start packed off al" by (rule field_start_ge)
  with 2 show ?case by (simp add: Let_def)
qed simp

lemma place_bounds:
  "(n, x, sz) \<in> set (fst (place p off fs)) \<Longrightarrow> off \<le> x \<and> x + sz \<le> snd (place p off fs)"
proof (induction p off fs rule: place.induct)
  case (2 packed off m sz' al fs)
  let ?o = "field_start packed off al"
  have ge: "off \<le> ?o" "?o + sz' \<le> snd (place packed (?o + sz') fs)"
    by (simp_all add: field_start_ge place_end_ge)
  from "2.prems" consider "n = m" "x = ?o" "sz = sz'"
    | "(n, x, sz) \<in> set (fst (place packed (?o + sz') fs))"
    by (auto simp: Let_def)
  then show ?case
  proof cases
    case 1
    with ge show ?thesis by (simp add: Let_def)
  next
    case 2
    then have "?o + sz' \<le> x \<and> x + sz \<le> snd (place packed (?o + sz') fs)"
      by (rule "2.IH" [OF refl])
    with ge show ?thesis by (simp add: Let_def)
  qed
qed simp

lemma place_sorted:
  "sorted_wrt (\<lambda>(_, x, sz) (_, y, _). x + sz \<le> y) (fst (place p off fs))"
proof (induction p off fs rule: place.induct)
  case (2 packed off m sz' al fs)
  then show ?case
    using place_bounds [of _ _ _ packed "field_start packed off al + sz'" fs]
    by (auto simp: Let_def)
qed simp

lemma place_aligned:
  assumes "\<forall>(_, _, al) \<in> set fs. al \<noteq> 0"
  shows "list_all2 (\<lambda>(_, x, _) (_, _, al). al dvd x) (fst (place False off fs)) fs"
  using assms
  by (induction "False" off fs rule: place.induct)
    (auto simp: Let_def field_start_def round_up_dvd)

lemma place_names: "map fst (fst (place p off fs)) = map fst fs"
  by (induction p off fs rule: place.induct) (auto simp: Let_def)

text \<open>Evaluating a placement without duplicating its tail.\<close>

lemma fst_place:
  "fst (place p off []) = []"
  "fst (place p off ((n, sz, al) # fs)) =
     (n, field_start p off al, sz) # fst (place p (field_start p off al + sz) fs)"
  by (simp_all add: Let_def)

lemma snd_place:
  "snd (place p off []) = off"
  "snd (place p off ((n, sz, al) # fs)) = snd (place p (field_start p off al + sz) fs)"
  by (simp_all add: Let_def)

lemmas place_eval = fst_place snd_place

declare place.simps [simp del]

section \<open>The guarantees for whole types\<close>

lemma fold_max_ge_init: "m \<le> fold (\<lambda>(_, t) m. max m (f t)) fs (m :: nat)"
proof (induction fs arbitrary: m)
  case (Cons a fs)
  have "m \<le> max m (f (snd a))" by simp
  also have "\<dots> \<le> fold (\<lambda>(_, t) m. max m (f t)) fs (max m (f (snd a)))" by (rule Cons.IH)
  finally show ?case by (simp add: split_def)
qed simp

lemma fold_max_ge: "(n, t) \<in> set fs \<Longrightarrow> f t \<le> fold (\<lambda>(_, t) m. max m (f t)) fs (m :: nat)"
proof (induction fs arbitrary: m)
  case (Cons a fs)
  show ?case
  proof (cases "a = (n, t)")
    case True
    have "f t \<le> max m (f t)" by simp
    also have "\<dots> \<le> fold (\<lambda>(_, t) m. max m (f t)) fs (max m (f t))" by (rule fold_max_ge_init)
    finally show ?thesis by (simp add: True)
  next
    case False
    with Cons show ?thesis by (simp add: split_def)
  qed
qed simp

lemma align_of_Struct_pos: "align_of (Struct p fs) \<noteq> 0"
  using fold_max_ge_init [of 1 align_of fs] by auto

lemma align_of_Union_pos: "align_of (Union fs) \<noteq> 0"
  using fold_max_ge_init [of 1 align_of fs] by auto

lemma size_of_aligned: "align_of (Struct p fs) dvd size_of (Struct p fs)"
  unfolding size_of.simps by (rule round_up_dvd [OF align_of_Struct_pos])

lemma size_of_Union_aligned: "align_of (Union fs) dvd size_of (Union fs)"
  unfolding size_of.simps by (rule round_up_dvd [OF align_of_Union_pos])

lemma extents_in_bounds:
  assumes "(n, x, sz) \<in> set (extents p fs)"
  shows "x + sz \<le> size_of (Struct p fs)"
  using place_bounds [OF assms [unfolded extents_def]] round_up_ge
  by (auto intro: order_trans)

lemma extents_disjoint: "sorted_wrt (\<lambda>(_, x, sz) (_, y, _). x + sz \<le> y) (extents p fs)"
  unfolding extents_def by (rule place_sorted)

lemma union_member_fits: "(n, t) \<in> set fs \<Longrightarrow> size_of t \<le> size_of (Union fs)"
  using fold_max_ge [of n t fs size_of 0] round_up_ge
  by (auto intro: order_trans)

end
