(* ===== verification/LayoutTable.thy ===== *)
theory LayoutTable
  imports Layout
begin

text \<open>
  The type aliases, structs and unions of \<open>ffi/pfvar.rs\<close> as type descriptions, in dependency
  order, each with the size, alignment and field offsets that the file asserts at compile
  time, and the check that the \<open>repr(C)\<close> rule of the theory \<open>Layout\<close> gives exactly those.
  Pointers are scalars of eight bytes, so that the recursive types need no recursion here.
\<close>

named_theorems layout_checks "sizes and alignments established so far"

text \<open>What the constant block that follows each struct checks.\<close>

definition satisfies :: "layout \<Rightarrow> nat \<times> nat \<times> (string \<times> nat) list \<Rightarrow> bool" where
  "satisfies t a \<longleftrightarrow> (case a of (sz, al, offs) \<Rightarrow>
     size_of t = sz \<and> align_of t = al \<and> offsets_of t = offs)"

section \<open>Type aliases\<close>

definition c_uint8_t_layout :: "layout" where
  "c_uint8_t_layout = Scalar 1"

definition c_uint16_t_layout :: "layout" where
  "c_uint16_t_layout = Scalar 2"

definition c_int32_t_layout :: "layout" where
  "c_int32_t_layout = Scalar 4"

definition c_uint32_t_layout :: "layout" where
  "c_uint32_t_layout = Scalar 4"

definition c_darwin_pid_t_layout :: "layout" where
  "c_darwin_pid_t_layout = c_int32_t_layout"

definition c_darwin_uid_t_layout :: "layout" where
  "c_darwin_uid_t_layout = c_uint32_t_layout"

definition u_int8_t_layout :: "layout" where
  "u_int8_t_layout = Scalar 1"

definition u_int16_t_layout :: "layout" where
  "u_int16_t_layout = Scalar 2"

definition u_int32_t_layout :: "layout" where
  "u_int32_t_layout = Scalar 4"

definition u_int64_t_layout :: "layout" where
  "u_int64_t_layout = Scalar 8"

definition caddr_t_layout :: "layout" where
  "caddr_t_layout = Scalar 8"

definition in_addr_t_layout :: "layout" where
  "in_addr_t_layout = c_uint32_t_layout"

definition pid_t_layout :: "layout" where
  "pid_t_layout = c_darwin_pid_t_layout"

definition uid_t_layout :: "layout" where
  "uid_t_layout = c_darwin_uid_t_layout"

definition sa_family_t_layout :: "layout" where
  "sa_family_t_layout = c_uint8_t_layout"

definition pf_osfp_t_layout :: "layout" where
  "pf_osfp_t_layout = u_int32_t_layout"

lemmas alias_layouts = c_uint8_t_layout_def c_uint16_t_layout_def c_int32_t_layout_def c_uint32_t_layout_def c_darwin_pid_t_layout_def c_darwin_uid_t_layout_def u_int8_t_layout_def u_int16_t_layout_def u_int32_t_layout_def u_int64_t_layout_def caddr_t_layout_def in_addr_t_layout_def pid_t_layout_def uid_t_layout_def sa_family_t_layout_def pf_osfp_t_layout_def

section \<open>Structs and unions, with the asserted size, alignment and offsets\<close>

definition in_addr_layout :: "layout" where
  "in_addr_layout = Struct False
    [(''s_addr'', in_addr_t_layout)]"

definition in_addr_asserts :: "nat \<times> nat \<times> (string \<times> nat) list" where
  "in_addr_asserts = (4, 4,
    [(''s_addr'', 0)])"

lemma in_addr_size [layout_checks]: "size_of in_addr_layout = 4" "align_of in_addr_layout = 4"
  by (simp_all add: in_addr_layout_def alias_layouts round_up_def field_start_def layout_checks place_eval
      numeral_2_eq_2 [symmetric])

lemma in_addr_checked: "satisfies in_addr_layout in_addr_asserts"
  by (simp add: satisfies_def in_addr_asserts_def layout_checks)
    (simp add: in_addr_layout_def alias_layouts round_up_def field_start_def layout_checks place_eval
      numeral_2_eq_2 [symmetric])

definition in6_addr_bindgen_ty_1_layout :: "layout" where
  "in6_addr_bindgen_ty_1_layout = Union
    [(''__u6_addr8'', Array c_uint8_t_layout 16),
     (''__u6_addr16'', Array c_uint16_t_layout 8),
     (''__u6_addr32'', Array c_uint32_t_layout 4)]"

definition in6_addr_bindgen_ty_1_asserts :: "nat \<times> nat \<times> (string \<times> nat) list" where
  "in6_addr_bindgen_ty_1_asserts = (16, 4,
    [(''__u6_addr8'', 0), (''__u6_addr16'', 0), (''__u6_addr32'', 0)])"

lemma in6_addr_bindgen_ty_1_size [layout_checks]: "size_of in6_addr_bindgen_ty_1_layout = 16" "align_of in6_addr_bindgen_ty_1_layout = 4"
  by (simp_all add: in6_addr_bindgen_ty_1_layout_def alias_layouts round_up_def field_start_def layout_checks place_eval
      numeral_2_eq_2 [symmetric])

lemma in6_addr_bindgen_ty_1_checked: "satisfies in6_addr_bindgen_ty_1_layout in6_addr_bindgen_ty_1_asserts"
  by (simp add: satisfies_def in6_addr_bindgen_ty_1_asserts_def layout_checks)
    (simp add: in6_addr_bindgen_ty_1_layout_def alias_layouts round_up_def field_start_def layout_checks place_eval
      numeral_2_eq_2 [symmetric])

definition in6_addr_layout :: "layout" where
  "in6_addr_layout = Struct False
    [(''__u6_addr'', in6_addr_bindgen_ty_1_layout)]"

definition in6_addr_asserts :: "nat \<times> nat \<times> (string \<times> nat) list" where
  "in6_addr_asserts = (16, 4,
    [(''__u6_addr'', 0)])"

lemma in6_addr_size [layout_checks]: "size_of in6_addr_layout = 16" "align_of in6_addr_layout = 4"
  by (simp_all add: in6_addr_layout_def alias_layouts round_up_def field_start_def layout_checks place_eval
      numeral_2_eq_2 [symmetric])

lemma in6_addr_checked: "satisfies in6_addr_layout in6_addr_asserts"
  by (simp add: satisfies_def in6_addr_asserts_def layout_checks)
    (simp add: in6_addr_layout_def alias_layouts round_up_def field_start_def layout_checks place_eval
      numeral_2_eq_2 [symmetric])

definition pf_addr_bindgen_ty_1_layout :: "layout" where
  "pf_addr_bindgen_ty_1_layout = Union
    [(''_v4addr'', in_addr_layout), (''_v6addr'', in6_addr_layout),
     (''_addr8'', Array u_int8_t_layout 16), (''_addr16'', Array u_int16_t_layout 8),
     (''_addr32'', Array u_int32_t_layout 4)]"

definition pf_addr_bindgen_ty_1_asserts :: "nat \<times> nat \<times> (string \<times> nat) list" where
  "pf_addr_bindgen_ty_1_asserts = (16, 4,
    [(''_v4addr'', 0), (''_v6addr'', 0), (''_addr8'', 0), (''_addr16'', 0), (''_addr32'', 0)])"

lemma pf_addr_bindgen_ty_1_size [layout_checks]: "size_of pf_addr_bindgen_ty_1_layout = 16" "align_of pf_addr_bindgen_ty_1_layout = 4"
  by (simp_all add: pf_addr_bindgen_ty_1_layout_def alias_layouts round_up_def field_start_def layout_checks place_eval
      numeral_2_eq_2 [symmetric])

lemma pf_addr_bindgen_ty_1_checked: "satisfies pf_addr_bindgen_ty_1_layout pf_addr_bindgen_ty_1_asserts"
  by (simp add: satisfies_def pf_addr_bindgen_ty_1_asserts_def layout_checks)
    (simp add: pf_addr_bindgen_ty_1_layout_def alias_layouts round_up_def field_start_def layout_checks place_eval
      numeral_2_eq_2 [symmetric])

definition pf_addr_layout :: "layout" where
  "pf_addr_layout = Struct False
    [(''pfa'', pf_addr_bindgen_ty_1_layout)]"

definition pf_addr_asserts :: "nat \<times> nat \<times> (string \<times> nat) list" where
  "pf_addr_asserts = (16, 4,
    [(''pfa'', 0)])"

lemma pf_addr_size [layout_checks]: "size_of pf_addr_layout = 16" "align_of pf_addr_layout = 4"
  by (simp_all add: pf_addr_layout_def alias_layouts round_up_def field_start_def layout_checks place_eval
      numeral_2_eq_2 [symmetric])

lemma pf_addr_checked: "satisfies pf_addr_layout pf_addr_asserts"
  by (simp add: satisfies_def pf_addr_asserts_def layout_checks)
    (simp add: pf_addr_layout_def alias_layouts round_up_def field_start_def layout_checks place_eval
      numeral_2_eq_2 [symmetric])

definition pf_addr_wrap_bindgen_ty_1_bindgen_ty_1_layout :: "layout" where
  "pf_addr_wrap_bindgen_ty_1_bindgen_ty_1_layout = Struct False
    [(''addr'', pf_addr_layout), (''mask'', pf_addr_layout)]"

definition pf_addr_wrap_bindgen_ty_1_bindgen_ty_1_asserts :: "nat \<times> nat \<times> (string \<times> nat) list" where
  "pf_addr_wrap_bindgen_ty_1_bindgen_ty_1_asserts = (32, 4,
    [(''addr'', 0), (''mask'', 16)])"

lemma pf_addr_wrap_bindgen_ty_1_bindgen_ty_1_size [layout_checks]: "size_of pf_addr_wrap_bindgen_ty_1_bindgen_ty_1_layout = 32" "align_of pf_addr_wrap_bindgen_ty_1_bindgen_ty_1_layout = 4"
  by (simp_all add: pf_addr_wrap_bindgen_ty_1_bindgen_ty_1_layout_def alias_layouts round_up_def field_start_def layout_checks place_eval
      numeral_2_eq_2 [symmetric])

lemma pf_addr_wrap_bindgen_ty_1_bindgen_ty_1_checked: "satisfies pf_addr_wrap_bindgen_ty_1_bindgen_ty_1_layout pf_addr_wrap_bindgen_ty_1_bindgen_ty_1_asserts"
  by (simp add: satisfies_def pf_addr_wrap_bindgen_ty_1_bindgen_ty_1_asserts_def layout_checks)
    (simp add: pf_addr_wrap_bindgen_ty_1_bindgen_ty_1_layout_def alias_layouts round_up_def field_start_def layout_checks place_eval
      numeral_2_eq_2 [symmetric])

definition pf_addr_wrap_bindgen_ty_1_layout :: "layout" where
  "pf_addr_wrap_bindgen_ty_1_layout = Union
    [(''a'', pf_addr_wrap_bindgen_ty_1_bindgen_ty_1_layout),
     (''ifname'', Array (Scalar 1) 16), (''tblname'', Array (Scalar 1) 32),
     (''rtlabelname'', Array (Scalar 1) 32), (''rtlabel'', u_int32_t_layout)]"

definition pf_addr_wrap_bindgen_ty_1_asserts :: "nat \<times> nat \<times> (string \<times> nat) list" where
  "pf_addr_wrap_bindgen_ty_1_asserts = (32, 4,
    [(''a'', 0), (''ifname'', 0), (''tblname'', 0), (''rtlabelname'', 0), (''rtlabel'', 0)])"

lemma pf_addr_wrap_bindgen_ty_1_size [layout_checks]: "size_of pf_addr_wrap_bindgen_ty_1_layout = 32" "align_of pf_addr_wrap_bindgen_ty_1_layout = 4"
  by (simp_all add: pf_addr_wrap_bindgen_ty_1_layout_def alias_layouts round_up_def field_start_def layout_checks place_eval
      numeral_2_eq_2 [symmetric])

lemma pf_addr_wrap_bindgen_ty_1_checked: "satisfies pf_addr_wrap_bindgen_ty_1_layout pf_addr_wrap_bindgen_ty_1_asserts"
  by (simp add: satisfies_def pf_addr_wrap_bindgen_ty_1_asserts_def layout_checks)
    (simp add: pf_addr_wrap_bindgen_ty_1_layout_def alias_layouts round_up_def field_start_def layout_checks place_eval
      numeral_2_eq_2 [symmetric])

definition pf_addr_wrap_bindgen_ty_2_layout :: "layout" where
  "pf_addr_wrap_bindgen_ty_2_layout = Union
    [(''dyn_'', Scalar 8), (''tbl'', Scalar 8), (''dyncnt'', Scalar 4),
     (''tblcnt'', Scalar 4)]"

definition pf_addr_wrap_bindgen_ty_2_asserts :: "nat \<times> nat \<times> (string \<times> nat) list" where
  "pf_addr_wrap_bindgen_ty_2_asserts = (8, 8,
    [(''dyn_'', 0), (''tbl'', 0), (''dyncnt'', 0), (''tblcnt'', 0)])"

lemma pf_addr_wrap_bindgen_ty_2_size [layout_checks]: "size_of pf_addr_wrap_bindgen_ty_2_layout = 8" "align_of pf_addr_wrap_bindgen_ty_2_layout = 8"
  by (simp_all add: pf_addr_wrap_bindgen_ty_2_layout_def alias_layouts round_up_def field_start_def layout_checks place_eval
      numeral_2_eq_2 [symmetric])

lemma pf_addr_wrap_bindgen_ty_2_checked: "satisfies pf_addr_wrap_bindgen_ty_2_layout pf_addr_wrap_bindgen_ty_2_asserts"
  by (simp add: satisfies_def pf_addr_wrap_bindgen_ty_2_asserts_def layout_checks)
    (simp add: pf_addr_wrap_bindgen_ty_2_layout_def alias_layouts round_up_def field_start_def layout_checks place_eval
      numeral_2_eq_2 [symmetric])

definition pf_addr_wrap_layout :: "layout" where
  "pf_addr_wrap_layout = Struct False
    [(''v'', pf_addr_wrap_bindgen_ty_1_layout), (''p'', pf_addr_wrap_bindgen_ty_2_layout),
     (''type_'', u_int8_t_layout), (''iflags'', u_int8_t_layout)]"

definition pf_addr_wrap_asserts :: "nat \<times> nat \<times> (string \<times> nat) list" where
  "pf_addr_wrap_asserts = (48, 8,
    [(''v'', 0), (''p'', 32), (''type_'', 40), (''iflags'', 41)])"

lemma pf_addr_wrap_size [layout_checks]: "size_of pf_addr_wrap_layout = 48" "align_of pf_addr_wrap_layout = 8"
  by (simp_all add: pf_addr_wrap_layout_def alias_layouts round_up_def field_start_def layout_checks place_eval
      numeral_2_eq_2 [symmetric])

lemma pf_addr_wrap_checked: "satisfies pf_addr_wrap_layout pf_addr_wrap_asserts"
  by (simp add: satisfies_def pf_addr_wrap_asserts_def layout_checks)
    (simp add: pf_addr_wrap_layout_def alias_layouts round_up_def field_start_def layout_checks place_eval
      numeral_2_eq_2 [symmetric])

definition pf_port_range_layout :: "layout" where
  "pf_port_range_layout = Struct False
    [(''port'', Array u_int16_t_layout 2), (''op'', u_int8_t_layout)]"

definition pf_port_range_asserts :: "nat \<times> nat \<times> (string \<times> nat) list" where
  "pf_port_range_asserts = (6, 2,
    [(''port'', 0), (''op'', 4)])"

lemma pf_port_range_size [layout_checks]: "size_of pf_port_range_layout = 6" "align_of pf_port_range_layout = 2"
  by (simp_all add: pf_port_range_layout_def alias_layouts round_up_def field_start_def layout_checks place_eval
      numeral_2_eq_2 [symmetric])

lemma pf_port_range_checked: "satisfies pf_port_range_layout pf_port_range_asserts"
  by (simp add: satisfies_def pf_port_range_asserts_def layout_checks)
    (simp add: pf_port_range_layout_def alias_layouts round_up_def field_start_def layout_checks place_eval
      numeral_2_eq_2 [symmetric])

definition pf_rule_xport_layout :: "layout" where
  "pf_rule_xport_layout = Union
    [(''range'', pf_port_range_layout), (''call_id'', u_int16_t_layout),
     (''spi'', u_int32_t_layout)]"

definition pf_rule_xport_asserts :: "nat \<times> nat \<times> (string \<times> nat) list" where
  "pf_rule_xport_asserts = (8, 4,
    [(''range'', 0), (''call_id'', 0), (''spi'', 0)])"

lemma pf_rule_xport_size [layout_checks]: "size_of pf_rule_xport_layout = 8" "align_of pf_rule_xport_layout = 4"
  by (simp_all add: pf_rule_xport_layout_def alias_layouts round_up_def field_start_def layout_checks place_eval
      numeral_2_eq_2 [symmetric])

lemma pf_rule_xport_checked: "satisfies pf_rule_xport_layout pf_rule_xport_asserts"
  by (simp add: satisfies_def pf_rule_xport_asserts_def layout_checks)
    (simp add: pf_rule_xport_layout_def alias_layouts round_up_def field_start_def layout_checks place_eval
      numeral_2_eq_2 [symmetric])

definition pf_rule_uid_layout :: "layout" where
  "pf_rule_uid_layout = Struct False
    [(''uid'', Array uid_t_layout 2), (''op'', u_int8_t_layout),
     (''_pad'', Array u_int8_t_layout 3)]"

definition pf_rule_uid_asserts :: "nat \<times> nat \<times> (string \<times> nat) list" where
  "pf_rule_uid_asserts = (12, 4,
    [(''uid'', 0), (''op'', 8), (''_pad'', 9)])"

lemma pf_rule_uid_size [layout_checks]: "size_of pf_rule_uid_layout = 12" "align_of pf_rule_uid_layout = 4"
  by (simp_all add: pf_rule_uid_layout_def alias_layouts round_up_def field_start_def layout_checks place_eval
      numeral_2_eq_2 [symmetric])

lemma pf_rule_uid_checked: "satisfies pf_rule_uid_layout pf_rule_uid_asserts"
  by (simp add: satisfies_def pf_rule_uid_asserts_def layout_checks)
    (simp add: pf_rule_uid_layout_def alias_layouts round_up_def field_start_def layout_checks place_eval
      numeral_2_eq_2 [symmetric])

definition pf_rule_gid_layout :: "layout" where
  "pf_rule_gid_layout = Struct False
    [(''gid'', Array uid_t_layout 2), (''op'', u_int8_t_layout),
     (''_pad'', Array u_int8_t_layout 3)]"

definition pf_rule_gid_asserts :: "nat \<times> nat \<times> (string \<times> nat) list" where
  "pf_rule_gid_asserts = (12, 4,
    [(''gid'', 0), (''op'', 8), (''_pad'', 9)])"

lemma pf_rule_gid_size [layout_checks]: "size_of pf_rule_gid_layout = 12" "align_of pf_rule_gid_layout = 4"
  by (simp_all add: pf_rule_gid_layout_def alias_layouts round_up_def field_start_def layout_checks place_eval
      numeral_2_eq_2 [symmetric])

lemma pf_rule_gid_checked: "satisfies pf_rule_gid_layout pf_rule_gid_asserts"
  by (simp add: satisfies_def pf_rule_gid_asserts_def layout_checks)
    (simp add: pf_rule_gid_layout_def alias_layouts round_up_def field_start_def layout_checks place_eval
      numeral_2_eq_2 [symmetric])

definition pf_rule_addr_layout :: "layout" where
  "pf_rule_addr_layout = Struct False
    [(''addr'', pf_addr_wrap_layout), (''xport'', pf_rule_xport_layout),
     (''neg'', u_int8_t_layout)]"

definition pf_rule_addr_asserts :: "nat \<times> nat \<times> (string \<times> nat) list" where
  "pf_rule_addr_asserts = (64, 8,
    [(''addr'', 0), (''xport'', 48), (''neg'', 56)])"

lemma pf_rule_addr_size [layout_checks]: "size_of pf_rule_addr_layout = 64" "align_of pf_rule_addr_layout = 8"
  by (simp_all add: pf_rule_addr_layout_def alias_layouts round_up_def field_start_def layout_checks place_eval
      numeral_2_eq_2 [symmetric])

lemma pf_rule_addr_checked: "satisfies pf_rule_addr_layout pf_rule_addr_asserts"
  by (simp add: satisfies_def pf_rule_addr_asserts_def layout_checks)
    (simp add: pf_rule_addr_layout_def alias_layouts round_up_def field_start_def layout_checks place_eval
      numeral_2_eq_2 [symmetric])

definition pf_pooladdr_bindgen_ty_1_layout :: "layout" where
  "pf_pooladdr_bindgen_ty_1_layout = Struct False
    [(''tqe_next'', Scalar 8), (''tqe_prev'', Scalar 8)]"

definition pf_pooladdr_bindgen_ty_1_asserts :: "nat \<times> nat \<times> (string \<times> nat) list" where
  "pf_pooladdr_bindgen_ty_1_asserts = (16, 8,
    [(''tqe_next'', 0), (''tqe_prev'', 8)])"

lemma pf_pooladdr_bindgen_ty_1_size [layout_checks]: "size_of pf_pooladdr_bindgen_ty_1_layout = 16" "align_of pf_pooladdr_bindgen_ty_1_layout = 8"
  by (simp_all add: pf_pooladdr_bindgen_ty_1_layout_def alias_layouts round_up_def field_start_def layout_checks place_eval
      numeral_2_eq_2 [symmetric])

lemma pf_pooladdr_bindgen_ty_1_checked: "satisfies pf_pooladdr_bindgen_ty_1_layout pf_pooladdr_bindgen_ty_1_asserts"
  by (simp add: satisfies_def pf_pooladdr_bindgen_ty_1_asserts_def layout_checks)
    (simp add: pf_pooladdr_bindgen_ty_1_layout_def alias_layouts round_up_def field_start_def layout_checks place_eval
      numeral_2_eq_2 [symmetric])

definition pf_pooladdr_layout :: "layout" where
  "pf_pooladdr_layout = Struct False
    [(''addr'', pf_addr_wrap_layout), (''entries'', pf_pooladdr_bindgen_ty_1_layout),
     (''ifname'', Array (Scalar 1) 16), (''kif'', Scalar 8)]"

definition pf_pooladdr_asserts :: "nat \<times> nat \<times> (string \<times> nat) list" where
  "pf_pooladdr_asserts = (88, 8,
    [(''addr'', 0), (''entries'', 48), (''ifname'', 64), (''kif'', 80)])"

lemma pf_pooladdr_size [layout_checks]: "size_of pf_pooladdr_layout = 88" "align_of pf_pooladdr_layout = 8"
  by (simp_all add: pf_pooladdr_layout_def alias_layouts round_up_def field_start_def layout_checks place_eval
      numeral_2_eq_2 [symmetric])

lemma pf_pooladdr_checked: "satisfies pf_pooladdr_layout pf_pooladdr_asserts"
  by (simp add: satisfies_def pf_pooladdr_asserts_def layout_checks)
    (simp add: pf_pooladdr_layout_def alias_layouts round_up_def field_start_def layout_checks place_eval
      numeral_2_eq_2 [symmetric])

definition pf_palist_layout :: "layout" where
  "pf_palist_layout = Struct False
    [(''tqh_first'', Scalar 8), (''tqh_last'', Scalar 8)]"

definition pf_palist_asserts :: "nat \<times> nat \<times> (string \<times> nat) list" where
  "pf_palist_asserts = (16, 8,
    [(''tqh_first'', 0), (''tqh_last'', 8)])"

lemma pf_palist_size [layout_checks]: "size_of pf_palist_layout = 16" "align_of pf_palist_layout = 8"
  by (simp_all add: pf_palist_layout_def alias_layouts round_up_def field_start_def layout_checks place_eval
      numeral_2_eq_2 [symmetric])

lemma pf_palist_checked: "satisfies pf_palist_layout pf_palist_asserts"
  by (simp add: satisfies_def pf_palist_asserts_def layout_checks)
    (simp add: pf_palist_layout_def alias_layouts round_up_def field_start_def layout_checks place_eval
      numeral_2_eq_2 [symmetric])

definition pf_poolhashkey_bindgen_ty_1_layout :: "layout" where
  "pf_poolhashkey_bindgen_ty_1_layout = Union
    [(''key8'', Array u_int8_t_layout 16), (''key16'', Array u_int16_t_layout 8),
     (''key32'', Array u_int32_t_layout 4)]"

definition pf_poolhashkey_bindgen_ty_1_asserts :: "nat \<times> nat \<times> (string \<times> nat) list" where
  "pf_poolhashkey_bindgen_ty_1_asserts = (16, 4,
    [(''key8'', 0), (''key16'', 0), (''key32'', 0)])"

lemma pf_poolhashkey_bindgen_ty_1_size [layout_checks]: "size_of pf_poolhashkey_bindgen_ty_1_layout = 16" "align_of pf_poolhashkey_bindgen_ty_1_layout = 4"
  by (simp_all add: pf_poolhashkey_bindgen_ty_1_layout_def alias_layouts round_up_def field_start_def layout_checks place_eval
      numeral_2_eq_2 [symmetric])

lemma pf_poolhashkey_bindgen_ty_1_checked: "satisfies pf_poolhashkey_bindgen_ty_1_layout pf_poolhashkey_bindgen_ty_1_asserts"
  by (simp add: satisfies_def pf_poolhashkey_bindgen_ty_1_asserts_def layout_checks)
    (simp add: pf_poolhashkey_bindgen_ty_1_layout_def alias_layouts round_up_def field_start_def layout_checks place_eval
      numeral_2_eq_2 [symmetric])

definition pf_poolhashkey_layout :: "layout" where
  "pf_poolhashkey_layout = Struct False
    [(''pfk'', pf_poolhashkey_bindgen_ty_1_layout)]"

definition pf_poolhashkey_asserts :: "nat \<times> nat \<times> (string \<times> nat) list" where
  "pf_poolhashkey_asserts = (16, 4,
    [(''pfk'', 0)])"

lemma pf_poolhashkey_size [layout_checks]: "size_of pf_poolhashkey_layout = 16" "align_of pf_poolhashkey_layout = 4"
  by (simp_all add: pf_poolhashkey_layout_def alias_layouts round_up_def field_start_def layout_checks place_eval
      numeral_2_eq_2 [symmetric])

lemma pf_poolhashkey_checked: "satisfies pf_poolhashkey_layout pf_poolhashkey_asserts"
  by (simp add: satisfies_def pf_poolhashkey_asserts_def layout_checks)
    (simp add: pf_poolhashkey_layout_def alias_layouts round_up_def field_start_def layout_checks place_eval
      numeral_2_eq_2 [symmetric])

definition pf_pool_layout :: "layout" where
  "pf_pool_layout = Struct False
    [(''list'', pf_palist_layout), (''cur'', Scalar 8), (''key'', pf_poolhashkey_layout),
     (''counter'', pf_addr_layout), (''tblidx'', Scalar 4),
     (''proxy_port'', Array u_int16_t_layout 2), (''port_op'', u_int8_t_layout),
     (''opts'', u_int8_t_layout), (''af'', sa_family_t_layout)]"

definition pf_pool_asserts :: "nat \<times> nat \<times> (string \<times> nat) list" where
  "pf_pool_asserts = (72, 8,
    [(''list'', 0), (''cur'', 16), (''key'', 24), (''counter'', 40), (''tblidx'', 56),
     (''proxy_port'', 60), (''port_op'', 64), (''opts'', 65), (''af'', 66)])"

lemma pf_pool_size [layout_checks]: "size_of pf_pool_layout = 72" "align_of pf_pool_layout = 8"
  by (simp_all add: pf_pool_layout_def alias_layouts round_up_def field_start_def layout_checks place_eval
      numeral_2_eq_2 [symmetric])

lemma pf_pool_checked: "satisfies pf_pool_layout pf_pool_asserts"
  by (simp add: satisfies_def pf_pool_asserts_def layout_checks)
    (simp add: pf_pool_layout_def alias_layouts round_up_def field_start_def layout_checks place_eval
      numeral_2_eq_2 [symmetric])

definition pf_rule_ptr_layout :: "layout" where
  "pf_rule_ptr_layout = Union
    [(''ptr'', Scalar 8), (''nr'', u_int32_t_layout)]"

definition pf_rule_ptr_asserts :: "nat \<times> nat \<times> (string \<times> nat) list" where
  "pf_rule_ptr_asserts = (8, 8,
    [(''ptr'', 0), (''nr'', 0)])"

lemma pf_rule_ptr_size [layout_checks]: "size_of pf_rule_ptr_layout = 8" "align_of pf_rule_ptr_layout = 8"
  by (simp_all add: pf_rule_ptr_layout_def alias_layouts round_up_def field_start_def layout_checks place_eval
      numeral_2_eq_2 [symmetric])

lemma pf_rule_ptr_checked: "satisfies pf_rule_ptr_layout pf_rule_ptr_asserts"
  by (simp add: satisfies_def pf_rule_ptr_asserts_def layout_checks)
    (simp add: pf_rule_ptr_layout_def alias_layouts round_up_def field_start_def layout_checks place_eval
      numeral_2_eq_2 [symmetric])

definition pf_rule_bindgen_ty_1_layout :: "layout" where
  "pf_rule_bindgen_ty_1_layout = Struct False
    [(''tqe_next'', Scalar 8), (''tqe_prev'', Scalar 8)]"

definition pf_rule_bindgen_ty_1_asserts :: "nat \<times> nat \<times> (string \<times> nat) list" where
  "pf_rule_bindgen_ty_1_asserts = (16, 8,
    [(''tqe_next'', 0), (''tqe_prev'', 8)])"

lemma pf_rule_bindgen_ty_1_size [layout_checks]: "size_of pf_rule_bindgen_ty_1_layout = 16" "align_of pf_rule_bindgen_ty_1_layout = 8"
  by (simp_all add: pf_rule_bindgen_ty_1_layout_def alias_layouts round_up_def field_start_def layout_checks place_eval
      numeral_2_eq_2 [symmetric])

lemma pf_rule_bindgen_ty_1_checked: "satisfies pf_rule_bindgen_ty_1_layout pf_rule_bindgen_ty_1_asserts"
  by (simp add: satisfies_def pf_rule_bindgen_ty_1_asserts_def layout_checks)
    (simp add: pf_rule_bindgen_ty_1_layout_def alias_layouts round_up_def field_start_def layout_checks place_eval
      numeral_2_eq_2 [symmetric])

definition pf_rule_bindgen_ty_2_layout :: "layout" where
  "pf_rule_bindgen_ty_2_layout = Struct False
    [(''limit'', u_int32_t_layout), (''seconds'', u_int32_t_layout)]"

definition pf_rule_bindgen_ty_2_asserts :: "nat \<times> nat \<times> (string \<times> nat) list" where
  "pf_rule_bindgen_ty_2_asserts = (8, 4,
    [(''limit'', 0), (''seconds'', 4)])"

lemma pf_rule_bindgen_ty_2_size [layout_checks]: "size_of pf_rule_bindgen_ty_2_layout = 8" "align_of pf_rule_bindgen_ty_2_layout = 4"
  by (simp_all add: pf_rule_bindgen_ty_2_layout_def alias_layouts round_up_def field_start_def layout_checks place_eval
      numeral_2_eq_2 [symmetric])

lemma pf_rule_bindgen_ty_2_checked: "satisfies pf_rule_bindgen_ty_2_layout pf_rule_bindgen_ty_2_asserts"
  by (simp add: satisfies_def pf_rule_bindgen_ty_2_asserts_def layout_checks)
    (simp add: pf_rule_bindgen_ty_2_layout_def alias_layouts round_up_def field_start_def layout_checks place_eval
      numeral_2_eq_2 [symmetric])

definition pf_rule_layout :: "layout" where
  "pf_rule_layout = Struct False
    [(''src'', pf_rule_addr_layout), (''dst'', pf_rule_addr_layout),
     (''skip'', Array pf_rule_ptr_layout 8), (''label'', Array (Scalar 1) 64),
     (''ifname'', Array (Scalar 1) 16), (''qname'', Array (Scalar 1) 64),
     (''pqname'', Array (Scalar 1) 64), (''tagname'', Array (Scalar 1) 64),
     (''match_tagname'', Array (Scalar 1) 64), (''overload_tblname'', Array (Scalar 1) 32),
     (''entries'', pf_rule_bindgen_ty_1_layout), (''rpool'', pf_pool_layout),
     (''evaluations'', u_int64_t_layout), (''packets'', Array u_int64_t_layout 2),
     (''bytes'', Array u_int64_t_layout 2), (''ticket'', u_int64_t_layout),
     (''owner'', Array (Scalar 1) 64), (''priority'', u_int32_t_layout),
     (''kif'', Scalar 8), (''anchor'', Scalar 8), (''overload_tbl'', Scalar 8),
     (''os_fingerprint'', pf_osfp_t_layout), (''rtableid'', Scalar 4),
     (''timeout'', Array u_int32_t_layout 26), (''states'', u_int32_t_layout),
     (''max_states'', u_int32_t_layout), (''src_nodes'', u_int32_t_layout),
     (''max_src_nodes'', u_int32_t_layout), (''max_src_states'', u_int32_t_layout),
     (''max_src_conn'', u_int32_t_layout),
     (''max_src_conn_rate'', pf_rule_bindgen_ty_2_layout), (''qid'', u_int32_t_layout),
     (''pqid'', u_int32_t_layout), (''rt_listid'', u_int32_t_layout),
     (''nr'', u_int32_t_layout), (''prob'', u_int32_t_layout), (''cuid'', uid_t_layout),
     (''cpid'', pid_t_layout), (''return_icmp'', u_int16_t_layout),
     (''return_icmp6'', u_int16_t_layout), (''max_mss'', u_int16_t_layout),
     (''tag'', u_int16_t_layout), (''match_tag'', u_int16_t_layout),
     (''uid'', pf_rule_uid_layout), (''gid'', pf_rule_gid_layout),
     (''rule_flag'', u_int32_t_layout), (''action'', u_int8_t_layout),
     (''direction'', u_int8_t_layout), (''log'', u_int8_t_layout),
     (''logif'', u_int8_t_layout), (''quick'', u_int8_t_layout),
     (''ifnot'', u_int8_t_layout), (''match_tag_not'', u_int8_t_layout),
     (''natpass'', u_int8_t_layout), (''keep_state'', u_int8_t_layout),
     (''af'', sa_family_t_layout), (''proto'', u_int8_t_layout),
     (''type_'', u_int8_t_layout), (''code'', u_int8_t_layout),
     (''flags'', u_int8_t_layout), (''flagset'', u_int8_t_layout),
     (''min_ttl'', u_int8_t_layout), (''allow_opts'', u_int8_t_layout),
     (''rt'', u_int8_t_layout), (''return_ttl'', u_int8_t_layout),
     (''tos'', u_int8_t_layout), (''anchor_relative'', u_int8_t_layout),
     (''anchor_wildcard'', u_int8_t_layout), (''flush'', u_int8_t_layout),
     (''proto_variant'', u_int8_t_layout), (''extfilter'', u_int8_t_layout),
     (''extmap'', u_int8_t_layout), (''dnpipe'', u_int32_t_layout),
     (''dntype'', u_int32_t_layout)]"

definition pf_rule_asserts :: "nat \<times> nat \<times> (string \<times> nat) list" where
  "pf_rule_asserts = (1040, 8,
    [(''src'', 0), (''dst'', 64), (''skip'', 128), (''label'', 192), (''ifname'', 256),
     (''qname'', 272), (''pqname'', 336), (''tagname'', 400), (''match_tagname'', 464),
     (''overload_tblname'', 528), (''entries'', 560), (''rpool'', 576),
     (''evaluations'', 648), (''packets'', 656), (''bytes'', 672), (''ticket'', 688),
     (''owner'', 696), (''priority'', 760), (''kif'', 768), (''anchor'', 776),
     (''overload_tbl'', 784), (''os_fingerprint'', 792), (''rtableid'', 796),
     (''timeout'', 800), (''states'', 904), (''max_states'', 908), (''src_nodes'', 912),
     (''max_src_nodes'', 916), (''max_src_states'', 920), (''max_src_conn'', 924),
     (''max_src_conn_rate'', 928), (''qid'', 936), (''pqid'', 940), (''rt_listid'', 944),
     (''nr'', 948), (''prob'', 952), (''cuid'', 956), (''cpid'', 960),
     (''return_icmp'', 964), (''return_icmp6'', 966), (''max_mss'', 968), (''tag'', 970),
     (''match_tag'', 972), (''uid'', 976), (''gid'', 988), (''rule_flag'', 1000),
     (''action'', 1004), (''direction'', 1005), (''log'', 1006), (''logif'', 1007),
     (''quick'', 1008), (''ifnot'', 1009), (''match_tag_not'', 1010), (''natpass'', 1011),
     (''keep_state'', 1012), (''af'', 1013), (''proto'', 1014), (''type_'', 1015),
     (''code'', 1016), (''flags'', 1017), (''flagset'', 1018), (''min_ttl'', 1019),
     (''allow_opts'', 1020), (''rt'', 1021), (''return_ttl'', 1022), (''tos'', 1023),
     (''anchor_relative'', 1024), (''anchor_wildcard'', 1025), (''flush'', 1026),
     (''proto_variant'', 1027), (''extfilter'', 1028), (''extmap'', 1029),
     (''dnpipe'', 1032), (''dntype'', 1036)])"

lemma pf_rule_size [layout_checks]: "size_of pf_rule_layout = 1040" "align_of pf_rule_layout = 8"
  by (simp_all add: pf_rule_layout_def alias_layouts round_up_def field_start_def layout_checks place_eval
      numeral_2_eq_2 [symmetric])

lemma pf_rule_checked: "satisfies pf_rule_layout pf_rule_asserts"
  by (simp add: satisfies_def pf_rule_asserts_def layout_checks)
    (simp add: pf_rule_layout_def alias_layouts round_up_def field_start_def layout_checks place_eval
      numeral_2_eq_2 [symmetric])

definition pf_state_xport_layout :: "layout" where
  "pf_state_xport_layout = Union
    [(''port'', u_int16_t_layout), (''call_id'', u_int16_t_layout),
     (''spi'', u_int32_t_layout)]"

definition pf_state_xport_asserts :: "nat \<times> nat \<times> (string \<times> nat) list" where
  "pf_state_xport_asserts = (4, 4,
    [(''port'', 0), (''call_id'', 0), (''spi'', 0)])"

lemma pf_state_xport_size [layout_checks]: "size_of pf_state_xport_layout = 4" "align_of pf_state_xport_layout = 4"
  by (simp_all add: pf_state_xport_layout_def alias_layouts round_up_def field_start_def layout_checks place_eval
      numeral_2_eq_2 [symmetric])

lemma pf_state_xport_checked: "satisfies pf_state_xport_layout pf_state_xport_asserts"
  by (simp add: satisfies_def pf_state_xport_asserts_def layout_checks)
    (simp add: pf_state_xport_layout_def alias_layouts round_up_def field_start_def layout_checks place_eval
      numeral_2_eq_2 [symmetric])

definition hook_desc_layout :: "layout" where
  "hook_desc_layout = Struct False
    [(''_unused'', Array (Scalar 1) 0)]"

lemma hook_desc_size [layout_checks]: "size_of hook_desc_layout = 0" "align_of hook_desc_layout = 1"
  by (simp_all add: hook_desc_layout_def round_up_def field_start_def place_eval)

definition hook_desc_head_layout :: "layout" where
  "hook_desc_head_layout = Struct False
    [(''tqh_first'', Scalar 8), (''tqh_last'', Scalar 8)]"

definition hook_desc_head_asserts :: "nat \<times> nat \<times> (string \<times> nat) list" where
  "hook_desc_head_asserts = (16, 8,
    [(''tqh_first'', 0), (''tqh_last'', 8)])"

lemma hook_desc_head_size [layout_checks]: "size_of hook_desc_head_layout = 16" "align_of hook_desc_head_layout = 8"
  by (simp_all add: hook_desc_head_layout_def alias_layouts round_up_def field_start_def layout_checks place_eval
      numeral_2_eq_2 [symmetric])

lemma hook_desc_head_checked: "satisfies hook_desc_head_layout hook_desc_head_asserts"
  by (simp add: satisfies_def hook_desc_head_asserts_def layout_checks)
    (simp add: hook_desc_head_layout_def alias_layouts round_up_def field_start_def layout_checks place_eval
      numeral_2_eq_2 [symmetric])

definition pfsync_state_scrub_layout :: "layout" where
  "pfsync_state_scrub_layout = Struct True
    [(''pfss_flags'', u_int16_t_layout), (''pfss_ttl'', u_int8_t_layout),
     (''scrub_flag'', u_int8_t_layout), (''pfss_ts_mod'', u_int32_t_layout)]"

definition pfsync_state_scrub_asserts :: "nat \<times> nat \<times> (string \<times> nat) list" where
  "pfsync_state_scrub_asserts = (8, 1,
    [(''pfss_flags'', 0), (''pfss_ttl'', 2), (''scrub_flag'', 3), (''pfss_ts_mod'', 4)])"

lemma pfsync_state_scrub_size [layout_checks]: "size_of pfsync_state_scrub_layout = 8" "align_of pfsync_state_scrub_layout = 1"
  by (simp_all add: pfsync_state_scrub_layout_def alias_layouts round_up_def field_start_def layout_checks place_eval
      numeral_2_eq_2 [symmetric])

lemma pfsync_state_scrub_checked: "satisfies pfsync_state_scrub_layout pfsync_state_scrub_asserts"
  by (simp add: satisfies_def pfsync_state_scrub_asserts_def layout_checks)
    (simp add: pfsync_state_scrub_layout_def alias_layouts round_up_def field_start_def layout_checks place_eval
      numeral_2_eq_2 [symmetric])

definition pfsync_state_host_layout :: "layout" where
  "pfsync_state_host_layout = Struct True
    [(''addr'', pf_addr_layout), (''xport'', pf_state_xport_layout),
     (''pad'', Array u_int16_t_layout 2)]"

definition pfsync_state_host_asserts :: "nat \<times> nat \<times> (string \<times> nat) list" where
  "pfsync_state_host_asserts = (24, 1,
    [(''addr'', 0), (''xport'', 16), (''pad'', 20)])"

lemma pfsync_state_host_size [layout_checks]: "size_of pfsync_state_host_layout = 24" "align_of pfsync_state_host_layout = 1"
  by (simp_all add: pfsync_state_host_layout_def alias_layouts round_up_def field_start_def layout_checks place_eval
      numeral_2_eq_2 [symmetric])

lemma pfsync_state_host_checked: "satisfies pfsync_state_host_layout pfsync_state_host_asserts"
  by (simp add: satisfies_def pfsync_state_host_asserts_def layout_checks)
    (simp add: pfsync_state_host_layout_def alias_layouts round_up_def field_start_def layout_checks place_eval
      numeral_2_eq_2 [symmetric])

definition pfsync_state_peer_layout :: "layout" where
  "pfsync_state_peer_layout = Struct True
    [(''scrub'', pfsync_state_scrub_layout), (''seqlo'', u_int32_t_layout),
     (''seqhi'', u_int32_t_layout), (''seqdiff'', u_int32_t_layout),
     (''max_win'', u_int16_t_layout), (''mss'', u_int16_t_layout),
     (''state'', u_int8_t_layout), (''wscale'', u_int8_t_layout),
     (''pad'', Array u_int8_t_layout 6)]"

definition pfsync_state_peer_asserts :: "nat \<times> nat \<times> (string \<times> nat) list" where
  "pfsync_state_peer_asserts = (32, 1,
    [(''scrub'', 0), (''seqlo'', 8), (''seqhi'', 12), (''seqdiff'', 16), (''max_win'', 20),
     (''mss'', 22), (''state'', 24), (''wscale'', 25), (''pad'', 26)])"

lemma pfsync_state_peer_size [layout_checks]: "size_of pfsync_state_peer_layout = 32" "align_of pfsync_state_peer_layout = 1"
  by (simp_all add: pfsync_state_peer_layout_def alias_layouts round_up_def field_start_def layout_checks place_eval
      numeral_2_eq_2 [symmetric])

lemma pfsync_state_peer_checked: "satisfies pfsync_state_peer_layout pfsync_state_peer_asserts"
  by (simp add: satisfies_def pfsync_state_peer_asserts_def layout_checks)
    (simp add: pfsync_state_peer_layout_def alias_layouts round_up_def field_start_def layout_checks place_eval
      numeral_2_eq_2 [symmetric])

definition pfsync_state_layout :: "layout" where
  "pfsync_state_layout = Struct True
    [(''id'', Array u_int32_t_layout 2), (''ifname'', Array (Scalar 1) 16),
     (''lan'', pfsync_state_host_layout), (''gwy'', pfsync_state_host_layout),
     (''ext_lan'', pfsync_state_host_layout), (''ext_gwy'', pfsync_state_host_layout),
     (''src'', pfsync_state_peer_layout), (''dst'', pfsync_state_peer_layout),
     (''rt_addr'', pf_addr_layout), (''unlink_hooks'', hook_desc_head_layout),
     (''rule'', u_int32_t_layout), (''anchor'', u_int32_t_layout),
     (''nat_rule'', u_int32_t_layout), (''creation'', u_int64_t_layout),
     (''expire'', u_int64_t_layout), (''packets'', Array (Array u_int32_t_layout 2) 2),
     (''bytes'', Array (Array u_int32_t_layout 2) 2), (''creatorid'', u_int32_t_layout),
     (''tag'', u_int16_t_layout), (''af_lan'', sa_family_t_layout),
     (''af_gwy'', sa_family_t_layout), (''proto'', u_int8_t_layout),
     (''direction'', u_int8_t_layout), (''log'', u_int8_t_layout),
     (''allow_opts'', u_int8_t_layout), (''timeout'', u_int8_t_layout),
     (''sync_flags'', u_int8_t_layout), (''updates'', u_int8_t_layout),
     (''proto_variant'', u_int8_t_layout), (''__pad'', u_int8_t_layout),
     (''flowhash'', u_int32_t_layout)]"

definition pfsync_state_asserts :: "nat \<times> nat \<times> (string \<times> nat) list" where
  "pfsync_state_asserts = (297, 1,
    [(''id'', 0), (''ifname'', 8), (''lan'', 24), (''gwy'', 48), (''ext_lan'', 72),
     (''ext_gwy'', 96), (''src'', 120), (''dst'', 152), (''rt_addr'', 184),
     (''unlink_hooks'', 200), (''rule'', 216), (''anchor'', 220), (''nat_rule'', 224),
     (''creation'', 228), (''expire'', 236), (''packets'', 244), (''bytes'', 260),
     (''creatorid'', 276), (''tag'', 280), (''af_lan'', 282), (''af_gwy'', 283),
     (''proto'', 284), (''direction'', 285), (''log'', 286), (''allow_opts'', 287),
     (''timeout'', 288), (''sync_flags'', 289), (''updates'', 290),
     (''proto_variant'', 291), (''__pad'', 292), (''flowhash'', 293)])"

lemma pfsync_state_size [layout_checks]: "size_of pfsync_state_layout = 297" "align_of pfsync_state_layout = 1"
  by (simp_all add: pfsync_state_layout_def alias_layouts round_up_def field_start_def layout_checks place_eval
      numeral_2_eq_2 [symmetric])

lemma pfsync_state_checked: "satisfies pfsync_state_layout pfsync_state_asserts"
  by (simp add: satisfies_def pfsync_state_asserts_def layout_checks)
    (simp add: pfsync_state_layout_def alias_layouts round_up_def field_start_def layout_checks place_eval
      numeral_2_eq_2 [symmetric])

definition pf_rulequeue_layout :: "layout" where
  "pf_rulequeue_layout = Struct False
    [(''tqh_first'', Scalar 8), (''tqh_last'', Scalar 8)]"

definition pf_rulequeue_asserts :: "nat \<times> nat \<times> (string \<times> nat) list" where
  "pf_rulequeue_asserts = (16, 8,
    [(''tqh_first'', 0), (''tqh_last'', 8)])"

lemma pf_rulequeue_size [layout_checks]: "size_of pf_rulequeue_layout = 16" "align_of pf_rulequeue_layout = 8"
  by (simp_all add: pf_rulequeue_layout_def alias_layouts round_up_def field_start_def layout_checks place_eval
      numeral_2_eq_2 [symmetric])

lemma pf_rulequeue_checked: "satisfies pf_rulequeue_layout pf_rulequeue_asserts"
  by (simp add: satisfies_def pf_rulequeue_asserts_def layout_checks)
    (simp add: pf_rulequeue_layout_def alias_layouts round_up_def field_start_def layout_checks place_eval
      numeral_2_eq_2 [symmetric])

definition pf_ruleset_bindgen_ty_1_bindgen_ty_1_layout :: "layout" where
  "pf_ruleset_bindgen_ty_1_bindgen_ty_1_layout = Struct False
    [(''ptr'', Scalar 8), (''ptr_array'', Scalar 8), (''rcount'', u_int32_t_layout),
     (''rsize'', u_int32_t_layout), (''ticket'', u_int32_t_layout), (''open'', Scalar 4)]"

definition pf_ruleset_bindgen_ty_1_bindgen_ty_1_asserts :: "nat \<times> nat \<times> (string \<times> nat) list" where
  "pf_ruleset_bindgen_ty_1_bindgen_ty_1_asserts = (32, 8,
    [(''ptr'', 0), (''ptr_array'', 8), (''rcount'', 16), (''rsize'', 20), (''ticket'', 24),
     (''open'', 28)])"

lemma pf_ruleset_bindgen_ty_1_bindgen_ty_1_size [layout_checks]: "size_of pf_ruleset_bindgen_ty_1_bindgen_ty_1_layout = 32" "align_of pf_ruleset_bindgen_ty_1_bindgen_ty_1_layout = 8"
  by (simp_all add: pf_ruleset_bindgen_ty_1_bindgen_ty_1_layout_def alias_layouts round_up_def field_start_def layout_checks place_eval
      numeral_2_eq_2 [symmetric])

lemma pf_ruleset_bindgen_ty_1_bindgen_ty_1_checked: "satisfies pf_ruleset_bindgen_ty_1_bindgen_ty_1_layout pf_ruleset_bindgen_ty_1_bindgen_ty_1_asserts"
  by (simp add: satisfies_def pf_ruleset_bindgen_ty_1_bindgen_ty_1_asserts_def layout_checks)
    (simp add: pf_ruleset_bindgen_ty_1_bindgen_ty_1_layout_def alias_layouts round_up_def field_start_def layout_checks place_eval
      numeral_2_eq_2 [symmetric])

definition pf_ruleset_bindgen_ty_1_layout :: "layout" where
  "pf_ruleset_bindgen_ty_1_layout = Struct False
    [(''queues'', Array pf_rulequeue_layout 2),
     (''active'', pf_ruleset_bindgen_ty_1_bindgen_ty_1_layout),
     (''inactive'', pf_ruleset_bindgen_ty_1_bindgen_ty_1_layout)]"

definition pf_ruleset_bindgen_ty_1_asserts :: "nat \<times> nat \<times> (string \<times> nat) list" where
  "pf_ruleset_bindgen_ty_1_asserts = (96, 8,
    [(''queues'', 0), (''active'', 32), (''inactive'', 64)])"

lemma pf_ruleset_bindgen_ty_1_size [layout_checks]: "size_of pf_ruleset_bindgen_ty_1_layout = 96" "align_of pf_ruleset_bindgen_ty_1_layout = 8"
  by (simp_all add: pf_ruleset_bindgen_ty_1_layout_def alias_layouts round_up_def field_start_def layout_checks place_eval
      numeral_2_eq_2 [symmetric])

lemma pf_ruleset_bindgen_ty_1_checked: "satisfies pf_ruleset_bindgen_ty_1_layout pf_ruleset_bindgen_ty_1_asserts"
  by (simp add: satisfies_def pf_ruleset_bindgen_ty_1_asserts_def layout_checks)
    (simp add: pf_ruleset_bindgen_ty_1_layout_def alias_layouts round_up_def field_start_def layout_checks place_eval
      numeral_2_eq_2 [symmetric])

definition pf_ruleset_layout :: "layout" where
  "pf_ruleset_layout = Struct False
    [(''rules'', Array pf_ruleset_bindgen_ty_1_layout 6), (''anchor'', Scalar 8),
     (''tticket'', u_int32_t_layout), (''tables'', Scalar 4), (''topen'', Scalar 4)]"

definition pf_ruleset_asserts :: "nat \<times> nat \<times> (string \<times> nat) list" where
  "pf_ruleset_asserts = (600, 8,
    [(''rules'', 0), (''anchor'', 576), (''tticket'', 584), (''tables'', 588),
     (''topen'', 592)])"

lemma pf_ruleset_size [layout_checks]: "size_of pf_ruleset_layout = 600" "align_of pf_ruleset_layout = 8"
  by (simp_all add: pf_ruleset_layout_def alias_layouts round_up_def field_start_def layout_checks place_eval
      numeral_2_eq_2 [symmetric])

lemma pf_ruleset_checked: "satisfies pf_ruleset_layout pf_ruleset_asserts"
  by (simp add: satisfies_def pf_ruleset_asserts_def layout_checks)
    (simp add: pf_ruleset_layout_def alias_layouts round_up_def field_start_def layout_checks place_eval
      numeral_2_eq_2 [symmetric])

definition pf_anchor_node_layout :: "layout" where
  "pf_anchor_node_layout = Struct False
    [(''rbh_root'', Scalar 8)]"

definition pf_anchor_node_asserts :: "nat \<times> nat \<times> (string \<times> nat) list" where
  "pf_anchor_node_asserts = (8, 8,
    [(''rbh_root'', 0)])"

lemma pf_anchor_node_size [layout_checks]: "size_of pf_anchor_node_layout = 8" "align_of pf_anchor_node_layout = 8"
  by (simp_all add: pf_anchor_node_layout_def alias_layouts round_up_def field_start_def layout_checks place_eval
      numeral_2_eq_2 [symmetric])

lemma pf_anchor_node_checked: "satisfies pf_anchor_node_layout pf_anchor_node_asserts"
  by (simp add: satisfies_def pf_anchor_node_asserts_def layout_checks)
    (simp add: pf_anchor_node_layout_def alias_layouts round_up_def field_start_def layout_checks place_eval
      numeral_2_eq_2 [symmetric])

definition pf_anchor_bindgen_ty_1_layout :: "layout" where
  "pf_anchor_bindgen_ty_1_layout = Struct False
    [(''rbe_left'', Scalar 8), (''rbe_right'', Scalar 8), (''rbe_parent'', Scalar 8)]"

definition pf_anchor_bindgen_ty_1_asserts :: "nat \<times> nat \<times> (string \<times> nat) list" where
  "pf_anchor_bindgen_ty_1_asserts = (24, 8,
    [(''rbe_left'', 0), (''rbe_right'', 8), (''rbe_parent'', 16)])"

lemma pf_anchor_bindgen_ty_1_size [layout_checks]: "size_of pf_anchor_bindgen_ty_1_layout = 24" "align_of pf_anchor_bindgen_ty_1_layout = 8"
  by (simp_all add: pf_anchor_bindgen_ty_1_layout_def alias_layouts round_up_def field_start_def layout_checks place_eval
      numeral_2_eq_2 [symmetric])

lemma pf_anchor_bindgen_ty_1_checked: "satisfies pf_anchor_bindgen_ty_1_layout pf_anchor_bindgen_ty_1_asserts"
  by (simp add: satisfies_def pf_anchor_bindgen_ty_1_asserts_def layout_checks)
    (simp add: pf_anchor_bindgen_ty_1_layout_def alias_layouts round_up_def field_start_def layout_checks place_eval
      numeral_2_eq_2 [symmetric])

definition pf_anchor_bindgen_ty_2_layout :: "layout" where
  "pf_anchor_bindgen_ty_2_layout = Struct False
    [(''rbe_left'', Scalar 8), (''rbe_right'', Scalar 8), (''rbe_parent'', Scalar 8)]"

definition pf_anchor_bindgen_ty_2_asserts :: "nat \<times> nat \<times> (string \<times> nat) list" where
  "pf_anchor_bindgen_ty_2_asserts = (24, 8,
    [(''rbe_left'', 0), (''rbe_right'', 8), (''rbe_parent'', 16)])"

lemma pf_anchor_bindgen_ty_2_size [layout_checks]: "size_of pf_anchor_bindgen_ty_2_layout = 24" "align_of pf_anchor_bindgen_ty_2_layout = 8"
  by (simp_all add: pf_anchor_bindgen_ty_2_layout_def alias_layouts round_up_def field_start_def layout_checks place_eval
      numeral_2_eq_2 [symmetric])

lemma pf_anchor_bindgen_ty_2_checked: "satisfies pf_anchor_bindgen_ty_2_layout pf_anchor_bindgen_ty_2_asserts"
  by (simp add: satisfies_def pf_anchor_bindgen_ty_2_asserts_def layout_checks)
    (simp add: pf_anchor_bindgen_ty_2_layout_def alias_layouts round_up_def field_start_def layout_checks place_eval
      numeral_2_eq_2 [symmetric])

definition pf_anchor_layout :: "layout" where
  "pf_anchor_layout = Struct False
    [(''entry_global'', pf_anchor_bindgen_ty_1_layout),
     (''entry_node'', pf_anchor_bindgen_ty_2_layout), (''parent'', Scalar 8),
     (''children'', pf_anchor_node_layout), (''name'', Array (Scalar 1) 64),
     (''path'', Array (Scalar 1) 1024), (''ruleset'', pf_ruleset_layout),
     (''refcnt'', Scalar 4), (''match_'', Scalar 4), (''owner'', Array (Scalar 1) 64)]"

definition pf_anchor_asserts :: "nat \<times> nat \<times> (string \<times> nat) list" where
  "pf_anchor_asserts = (1824, 8,
    [(''entry_global'', 0), (''entry_node'', 24), (''parent'', 48), (''children'', 56),
     (''name'', 64), (''path'', 128), (''ruleset'', 1152), (''refcnt'', 1752),
     (''match_'', 1756), (''owner'', 1760)])"

lemma pf_anchor_size [layout_checks]: "size_of pf_anchor_layout = 1824" "align_of pf_anchor_layout = 8"
  by (simp_all add: pf_anchor_layout_def alias_layouts round_up_def field_start_def layout_checks place_eval
      numeral_2_eq_2 [symmetric])

lemma pf_anchor_checked: "satisfies pf_anchor_layout pf_anchor_asserts"
  by (simp add: satisfies_def pf_anchor_asserts_def layout_checks)
    (simp add: pf_anchor_layout_def alias_layouts round_up_def field_start_def layout_checks place_eval
      numeral_2_eq_2 [symmetric])

definition pfi_kif_layout :: "layout" where
  "pfi_kif_layout = Struct False
    [(''pfik_name'', Array (Scalar 1) 16),
     (''pfik_packets'', Array (Array (Array u_int64_t_layout 2) 2) 2),
     (''pfik_bytes'', Array (Array (Array u_int64_t_layout 2) 2) 2),
     (''pfik_tzero'', u_int64_t_layout), (''pfik_flags'', Scalar 4),
     (''pfik_states'', Scalar 4), (''pfik_rules'', Scalar 4)]"

definition pfi_kif_asserts :: "nat \<times> nat \<times> (string \<times> nat) list" where
  "pfi_kif_asserts = (168, 8,
    [(''pfik_name'', 0), (''pfik_packets'', 16), (''pfik_bytes'', 80),
     (''pfik_tzero'', 144), (''pfik_flags'', 152), (''pfik_states'', 156),
     (''pfik_rules'', 160)])"

lemma pfi_kif_size [layout_checks]: "size_of pfi_kif_layout = 168" "align_of pfi_kif_layout = 8"
  by (simp_all add: pfi_kif_layout_def alias_layouts round_up_def field_start_def layout_checks place_eval
      numeral_2_eq_2 [symmetric])

lemma pfi_kif_checked: "satisfies pfi_kif_layout pfi_kif_asserts"
  by (simp add: satisfies_def pfi_kif_asserts_def layout_checks)
    (simp add: pfi_kif_layout_def alias_layouts round_up_def field_start_def layout_checks place_eval
      numeral_2_eq_2 [symmetric])

definition pf_status_layout :: "layout" where
  "pf_status_layout = Struct False
    [(''counters'', Array u_int64_t_layout 17), (''lcounters'', Array u_int64_t_layout 7),
     (''fcounters'', Array u_int64_t_layout 3), (''scounters'', Array u_int64_t_layout 3),
     (''pcounters'', Array (Array (Array u_int64_t_layout 3) 2) 2),
     (''bcounters'', Array (Array u_int64_t_layout 2) 2), (''stateid'', u_int64_t_layout),
     (''running'', u_int32_t_layout), (''states'', u_int32_t_layout),
     (''src_nodes'', u_int32_t_layout), (''since'', u_int64_t_layout),
     (''debug'', u_int32_t_layout), (''hostid'', u_int32_t_layout),
     (''ifname'', Array (Scalar 1) 16), (''pf_chksum'', Array u_int8_t_layout 16)]"

definition pf_status_asserts :: "nat \<times> nat \<times> (string \<times> nat) list" where
  "pf_status_asserts = (440, 8,
    [(''counters'', 0), (''lcounters'', 136), (''fcounters'', 192), (''scounters'', 216),
     (''pcounters'', 240), (''bcounters'', 336), (''stateid'', 368), (''running'', 376),
     (''states'', 380), (''src_nodes'', 384), (''since'', 392), (''debug'', 400),
     (''hostid'', 404), (''ifname'', 408), (''pf_chksum'', 424)])"

lemma pf_status_size [layout_checks]: "size_of pf_status_layout = 440" "align_of pf_status_layout = 8"
  by (simp_all add: pf_status_layout_def alias_layouts round_up_def field_start_def layout_checks place_eval
      numeral_2_eq_2 [symmetric])

lemma pf_status_checked: "satisfies pf_status_layout pf_status_asserts"
  by (simp add: satisfies_def pf_status_asserts_def layout_checks)
    (simp add: pf_status_layout_def alias_layouts round_up_def field_start_def layout_checks place_eval
      numeral_2_eq_2 [symmetric])

definition pfioc_pooladdr_layout :: "layout" where
  "pfioc_pooladdr_layout = Struct False
    [(''action'', u_int32_t_layout), (''ticket'', u_int32_t_layout),
     (''nr'', u_int32_t_layout), (''r_num'', u_int32_t_layout),
     (''r_action'', u_int8_t_layout), (''r_last'', u_int8_t_layout),
     (''af'', u_int8_t_layout), (''anchor'', Array (Scalar 1) 1024),
     (''addr'', pf_pooladdr_layout)]"

definition pfioc_pooladdr_asserts :: "nat \<times> nat \<times> (string \<times> nat) list" where
  "pfioc_pooladdr_asserts = (1136, 8,
    [(''action'', 0), (''ticket'', 4), (''nr'', 8), (''r_num'', 12), (''r_action'', 16),
     (''r_last'', 17), (''af'', 18), (''anchor'', 19), (''addr'', 1048)])"

lemma pfioc_pooladdr_size [layout_checks]: "size_of pfioc_pooladdr_layout = 1136" "align_of pfioc_pooladdr_layout = 8"
  by (simp_all add: pfioc_pooladdr_layout_def alias_layouts round_up_def field_start_def layout_checks place_eval
      numeral_2_eq_2 [symmetric])

lemma pfioc_pooladdr_checked: "satisfies pfioc_pooladdr_layout pfioc_pooladdr_asserts"
  by (simp add: satisfies_def pfioc_pooladdr_asserts_def layout_checks)
    (simp add: pfioc_pooladdr_layout_def alias_layouts round_up_def field_start_def layout_checks place_eval
      numeral_2_eq_2 [symmetric])

definition pfioc_rule_layout :: "layout" where
  "pfioc_rule_layout = Struct False
    [(''action'', u_int32_t_layout), (''ticket'', u_int32_t_layout),
     (''pool_ticket'', u_int32_t_layout), (''nr'', u_int32_t_layout),
     (''anchor'', Array (Scalar 1) 1024), (''anchor_call'', Array (Scalar 1) 1024),
     (''rule'', pf_rule_layout)]"

definition pfioc_rule_asserts :: "nat \<times> nat \<times> (string \<times> nat) list" where
  "pfioc_rule_asserts = (3104, 8,
    [(''action'', 0), (''ticket'', 4), (''pool_ticket'', 8), (''nr'', 12), (''anchor'', 16),
     (''anchor_call'', 1040), (''rule'', 2064)])"

lemma pfioc_rule_size [layout_checks]: "size_of pfioc_rule_layout = 3104" "align_of pfioc_rule_layout = 8"
  by (simp_all add: pfioc_rule_layout_def alias_layouts round_up_def field_start_def layout_checks place_eval
      numeral_2_eq_2 [symmetric])

lemma pfioc_rule_checked: "satisfies pfioc_rule_layout pfioc_rule_asserts"
  by (simp add: satisfies_def pfioc_rule_asserts_def layout_checks)
    (simp add: pfioc_rule_layout_def alias_layouts round_up_def field_start_def layout_checks place_eval
      numeral_2_eq_2 [symmetric])

definition pfioc_state_addr_kill_layout :: "layout" where
  "pfioc_state_addr_kill_layout = Struct False
    [(''addr'', pf_addr_wrap_layout), (''reserved_'', Array u_int8_t_layout 3),
     (''neg'', u_int8_t_layout), (''xport'', pf_rule_xport_layout)]"

definition pfioc_state_addr_kill_asserts :: "nat \<times> nat \<times> (string \<times> nat) list" where
  "pfioc_state_addr_kill_asserts = (64, 8,
    [(''addr'', 0), (''reserved_'', 48), (''neg'', 51), (''xport'', 52)])"

lemma pfioc_state_addr_kill_size [layout_checks]: "size_of pfioc_state_addr_kill_layout = 64" "align_of pfioc_state_addr_kill_layout = 8"
  by (simp_all add: pfioc_state_addr_kill_layout_def alias_layouts round_up_def field_start_def layout_checks place_eval
      numeral_2_eq_2 [symmetric])

lemma pfioc_state_addr_kill_checked: "satisfies pfioc_state_addr_kill_layout pfioc_state_addr_kill_asserts"
  by (simp add: satisfies_def pfioc_state_addr_kill_asserts_def layout_checks)
    (simp add: pfioc_state_addr_kill_layout_def alias_layouts round_up_def field_start_def layout_checks place_eval
      numeral_2_eq_2 [symmetric])

definition pfioc_state_kill_layout :: "layout" where
  "pfioc_state_kill_layout = Struct False
    [(''psk_af'', sa_family_t_layout), (''psk_proto'', u_int8_t_layout),
     (''psk_proto_variant'', u_int8_t_layout), (''_pad'', u_int8_t_layout),
     (''psk_src'', pfioc_state_addr_kill_layout),
     (''psk_dst'', pfioc_state_addr_kill_layout), (''psk_ifname'', Array (Scalar 1) 16),
     (''psk_ownername'', Array (Scalar 1) 64)]"

definition pfioc_state_kill_asserts :: "nat \<times> nat \<times> (string \<times> nat) list" where
  "pfioc_state_kill_asserts = (216, 8,
    [(''psk_af'', 0), (''psk_proto'', 1), (''psk_proto_variant'', 2), (''_pad'', 3),
     (''psk_src'', 8), (''psk_dst'', 72), (''psk_ifname'', 136), (''psk_ownername'', 152)])"

lemma pfioc_state_kill_size [layout_checks]: "size_of pfioc_state_kill_layout = 216" "align_of pfioc_state_kill_layout = 8"
  by (simp_all add: pfioc_state_kill_layout_def alias_layouts round_up_def field_start_def layout_checks place_eval
      numeral_2_eq_2 [symmetric])

lemma pfioc_state_kill_checked: "satisfies pfioc_state_kill_layout pfioc_state_kill_asserts"
  by (simp add: satisfies_def pfioc_state_kill_asserts_def layout_checks)
    (simp add: pfioc_state_kill_layout_def alias_layouts round_up_def field_start_def layout_checks place_eval
      numeral_2_eq_2 [symmetric])

definition pfioc_states_bindgen_ty_1_layout :: "layout" where
  "pfioc_states_bindgen_ty_1_layout = Union
    [(''psu_buf'', caddr_t_layout), (''psu_states'', Scalar 8)]"

definition pfioc_states_bindgen_ty_1_asserts :: "nat \<times> nat \<times> (string \<times> nat) list" where
  "pfioc_states_bindgen_ty_1_asserts = (8, 8,
    [(''psu_buf'', 0), (''psu_states'', 0)])"

lemma pfioc_states_bindgen_ty_1_size [layout_checks]: "size_of pfioc_states_bindgen_ty_1_layout = 8" "align_of pfioc_states_bindgen_ty_1_layout = 8"
  by (simp_all add: pfioc_states_bindgen_ty_1_layout_def alias_layouts round_up_def field_start_def layout_checks place_eval
      numeral_2_eq_2 [symmetric])

lemma pfioc_states_bindgen_ty_1_checked: "satisfies pfioc_states_bindgen_ty_1_layout pfioc_states_bindgen_ty_1_asserts"
  by (simp add: satisfies_def pfioc_states_bindgen_ty_1_asserts_def layout_checks)
    (simp add: pfioc_states_bindgen_ty_1_layout_def alias_layouts round_up_def field_start_def layout_checks place_eval
      numeral_2_eq_2 [symmetric])

definition pfioc_states_layout :: "layout" where
  "pfioc_states_layout = Struct False
    [(''ps_len'', Scalar 4), (''ps_u'', pfioc_states_bindgen_ty_1_layout)]"

definition pfioc_states_asserts :: "nat \<times> nat \<times> (string \<times> nat) list" where
  "pfioc_states_asserts = (16, 8,
    [(''ps_len'', 0), (''ps_u'', 8)])"

lemma pfioc_states_size [layout_checks]: "size_of pfioc_states_layout = 16" "align_of pfioc_states_layout = 8"
  by (simp_all add: pfioc_states_layout_def alias_layouts round_up_def field_start_def layout_checks place_eval
      numeral_2_eq_2 [symmetric])

lemma pfioc_states_checked: "satisfies pfioc_states_layout pfioc_states_asserts"
  by (simp add: satisfies_def pfioc_states_asserts_def layout_checks)
    (simp add: pfioc_states_layout_def alias_layouts round_up_def field_start_def layout_checks place_eval
      numeral_2_eq_2 [symmetric])

definition pfioc_trans_layout :: "layout" where
  "pfioc_trans_layout = Struct False
    [(''size'', Scalar 4), (''esize'', Scalar 4), (''array'', Scalar 8)]"

definition pfioc_trans_asserts :: "nat \<times> nat \<times> (string \<times> nat) list" where
  "pfioc_trans_asserts = (16, 8,
    [(''size'', 0), (''esize'', 4), (''array'', 8)])"

lemma pfioc_trans_size [layout_checks]: "size_of pfioc_trans_layout = 16" "align_of pfioc_trans_layout = 8"
  by (simp_all add: pfioc_trans_layout_def alias_layouts round_up_def field_start_def layout_checks place_eval
      numeral_2_eq_2 [symmetric])

lemma pfioc_trans_checked: "satisfies pfioc_trans_layout pfioc_trans_asserts"
  by (simp add: satisfies_def pfioc_trans_asserts_def layout_checks)
    (simp add: pfioc_trans_layout_def alias_layouts round_up_def field_start_def layout_checks place_eval
      numeral_2_eq_2 [symmetric])

definition pfioc_trans_pfioc_trans_e_layout :: "layout" where
  "pfioc_trans_pfioc_trans_e_layout = Struct False
    [(''rs_num'', Scalar 4), (''anchor'', Array (Scalar 1) 1024),
     (''ticket'', u_int32_t_layout)]"

definition pfioc_trans_pfioc_trans_e_asserts :: "nat \<times> nat \<times> (string \<times> nat) list" where
  "pfioc_trans_pfioc_trans_e_asserts = (1032, 4,
    [(''rs_num'', 0), (''anchor'', 4), (''ticket'', 1028)])"

lemma pfioc_trans_pfioc_trans_e_size [layout_checks]: "size_of pfioc_trans_pfioc_trans_e_layout = 1032" "align_of pfioc_trans_pfioc_trans_e_layout = 4"
  by (simp_all add: pfioc_trans_pfioc_trans_e_layout_def alias_layouts round_up_def field_start_def layout_checks place_eval
      numeral_2_eq_2 [symmetric])

lemma pfioc_trans_pfioc_trans_e_checked: "satisfies pfioc_trans_pfioc_trans_e_layout pfioc_trans_pfioc_trans_e_asserts"
  by (simp add: satisfies_def pfioc_trans_pfioc_trans_e_asserts_def layout_checks)
    (simp add: pfioc_trans_pfioc_trans_e_layout_def alias_layouts round_up_def field_start_def layout_checks place_eval
      numeral_2_eq_2 [symmetric])

definition pfioc_iface_layout :: "layout" where
  "pfioc_iface_layout = Struct False
    [(''pfiio_name'', Array (Scalar 1) 16), (''pfiio_buffer'', Scalar 8),
     (''pfiio_esize'', Scalar 4), (''pfiio_size'', Scalar 4), (''pfiio_nzero'', Scalar 4),
     (''pfiio_flags'', Scalar 4)]"

definition pfioc_iface_asserts :: "nat \<times> nat \<times> (string \<times> nat) list" where
  "pfioc_iface_asserts = (40, 8,
    [(''pfiio_name'', 0), (''pfiio_buffer'', 16), (''pfiio_esize'', 24),
     (''pfiio_size'', 28), (''pfiio_nzero'', 32), (''pfiio_flags'', 36)])"

lemma pfioc_iface_size [layout_checks]: "size_of pfioc_iface_layout = 40" "align_of pfioc_iface_layout = 8"
  by (simp_all add: pfioc_iface_layout_def alias_layouts round_up_def field_start_def layout_checks place_eval
      numeral_2_eq_2 [symmetric])

lemma pfioc_iface_checked: "satisfies pfioc_iface_layout pfioc_iface_asserts"
  by (simp add: satisfies_def pfioc_iface_asserts_def layout_checks)
    (simp add: pfioc_iface_layout_def alias_layouts round_up_def field_start_def layout_checks place_eval
      numeral_2_eq_2 [symmetric])

section \<open>All compile-time assertions\<close>

definition asserted_layouts :: "(layout \<times> nat \<times> nat \<times> (string \<times> nat) list) list" where
  "asserted_layouts =
    [(in_addr_layout, in_addr_asserts),
     (in6_addr_bindgen_ty_1_layout, in6_addr_bindgen_ty_1_asserts),
     (in6_addr_layout, in6_addr_asserts),
     (pf_addr_bindgen_ty_1_layout, pf_addr_bindgen_ty_1_asserts),
     (pf_addr_layout, pf_addr_asserts),
     (pf_addr_wrap_bindgen_ty_1_bindgen_ty_1_layout, pf_addr_wrap_bindgen_ty_1_bindgen_ty_1_asserts),
     (pf_addr_wrap_bindgen_ty_1_layout, pf_addr_wrap_bindgen_ty_1_asserts),
     (pf_addr_wrap_bindgen_ty_2_layout, pf_addr_wrap_bindgen_ty_2_asserts),
     (pf_addr_wrap_layout, pf_addr_wrap_asserts),
     (pf_port_range_layout, pf_port_range_asserts),
     (pf_rule_xport_layout, pf_rule_xport_asserts),
     (pf_rule_uid_layout, pf_rule_uid_asserts), (pf_rule_gid_layout, pf_rule_gid_asserts),
     (pf_rule_addr_layout, pf_rule_addr_asserts),
     (pf_pooladdr_bindgen_ty_1_layout, pf_pooladdr_bindgen_ty_1_asserts),
     (pf_pooladdr_layout, pf_pooladdr_asserts), (pf_palist_layout, pf_palist_asserts),
     (pf_poolhashkey_bindgen_ty_1_layout, pf_poolhashkey_bindgen_ty_1_asserts),
     (pf_poolhashkey_layout, pf_poolhashkey_asserts), (pf_pool_layout, pf_pool_asserts),
     (pf_rule_ptr_layout, pf_rule_ptr_asserts),
     (pf_rule_bindgen_ty_1_layout, pf_rule_bindgen_ty_1_asserts),
     (pf_rule_bindgen_ty_2_layout, pf_rule_bindgen_ty_2_asserts),
     (pf_rule_layout, pf_rule_asserts), (pf_state_xport_layout, pf_state_xport_asserts),
     (hook_desc_head_layout, hook_desc_head_asserts),
     (pfsync_state_scrub_layout, pfsync_state_scrub_asserts),
     (pfsync_state_host_layout, pfsync_state_host_asserts),
     (pfsync_state_peer_layout, pfsync_state_peer_asserts),
     (pfsync_state_layout, pfsync_state_asserts),
     (pf_rulequeue_layout, pf_rulequeue_asserts),
     (pf_ruleset_bindgen_ty_1_bindgen_ty_1_layout, pf_ruleset_bindgen_ty_1_bindgen_ty_1_asserts),
     (pf_ruleset_bindgen_ty_1_layout, pf_ruleset_bindgen_ty_1_asserts),
     (pf_ruleset_layout, pf_ruleset_asserts),
     (pf_anchor_node_layout, pf_anchor_node_asserts),
     (pf_anchor_bindgen_ty_1_layout, pf_anchor_bindgen_ty_1_asserts),
     (pf_anchor_bindgen_ty_2_layout, pf_anchor_bindgen_ty_2_asserts),
     (pf_anchor_layout, pf_anchor_asserts), (pfi_kif_layout, pfi_kif_asserts),
     (pf_status_layout, pf_status_asserts), (pfioc_pooladdr_layout, pfioc_pooladdr_asserts),
     (pfioc_rule_layout, pfioc_rule_asserts),
     (pfioc_state_addr_kill_layout, pfioc_state_addr_kill_asserts),
     (pfioc_state_kill_layout, pfioc_state_kill_asserts),
     (pfioc_states_bindgen_ty_1_layout, pfioc_states_bindgen_ty_1_asserts),
     (pfioc_states_layout, pfioc_states_asserts), (pfioc_trans_layout, pfioc_trans_asserts),
     (pfioc_trans_pfioc_trans_e_layout, pfioc_trans_pfioc_trans_e_asserts),
     (pfioc_iface_layout, pfioc_iface_asserts)]"

lemma asserted_layouts_checked: "list_all (\<lambda>(t, a). satisfies t a) asserted_layouts"
  by (simp add: asserted_layouts_def in_addr_checked
      in6_addr_bindgen_ty_1_checked
      in6_addr_checked
      pf_addr_bindgen_ty_1_checked
      pf_addr_checked
      pf_addr_wrap_bindgen_ty_1_bindgen_ty_1_checked
      pf_addr_wrap_bindgen_ty_1_checked
      pf_addr_wrap_bindgen_ty_2_checked
      pf_addr_wrap_checked
      pf_port_range_checked
      pf_rule_xport_checked
      pf_rule_uid_checked
      pf_rule_gid_checked
      pf_rule_addr_checked
      pf_pooladdr_bindgen_ty_1_checked
      pf_pooladdr_checked
      pf_palist_checked
      pf_poolhashkey_bindgen_ty_1_checked
      pf_poolhashkey_checked
      pf_pool_checked
      pf_rule_ptr_checked
      pf_rule_bindgen_ty_1_checked
      pf_rule_bindgen_ty_2_checked
      pf_rule_checked
      pf_state_xport_checked
      hook_desc_head_checked
      pfsync_state_scrub_checked
      pfsync_state_host_checked
      pfsync_state_peer_checked
      pfsync_state_checked
      pf_rulequeue_checked
      pf_ruleset_bindgen_ty_1_bindgen_ty_1_checked
      pf_ruleset_bindgen_ty_1_checked
      pf_ruleset_checked
      pf_anchor_node_checked
      pf_anchor_bindgen_ty_1_checked
      pf_anchor_bindgen_ty_2_checked
      pf_anchor_checked
      pfi_kif_checked
      pf_status_checked
      pfioc_pooladdr_checked
      pfioc_rule_checked
      pfioc_state_addr_kill_checked
      pfioc_state_kill_checked
      pfioc_states_bindgen_ty_1_checked
      pfioc_states_checked
      pfioc_trans_checked
      pfioc_trans_pfioc_trans_e_checked
      pfioc_iface_checked)

section \<open>Properties\<close>

definition sound_layout :: "layout \<Rightarrow> bool" where
  "sound_layout t \<longleftrightarrow> (case t of
       Struct p fs \<Rightarrow>
         list_all (\<lambda>(n, x, sz). x + sz \<le> size_of t) (extents p fs) \<and>
         sorted_wrt (\<lambda>(_, x, sz) (_, y, _). x + sz \<le> y) (extents p fs) \<and>
         align_of t dvd size_of t
     | Union fs \<Rightarrow> list_all (\<lambda>(n, u). size_of u \<le> size_of t) fs \<and> align_of t dvd size_of t
     | _ \<Rightarrow> True)"

lemma every_layout_sound: "sound_layout t"
proof (cases t)
  case (Struct p fs)
  then show ?thesis
    using extents_in_bounds [of _ _ _ p fs]
    by (auto simp: sound_layout_def list_all_iff extents_disjoint size_of_aligned
        simp del: size_of.simps align_of.simps)
next
  case (Union fs)
  then show ?thesis
    using union_member_fits [of _ _ fs] size_of_Union_aligned [of fs]
    by (auto simp: sound_layout_def list_all_iff simp del: size_of.simps align_of.simps)
qed (simp_all add: sound_layout_def)

text \<open>
  For every type of the kernel interface, the field declarations of the bindings give exactly
  the size, the alignment and the field offsets that the bindings assert at compile time, no two
  fields of a struct overlap, and every field and every member of a union lies inside the object.
\<close>

lemma layout_assertions:
  "list_all (\<lambda>(t, a). satisfies t a \<and> sound_layout t) asserted_layouts"
  using asserted_layouts_checked by (auto simp: list_all_iff every_layout_sound)

end
