(* ===== verification/Errors.thy ===== *)
theory Errors
  imports Prelude
begin

text \<open>
  The crate's error type (\<open>lib.rs\<close>: \<open>ErrorKind\<close>, \<open>ErrorInternal\<close>, \<open>Error\<close>), its
  classification and messages, the macro \<open>ignore_error_kind\<close>, and the functions and
  constants of other crates, which are parameters of the model.
\<close>

section \<open>Other crates\<close>

text \<open>
  \<open>libc\<close> supplies error numbers and protocol numbers; \<open>ipnetwork\<close> builds networks from an
  address and a prefix length (\<open>None\<close> for an invalid prefix), and a network is known to the
  crate only by its address and its mask; \<open>zerocopy\<close> allocates zeroed vectors (and may fail
  for a large count); \<open>derive_builder\<close> prints the name of a field that was not set.
\<close>

type_synonym ipv4addr = "32 word"
type_synonym ipv6addr = "128 word"

record externals =
  EEXIST :: i32
  ENOENT :: i32
  IPPROTO_IP :: i32
  IPPROTO_ICMP :: i32
  IPPROTO_TCP :: i32
  IPPROTO_UDP :: i32
  IPPROTO_ICMPV6 :: i32
  ipv4network_new :: "ipv4addr \<Rightarrow> u8 \<Rightarrow> (ipv4addr \<times> ipv4addr) option"
  ipv6network_new :: "ipv6addr \<Rightarrow> u8 \<Rightarrow> (ipv6addr \<times> ipv6addr) option"
  vec_zeroed_fits :: "nat \<Rightarrow> bool"
  uninitialized_field_display :: "string \<Rightarrow> string"

text \<open>What the crate relies on: the protocol bytes are distinct (otherwise \<open>Proto\<close> would not
  compile), and host prefixes and the empty prefix are valid.\<close>

definition documented_libc :: "externals \<Rightarrow> bool" where
  "documented_libc X \<longleftrightarrow>
     distinct (map (ucast :: i32 \<Rightarrow> u8)
       [IPPROTO_IP X, IPPROTO_TCP X, IPPROTO_UDP X, IPPROTO_ICMP X, IPPROTO_ICMPV6 X])"

definition documented_ipnetwork :: "externals \<Rightarrow> bool" where
  "documented_ipnetwork X \<longleftrightarrow>
     (\<forall>a. ipv4network_new X a 32 = Some (a, - 1)) \<and>
     (\<forall>a. ipv6network_new X a 128 = Some (a, - 1)) \<and>
     ipv6network_new X 0 0 = Some (0, 0)"

text \<open>An instance with the values of macOS and the prefix masks of CIDR notation.\<close>

definition macos :: externals where
  "macos =
     \<lparr>EEXIST = 17, ENOENT = 2,
      IPPROTO_IP = 0, IPPROTO_ICMP = 1, IPPROTO_TCP = 6, IPPROTO_UDP = 17, IPPROTO_ICMPV6 = 58,
      ipv4network_new = (\<lambda>a p. if unat p \<le> 32
        then Some (a, push_bit (32 - unat p) (- 1)) else None),
      ipv6network_new = (\<lambda>a p. if unat p \<le> 128
        then Some (a, push_bit (128 - unat p) (- 1)) else None),
      vec_zeroed_fits = (\<lambda>n. n < 2 ^ 32),
      uninitialized_field_display = (\<lambda>f. ''`'' @ f @ ''` must be initialized'')\<rparr>"

lemma macos_libc: "documented_libc macos"
  by (simp add: documented_libc_def macos_def)

lemma push_bit_full: "push_bit LENGTH('w) (w :: 'w::len word) = 0"
  by (rule bit_word_eqI) (simp add: bit_push_bit_iff)

lemma macos_ipnetwork: "documented_ipnetwork macos"
  using push_bit_full [of "- 1 :: 128 word"]
  by (simp add: documented_ipnetwork_def macos_def)

section \<open>Errors\<close>

datatype error_kind =
    Kind_DeviceOpen
  | Kind_InvalidRuleCombination
  | Kind_UninitializedFieldError
  | Kind_InvalidInterfaceName
  | Kind_InvalidAnchorName
  | Kind_InvalidPortRange
  | Kind_InvalidLabel
  | Kind_InvalidAddressFamily
  | Kind_InvalidDirection
  | Kind_InvalidTransportProtocol
  | Kind_StateAlreadyActive
  | Kind_AnchorDoesNotExist
  | Kind_Ioctl

text \<open>An operating system error is known by its \<open>errno\<close>.\<close>

datatype io_error = OsError i32

datatype error =
    DeviceOpen string io_error
  | InvalidRuleCombination string
  | UninitializedFieldError string
  | InvalidInterfaceName string
  | InvalidAnchorName string
  | InvalidPortRange
  | InvalidLabel string
  | InvalidAddressFamily u8
  | InvalidDirection u8
  | InvalidTransportProtocol u8
  | StateAlreadyActive
  | AnchorDoesNotExist
  | Ioctl io_error

type_synonym 'a result = "(error, 'a) outcome"

fun kind :: "error \<Rightarrow> error_kind" where
  "kind (DeviceOpen p e) = Kind_DeviceOpen"
| "kind (InvalidRuleCombination m) = Kind_InvalidRuleCombination"
| "kind (UninitializedFieldError f) = Kind_UninitializedFieldError"
| "kind (InvalidInterfaceName r) = Kind_InvalidInterfaceName"
| "kind (InvalidAnchorName r) = Kind_InvalidAnchorName"
| "kind InvalidPortRange = Kind_InvalidPortRange"
| "kind (InvalidLabel r) = Kind_InvalidLabel"
| "kind (InvalidAddressFamily f) = Kind_InvalidAddressFamily"
| "kind (InvalidDirection d) = Kind_InvalidDirection"
| "kind (InvalidTransportProtocol p) = Kind_InvalidTransportProtocol"
| "kind StateAlreadyActive = Kind_StateAlreadyActive"
| "kind AnchorDoesNotExist = Kind_AnchorDoesNotExist"
| "kind (Ioctl e) = Kind_Ioctl"

text \<open>Decimal printing of a byte, as the formatting macros do it.\<close>

fun dec_digits :: "nat \<Rightarrow> string" where
  "dec_digits n = (if n < 10 then [char_of (48 + n)] else dec_digits (n div 10) @ [char_of (48 + n mod 10)])"

declare dec_digits.simps [simp del]

definition show_u8 :: "u8 \<Rightarrow> string" where
  "show_u8 b = dec_digits (unat b)"

fun error_display :: "externals \<Rightarrow> error \<Rightarrow> string" where
  "error_display X (DeviceOpen p e) = ''Unable to open PF device file ('' @ p @ '')''"
| "error_display X (InvalidRuleCombination m) = ''Invalid rule combination: '' @ m"
| "error_display X (UninitializedFieldError f) = uninitialized_field_display X f"
| "error_display X (InvalidInterfaceName r) = ''Invalid interface name ('' @ r @ '')''"
| "error_display X (InvalidAnchorName r) = ''Invalid anchor name ('' @ r @ '')''"
| "error_display X InvalidPortRange = ''Lower port is greater than upper port''"
| "error_display X (InvalidLabel r) = ''Invalid rule label ('' @ r"
| "error_display X (InvalidAddressFamily f) = ''Invalid address family ('' @ show_u8 f @ '')''"
| "error_display X (InvalidDirection d) = ''Invalid direction ('' @ show_u8 d @ '')''"
| "error_display X (InvalidTransportProtocol p) = ''Invalid transport protocol ('' @ show_u8 p @ '')''"
| "error_display X StateAlreadyActive = ''Target state is already active''"
| "error_display X AnchorDoesNotExist = ''Anchor does not exist''"
| "error_display X (Ioctl e) = ''Error during ioctl syscall''"

fun error_source :: "error \<Rightarrow> io_error option" where
  "error_source (DeviceOpen p e) = Some e"
| "error_source (Ioctl e) = Some e"
| "error_source _ = None"

text \<open>The macro \<open>ignore_error_kind\<close>.\<close>

fun ignore_error_kind :: "unit result \<Rightarrow> error_kind \<Rightarrow> unit result" where
  "ignore_error_kind (Err e) k = (if kind e = k then Ok () else Err e)"
| "ignore_error_kind r k = r"

lemma ignore_error_kind_Ok_iff:
  "ignore_error_kind r k = Ok () \<longleftrightarrow> r = Ok () \<or> (\<exists>e. r = Err e \<and> kind e = k)"
  by (cases r) auto

lemma ignore_error_kind_Err_iff:
  "ignore_error_kind r k = Err e \<longleftrightarrow> r = Err e \<and> kind e \<noteq> k"
  by (cases r) auto

end
