(* ===== verification/Strings.thy ===== *)
theory Strings
  imports Errors
begin

text \<open>
  Rust strings and C strings: the copy of a string into a fixed-size C buffer (\<open>rule/mod.rs\<close>,
  \<open>TryCopyTo<[i8]>\<close>), the reading of a NUL-terminated buffer and its comparison with a string
  (\<open>lib.rs\<close>, \<open>compare_cstr_safe\<close>), UTF-8 validation as the standard library does it, and
  \<open>copy_anchor_name\<close> (\<open>utils.rs\<close>). The lemmas give the exact result of a copy, and that
  what was copied is what is read back.
\<close>

section \<open>Copying a string into a buffer\<close>

definition str_try_copy_to :: "rstring \<Rightarrow> i8 list \<Rightarrow> (string, i8 list) outcome" where
  "str_try_copy_to src dst =
     (if length src \<ge> length dst then Err ''Too long''
      else if 0 \<in> set src then Err ''Contains null byte''
      else Ok ((overwrite src dst)[length src := 0]))"

definition copy_anchor_name :: "rstring \<Rightarrow> i8 list \<Rightarrow> i8 list result" where
  "copy_anchor_name anchor destination = map_err InvalidAnchorName (str_try_copy_to anchor destination)"

section \<open>Reading a C string\<close>

text \<open>\<open>CStr::from_bytes_until_nul\<close>: the bytes before the first NUL, if there is one.\<close>

definition cstr_until_nul :: "u8 list \<Rightarrow> u8 list option" where
  "cstr_until_nul bs = (if 0 \<in> set bs then Some (takeWhile (\<lambda>b. b \<noteq> 0) bs) else None)"

definition compare_cstr_safe :: "rstring \<Rightarrow> i8 list \<Rightarrow> bool result" where
  "compare_cstr_safe s c_str = obind (unwrap (cstr_until_nul c_str)) (\<lambda>c. Ok (s = c))"

section \<open>UTF-8 validation\<close>

text \<open>\<open>str::from_utf8\<close>: the well-formed byte sequences of the Unicode standard, table 3-7.\<close>

definition utf8_cont :: "u8 \<Rightarrow> bool" where
  "utf8_cont b \<longleftrightarrow> 0x80 \<le> b \<and> b \<le> 0xBF"

definition utf8_second :: "u8 \<Rightarrow> u8 \<Rightarrow> bool" where
  "utf8_second a b \<longleftrightarrow>
     (if a = 0xE0 then 0xA0 \<le> b \<and> b \<le> 0xBF
      else if a = 0xED then 0x80 \<le> b \<and> b \<le> 0x9F
      else if a = 0xF0 then 0x90 \<le> b \<and> b \<le> 0xBF
      else if a = 0xF4 then 0x80 \<le> b \<and> b \<le> 0x8F
      else utf8_cont b)"

fun utf8_valid :: "u8 list \<Rightarrow> bool" where
  "utf8_valid [] = True"
| "utf8_valid (a # bs) =
     (if a < 0x80 then utf8_valid bs
      else if 0xC2 \<le> a \<and> a \<le> 0xDF then
        (case bs of b # r \<Rightarrow> utf8_second a b \<and> utf8_valid r | _ \<Rightarrow> False)
      else if 0xE0 \<le> a \<and> a \<le> 0xEF then
        (case bs of b # c # r \<Rightarrow> utf8_second a b \<and> utf8_cont c \<and> utf8_valid r | _ \<Rightarrow> False)
      else if 0xF0 \<le> a \<and> a \<le> 0xF4 then
        (case bs of b # c # d # r \<Rightarrow>
           utf8_second a b \<and> utf8_cont c \<and> utf8_cont d \<and> utf8_valid r | _ \<Rightarrow> False)
      else False)"

section \<open>Results of a copy\<close>

text \<open>The copied string with its terminator, the rest of the buffer as it was.\<close>

definition nul_terminated :: "rstring \<Rightarrow> i8 list \<Rightarrow> i8 list" where
  "nul_terminated src dst = src @ 0 # drop (Suc (length src)) dst"

lemma overwrite_nul:
  assumes "length src < length dst"
  shows "(overwrite src dst)[length src := 0] = nul_terminated src dst"
proof -
  have "drop (length src) dst = dst ! length src # drop (Suc (length src)) dst"
    using assms by (rule Cons_nth_drop_Suc [symmetric])
  then show ?thesis
    using assms by (simp add: overwrite_def nul_terminated_def list_update_append)
qed

lemma str_try_copy_to_Ok_iff [outcome_simps]:
  "str_try_copy_to src dst = Ok d \<longleftrightarrow>
     length src < length dst \<and> 0 \<notin> set src \<and> d = nul_terminated src dst"
  by (auto simp: str_try_copy_to_def overwrite_nul)

lemma str_try_copy_to_fits [simp]:
  "length src < length dst \<Longrightarrow> 0 \<notin> set src \<Longrightarrow>
     str_try_copy_to src dst = Ok (nul_terminated src dst)"
  by (simp add: str_try_copy_to_Ok_iff)

lemma str_try_copy_to_no_panic [simp]: "str_try_copy_to src dst \<noteq> Panic"
  by (simp add: str_try_copy_to_def)

lemma forget_str_try_copy_to:
  "length d1 = length d2 \<Longrightarrow> forget (str_try_copy_to s d1) = forget (str_try_copy_to s d2)"
  by (simp add: str_try_copy_to_def)

lemma length_nul_terminated [simp]:
  "length src < length dst \<Longrightarrow> length (nul_terminated src dst) = length dst"
  by (simp add: nul_terminated_def)

lemma nul_terminated_idem [simp]:
  "nul_terminated src (nul_terminated src dst) = nul_terminated src dst"
  by (simp add: nul_terminated_def)

lemma nul_terminated_zeros:
  "nul_terminated src (zeros n) = src @ 0 # zeros (n - Suc (length src))"
  by (simp add: nul_terminated_def)

lemma cstr_nul_terminated:
  assumes "0 \<notin> set src"
  shows "cstr_until_nul (nul_terminated src dst) = Some src"
proof -
  have "takeWhile (\<lambda>b. b \<noteq> 0) (src @ 0 # r) = src" for r :: "u8 list"
    using assms by (subst takeWhile_append2) auto
  then show ?thesis by (simp add: cstr_until_nul_def nul_terminated_def)
qed

interpretation cstr: try_copy str_try_copy_to "\<lambda>d. length d = n" for n
  by unfold_locales (auto simp: str_try_copy_to_Ok_iff forget_str_try_copy_to)

lemma copy_anchor_name_Ok_iff [outcome_simps]:
  "copy_anchor_name a dst = Ok d \<longleftrightarrow>
     length a < length dst \<and> 0 \<notin> set a \<and> d = nul_terminated a dst"
  by (auto simp: copy_anchor_name_def outcome_simps)

lemma copy_anchor_name_Err_iff:
  "copy_anchor_name a dst = Err e \<longleftrightarrow>
     (if length a \<ge> length dst then e = InvalidAnchorName ''Too long''
      else 0 \<in> set a \<and> e = InvalidAnchorName ''Contains null byte'')"
  by (auto simp: copy_anchor_name_def str_try_copy_to_def)

lemma copy_anchor_name_no_panic [simp]: "copy_anchor_name a dst \<noteq> Panic"
  by (simp add: copy_anchor_name_def outcome_simps)

text \<open>Names that fit a buffer of the given size.\<close>

definition name_fits :: "nat \<Rightarrow> rstring \<Rightarrow> bool" where
  "name_fits n s \<longleftrightarrow> length s < n \<and> 0 \<notin> set s"

lemma copy_anchor_name_cases:
  "copy_anchor_name a dst = (if name_fits (length dst) a then Ok (nul_terminated a dst)
     else Err (InvalidAnchorName (if length a \<ge> length dst then ''Too long'' else ''Contains null byte'')))"
  by (auto simp: copy_anchor_name_def str_try_copy_to_def name_fits_def overwrite_nul)

section \<open>Comparison\<close>

lemma compare_cstr_safe_Panic_iff: "compare_cstr_safe s c = Panic \<longleftrightarrow> 0 \<notin> set c"
  by (simp add: compare_cstr_safe_def cstr_until_nul_def)

lemma compare_cstr_safe_no_err: "compare_cstr_safe s c \<noteq> Err e"
  by (simp add: compare_cstr_safe_def cstr_until_nul_def)

lemma compare_cstr_safe_eq:
  "0 \<in> set c \<Longrightarrow> compare_cstr_safe s c = Ok (s = takeWhile (\<lambda>b. b \<noteq> 0) c)"
  by (simp add: compare_cstr_safe_def cstr_until_nul_def)

lemma compare_copied:
  "0 \<notin> set t \<Longrightarrow> compare_cstr_safe s (nul_terminated t dst) = Ok (s = t)"
  by (simp add: compare_cstr_safe_def cstr_nul_terminated)

section \<open>Properties\<close>

text \<open>
  C35. Copying a name into a C buffer never panics; it fails exactly for a name that does not leave
  room for the terminator or contains a NUL, saying which; and after a copy the buffer has kept
  its length and compares equal to that name and to no other.
\<close>

theorem name_copy_roundtrip:
  "case copy_anchor_name t dst of
     Ok d \<Rightarrow> name_fits (length dst) t \<and> length d = length dst \<and> compare_cstr_safe s d = Ok (s = t)
   | Err e \<Rightarrow> \<not> name_fits (length dst) t \<and>
       e = InvalidAnchorName (if length t \<ge> length dst then ''Too long'' else ''Contains null byte'')
   | Panic \<Rightarrow> False"
  by (auto simp: copy_anchor_name_cases name_fits_def compare_copied)

end
