(* ===== verification/Pfvar.thy ===== *)
theory Pfvar
  imports Prelude
begin

text \<open>
  The data of \<open>ffi/pfvar.rs\<close> that the crate reads or writes: constants, C enumerations and
  their discriminants, and the structs passed to the kernel, as records with the fields of
  the source in its order (prefixed, since several structs share field names). A C array is a
  list whose length the predicate \<open>_wf\<close> fixes; \<open>_zeroed\<close> is the value of
  \<open>FromZeros::new_zeroed\<close>. Unions: an address is its 16 bytes; the union of an address
  wrapper is its view \<open>a\<close> (address and mask, all 32 bytes); the port union of a rule address
  is its view \<open>range\<close>, the only one used. A pointer to memory that the kernel fills
  (\<open>pfioc_trans.array\<close>, \<open>pfioc_states.ps_u\<close>) is the contents of that memory; a
  kernel-internal pointer is an address.
\<close>

section \<open>Constants\<close>

definition PF_UNSPEC :: u32 where "PF_UNSPEC = 0"
definition PF_INET :: u32 where "PF_INET = 2"
definition PF_INET6 :: u32 where "PF_INET6 = 30"
definition PF_LOG :: u32 where "PF_LOG = 1"
definition PF_LOG_ALL :: u32 where "PF_LOG_ALL = 2"
definition PF_LOG_SOCKET_LOOKUP :: u32 where "PF_LOG_SOCKET_LOOKUP = 4"
definition PF_STATE_NORMAL :: u32 where "PF_STATE_NORMAL = 1"
definition PF_STATE_MODULATE :: u32 where "PF_STATE_MODULATE = 2"
definition PF_STATE_SYNPROXY :: u32 where "PF_STATE_SYNPROXY = 3"
definition PFRULE_DROP :: u32 where "PFRULE_DROP = 0"
definition PFRULE_RETURNRST :: u32 where "PFRULE_RETURNRST = 1"
definition PFRULE_RETURNICMP :: u32 where "PFRULE_RETURNICMP = 4"
definition PFRULE_RETURN :: u32 where "PFRULE_RETURN = 8"

lemmas pf_constants = PF_UNSPEC_def PF_INET_def PF_INET6_def PF_LOG_def PF_LOG_ALL_def PF_LOG_SOCKET_LOOKUP_def PF_STATE_NORMAL_def PF_STATE_MODULATE_def PF_STATE_SYNPROXY_def PFRULE_DROP_def PFRULE_RETURNRST_def PFRULE_RETURNICMP_def PFRULE_RETURN_def

section \<open>Enumerations and their discriminants\<close>

datatype bindgen_ty_6 =
    PF_INOUT
  | PF_IN
  | PF_OUT

fun bindgen_ty_6_as_u32 :: "bindgen_ty_6 \<Rightarrow> u32" where
  "bindgen_ty_6_as_u32 PF_INOUT = 0"
| "bindgen_ty_6_as_u32 PF_IN = 1"
| "bindgen_ty_6_as_u32 PF_OUT = 2"

datatype bindgen_ty_7 =
    PF_PASS
  | PF_DROP
  | PF_SCRUB
  | PF_NOSCRUB
  | PF_NAT
  | PF_NONAT
  | PF_BINAT
  | PF_NOBINAT
  | PF_RDR
  | PF_NORDR
  | PF_SYNPROXY_DROP
  | PF_DUMMYNET
  | PF_NODUMMYNET
  | PF_NAT64
  | PF_NONAT64

fun bindgen_ty_7_as_u32 :: "bindgen_ty_7 \<Rightarrow> u32" where
  "bindgen_ty_7_as_u32 PF_PASS = 0"
| "bindgen_ty_7_as_u32 PF_DROP = 1"
| "bindgen_ty_7_as_u32 PF_SCRUB = 2"
| "bindgen_ty_7_as_u32 PF_NOSCRUB = 3"
| "bindgen_ty_7_as_u32 PF_NAT = 4"
| "bindgen_ty_7_as_u32 PF_NONAT = 5"
| "bindgen_ty_7_as_u32 PF_BINAT = 6"
| "bindgen_ty_7_as_u32 PF_NOBINAT = 7"
| "bindgen_ty_7_as_u32 PF_RDR = 8"
| "bindgen_ty_7_as_u32 PF_NORDR = 9"
| "bindgen_ty_7_as_u32 PF_SYNPROXY_DROP = 10"
| "bindgen_ty_7_as_u32 PF_DUMMYNET = 11"
| "bindgen_ty_7_as_u32 PF_NODUMMYNET = 12"
| "bindgen_ty_7_as_u32 PF_NAT64 = 13"
| "bindgen_ty_7_as_u32 PF_NONAT64 = 14"

datatype bindgen_ty_8 =
    PF_RULESET_SCRUB
  | PF_RULESET_FILTER
  | PF_RULESET_NAT
  | PF_RULESET_BINAT
  | PF_RULESET_RDR
  | PF_RULESET_DUMMYNET
  | PF_RULESET_MAX

fun bindgen_ty_8_as_u32 :: "bindgen_ty_8 \<Rightarrow> u32" where
  "bindgen_ty_8_as_u32 PF_RULESET_SCRUB = 0"
| "bindgen_ty_8_as_u32 PF_RULESET_FILTER = 1"
| "bindgen_ty_8_as_u32 PF_RULESET_NAT = 2"
| "bindgen_ty_8_as_u32 PF_RULESET_BINAT = 3"
| "bindgen_ty_8_as_u32 PF_RULESET_RDR = 4"
| "bindgen_ty_8_as_u32 PF_RULESET_DUMMYNET = 5"
| "bindgen_ty_8_as_u32 PF_RULESET_MAX = 6"

datatype bindgen_ty_9 =
    PF_OP_NONE
  | PF_OP_IRG
  | PF_OP_EQ
  | PF_OP_NE
  | PF_OP_LT
  | PF_OP_LE
  | PF_OP_GT
  | PF_OP_GE
  | PF_OP_XRG
  | PF_OP_RRG

fun bindgen_ty_9_as_u32 :: "bindgen_ty_9 \<Rightarrow> u32" where
  "bindgen_ty_9_as_u32 PF_OP_NONE = 0"
| "bindgen_ty_9_as_u32 PF_OP_IRG = 1"
| "bindgen_ty_9_as_u32 PF_OP_EQ = 2"
| "bindgen_ty_9_as_u32 PF_OP_NE = 3"
| "bindgen_ty_9_as_u32 PF_OP_LT = 4"
| "bindgen_ty_9_as_u32 PF_OP_LE = 5"
| "bindgen_ty_9_as_u32 PF_OP_GT = 6"
| "bindgen_ty_9_as_u32 PF_OP_GE = 7"
| "bindgen_ty_9_as_u32 PF_OP_XRG = 8"
| "bindgen_ty_9_as_u32 PF_OP_RRG = 9"

datatype bindgen_ty_11 =
    PF_CHANGE_NONE
  | PF_CHANGE_ADD_HEAD
  | PF_CHANGE_ADD_TAIL
  | PF_CHANGE_ADD_BEFORE
  | PF_CHANGE_ADD_AFTER
  | PF_CHANGE_REMOVE
  | PF_CHANGE_GET_TICKET

fun bindgen_ty_11_as_u32 :: "bindgen_ty_11 \<Rightarrow> u32" where
  "bindgen_ty_11_as_u32 PF_CHANGE_NONE = 0"
| "bindgen_ty_11_as_u32 PF_CHANGE_ADD_HEAD = 1"
| "bindgen_ty_11_as_u32 PF_CHANGE_ADD_TAIL = 2"
| "bindgen_ty_11_as_u32 PF_CHANGE_ADD_BEFORE = 3"
| "bindgen_ty_11_as_u32 PF_CHANGE_ADD_AFTER = 4"
| "bindgen_ty_11_as_u32 PF_CHANGE_REMOVE = 5"
| "bindgen_ty_11_as_u32 PF_CHANGE_GET_TICKET = 6"

datatype bindgen_ty_12 =
    PF_GET_NONE
  | PF_GET_CLR_CNTR

fun bindgen_ty_12_as_u32 :: "bindgen_ty_12 \<Rightarrow> u32" where
  "bindgen_ty_12_as_u32 PF_GET_NONE = 0"
| "bindgen_ty_12_as_u32 PF_GET_CLR_CNTR = 1"

datatype bindgen_ty_14 =
    PF_NOPFROUTE
  | PF_FASTROUTE
  | PF_ROUTETO
  | PF_DUPTO
  | PF_REPLYTO

fun bindgen_ty_14_as_u32 :: "bindgen_ty_14 \<Rightarrow> u32" where
  "bindgen_ty_14_as_u32 PF_NOPFROUTE = 0"
| "bindgen_ty_14_as_u32 PF_FASTROUTE = 1"
| "bindgen_ty_14_as_u32 PF_ROUTETO = 2"
| "bindgen_ty_14_as_u32 PF_DUPTO = 3"
| "bindgen_ty_14_as_u32 PF_REPLYTO = 4"

datatype bindgen_ty_17 =
    PF_ADDR_ADDRMASK
  | PF_ADDR_NOROUTE
  | PF_ADDR_DYNIFTL
  | PF_ADDR_TABLE
  | PF_ADDR_RTLABEL
  | PF_ADDR_URPFFAILED
  | PF_ADDR_RANGE

fun bindgen_ty_17_as_u32 :: "bindgen_ty_17 \<Rightarrow> u32" where
  "bindgen_ty_17_as_u32 PF_ADDR_ADDRMASK = 0"
| "bindgen_ty_17_as_u32 PF_ADDR_NOROUTE = 1"
| "bindgen_ty_17_as_u32 PF_ADDR_DYNIFTL = 2"
| "bindgen_ty_17_as_u32 PF_ADDR_TABLE = 3"
| "bindgen_ty_17_as_u32 PF_ADDR_RTLABEL = 4"
| "bindgen_ty_17_as_u32 PF_ADDR_URPFFAILED = 5"
| "bindgen_ty_17_as_u32 PF_ADDR_RANGE = 6"

section \<open>Structs\<close>

record in_addr =
  s_addr :: u32

definition in_addr_zeroed :: in_addr where
  "in_addr_zeroed =
    \<lparr>s_addr = 0\<rparr>"

record in6_addr =
  u6_addr :: "u8 list"

definition in6_addr_zeroed :: in6_addr where
  "in6_addr_zeroed =
    \<lparr>u6_addr = zeros 16\<rparr>"

definition in6_addr_wf :: "in6_addr \<Rightarrow> bool" where
  "in6_addr_wf x \<longleftrightarrow>
     length (u6_addr x) = 16"

record pf_addr =
  pfa :: "u8 list"

definition pf_addr_zeroed :: pf_addr where
  "pf_addr_zeroed =
    \<lparr>pfa = zeros 16\<rparr>"

definition pf_addr_wf :: "pf_addr \<Rightarrow> bool" where
  "pf_addr_wf x \<longleftrightarrow>
     length (pfa x) = 16"

record pf_addr_mask =
  am_addr :: pf_addr
  am_mask :: pf_addr

definition pf_addr_mask_zeroed :: pf_addr_mask where
  "pf_addr_mask_zeroed =
    \<lparr>am_addr = pf_addr_zeroed, am_mask = pf_addr_zeroed\<rparr>"

definition pf_addr_mask_wf :: "pf_addr_mask \<Rightarrow> bool" where
  "pf_addr_mask_wf x \<longleftrightarrow>
     pf_addr_wf (am_addr x) \<and>
     pf_addr_wf (am_mask x)"

record pf_addr_wrap =
  aw_v :: pf_addr_mask
  aw_p :: u64
  aw_type :: u8
  aw_iflags :: u8

definition pf_addr_wrap_zeroed :: pf_addr_wrap where
  "pf_addr_wrap_zeroed =
    \<lparr>aw_v = pf_addr_mask_zeroed, aw_p = 0, aw_type = 0, aw_iflags = 0\<rparr>"

definition pf_addr_wrap_wf :: "pf_addr_wrap \<Rightarrow> bool" where
  "pf_addr_wrap_wf x \<longleftrightarrow>
     pf_addr_mask_wf (aw_v x)"

record pf_port_range =
  pr_port :: "u16 list"
  pr_op :: u8

definition pf_port_range_zeroed :: pf_port_range where
  "pf_port_range_zeroed =
    \<lparr>pr_port = zeros 2, pr_op = 0\<rparr>"

definition pf_port_range_wf :: "pf_port_range \<Rightarrow> bool" where
  "pf_port_range_wf x \<longleftrightarrow>
     length (pr_port x) = 2"

record pf_rule_uid =
  ru_uid :: "u32 list"
  ru_op :: u8
  ru_pad :: "u8 list"

definition pf_rule_uid_zeroed :: pf_rule_uid where
  "pf_rule_uid_zeroed =
    \<lparr>ru_uid = zeros 2, ru_op = 0, ru_pad = zeros 3\<rparr>"

definition pf_rule_uid_wf :: "pf_rule_uid \<Rightarrow> bool" where
  "pf_rule_uid_wf x \<longleftrightarrow>
     length (ru_uid x) = 2 \<and>
     length (ru_pad x) = 3"

record pf_rule_gid =
  rg_gid :: "u32 list"
  rg_op :: u8
  rg_pad :: "u8 list"

definition pf_rule_gid_zeroed :: pf_rule_gid where
  "pf_rule_gid_zeroed =
    \<lparr>rg_gid = zeros 2, rg_op = 0, rg_pad = zeros 3\<rparr>"

definition pf_rule_gid_wf :: "pf_rule_gid \<Rightarrow> bool" where
  "pf_rule_gid_wf x \<longleftrightarrow>
     length (rg_gid x) = 2 \<and>
     length (rg_pad x) = 3"

record pf_rule_addr =
  ra_addr :: pf_addr_wrap
  ra_xport :: pf_port_range
  ra_neg :: u8

definition pf_rule_addr_zeroed :: pf_rule_addr where
  "pf_rule_addr_zeroed =
    \<lparr>ra_addr = pf_addr_wrap_zeroed, ra_xport = pf_port_range_zeroed,
     ra_neg = 0\<rparr>"

definition pf_rule_addr_wf :: "pf_rule_addr \<Rightarrow> bool" where
  "pf_rule_addr_wf x \<longleftrightarrow>
     pf_addr_wrap_wf (ra_addr x) \<and>
     pf_port_range_wf (ra_xport x)"

text \<open>
  Pointers to \<open>pf_pooladdr\<close> and to pointers to it, used by the linked list of a pool. They
  name the object they point to: an element of the array that the list object retains, or a
  local variable of the function that took the address.
\<close>

datatype pool_place =
    Retained nat      \<comment> \<open>an element of the retained array\<close>
  | Local string      \<comment> \<open>a stack variable of a function that has returned\<close>

datatype pool_ptr = PNull | PTo pool_place

datatype pool_pptr =
    PPNull
  | PPNext pool_place    \<comment> \<open>the field \<open>entries.tqe_next\<close> of an element\<close>
  | PPFirst string       \<comment> \<open>the field \<open>tqh_first\<close> of a list head, a stack variable\<close>

record pf_pooladdr_entries =
  tqe_next :: pool_ptr
  tqe_prev :: pool_pptr

definition pf_pooladdr_entries_zeroed :: pf_pooladdr_entries where
  "pf_pooladdr_entries_zeroed =
    \<lparr>tqe_next = PNull, tqe_prev = PPNull\<rparr>"

record pf_pooladdr =
  pa_addr :: pf_addr_wrap
  pa_entries :: pf_pooladdr_entries
  pa_ifname :: "i8 list"
  pa_kif :: u64

definition pf_pooladdr_zeroed :: pf_pooladdr where
  "pf_pooladdr_zeroed =
    \<lparr>pa_addr = pf_addr_wrap_zeroed, pa_entries = pf_pooladdr_entries_zeroed,
     pa_ifname = zeros 16, pa_kif = 0\<rparr>"

definition pf_pooladdr_wf :: "pf_pooladdr \<Rightarrow> bool" where
  "pf_pooladdr_wf x \<longleftrightarrow>
     pf_addr_wrap_wf (pa_addr x) \<and>
     length (pa_ifname x) = 16"

record pf_palist =
  tqh_first :: pool_ptr
  tqh_last :: pool_pptr

definition pf_palist_zeroed :: pf_palist where
  "pf_palist_zeroed =
    \<lparr>tqh_first = PNull, tqh_last = PPNull\<rparr>"

record pf_poolhashkey =
  pfk :: "u8 list"

definition pf_poolhashkey_zeroed :: pf_poolhashkey where
  "pf_poolhashkey_zeroed =
    \<lparr>pfk = zeros 16\<rparr>"

definition pf_poolhashkey_wf :: "pf_poolhashkey \<Rightarrow> bool" where
  "pf_poolhashkey_wf x \<longleftrightarrow>
     length (pfk x) = 16"

record pf_pool =
  pp_list :: pf_palist
  pp_cur :: u64
  pp_key :: pf_poolhashkey
  pp_counter :: pf_addr
  pp_tblidx :: i32
  pp_proxy_port :: "u16 list"
  pp_port_op :: u8
  pp_opts :: u8
  pp_af :: u8

definition pf_pool_zeroed :: pf_pool where
  "pf_pool_zeroed =
    \<lparr>pp_list = pf_palist_zeroed, pp_cur = 0, pp_key = pf_poolhashkey_zeroed,
     pp_counter = pf_addr_zeroed, pp_tblidx = 0, pp_proxy_port = zeros 2, pp_port_op = 0,
     pp_opts = 0, pp_af = 0\<rparr>"

definition pf_pool_wf :: "pf_pool \<Rightarrow> bool" where
  "pf_pool_wf x \<longleftrightarrow>
     pf_poolhashkey_wf (pp_key x) \<and>
     pf_addr_wf (pp_counter x) \<and>
     length (pp_proxy_port x) = 2"

record pf_rule_entries =
  re_tqe_next :: u64
  re_tqe_prev :: u64

definition pf_rule_entries_zeroed :: pf_rule_entries where
  "pf_rule_entries_zeroed =
    \<lparr>re_tqe_next = 0, re_tqe_prev = 0\<rparr>"

record pf_conn_rate =
  cr_limit :: u32
  cr_seconds :: u32

definition pf_conn_rate_zeroed :: pf_conn_rate where
  "pf_conn_rate_zeroed =
    \<lparr>cr_limit = 0, cr_seconds = 0\<rparr>"

record pf_rule =
  r_src :: pf_rule_addr
  r_dst :: pf_rule_addr
  r_skip :: "u64 list"
  r_label :: "i8 list"
  r_ifname :: "i8 list"
  r_qname :: "i8 list"
  r_pqname :: "i8 list"
  r_tagname :: "i8 list"
  r_match_tagname :: "i8 list"
  r_overload_tblname :: "i8 list"
  r_entries :: pf_rule_entries
  r_rpool :: pf_pool
  r_evaluations :: u64
  r_packets :: "u64 list"
  r_bytes :: "u64 list"
  r_ticket :: u64
  r_owner :: "i8 list"
  r_priority :: u32
  r_kif :: u64
  r_anchor :: u64
  r_overload_tbl :: u64
  r_os_fingerprint :: u32
  r_rtableid :: u32
  r_timeout :: "u32 list"
  r_states :: u32
  r_max_states :: u32
  r_src_nodes :: u32
  r_max_src_nodes :: u32
  r_max_src_states :: u32
  r_max_src_conn :: u32
  r_max_src_conn_rate :: pf_conn_rate
  r_qid :: u32
  r_pqid :: u32
  r_rt_listid :: u32
  r_nr :: u32
  r_prob :: u32
  r_cuid :: u32
  r_cpid :: i32
  r_return_icmp :: u16
  r_return_icmp6 :: u16
  r_max_mss :: u16
  r_tag :: u16
  r_match_tag :: u16
  r_uid :: pf_rule_uid
  r_gid :: pf_rule_gid
  r_rule_flag :: u32
  r_action :: u8
  r_direction :: u8
  r_log :: u8
  r_logif :: u8
  r_quick :: u8
  r_ifnot :: u8
  r_match_tag_not :: u8
  r_natpass :: u8
  r_keep_state :: u8
  r_af :: u8
  r_proto :: u8
  r_type :: u8
  r_code :: u8
  r_flags :: u8
  r_flagset :: u8
  r_min_ttl :: u8
  r_allow_opts :: u8
  r_rt :: u8
  r_return_ttl :: u8
  r_tos :: u8
  r_anchor_relative :: u8
  r_anchor_wildcard :: u8
  r_flush :: u8
  r_proto_variant :: u8
  r_extfilter :: u8
  r_extmap :: u8
  r_dnpipe :: u32
  r_dntype :: u32

definition pf_rule_zeroed :: pf_rule where
  "pf_rule_zeroed =
    \<lparr>r_src = pf_rule_addr_zeroed, r_dst = pf_rule_addr_zeroed, r_skip = zeros 8,
     r_label = zeros 64, r_ifname = zeros 16, r_qname = zeros 64, r_pqname = zeros 64,
     r_tagname = zeros 64, r_match_tagname = zeros 64, r_overload_tblname = zeros 32,
     r_entries = pf_rule_entries_zeroed, r_rpool = pf_pool_zeroed, r_evaluations = 0,
     r_packets = zeros 2, r_bytes = zeros 2, r_ticket = 0, r_owner = zeros 64,
     r_priority = 0, r_kif = 0, r_anchor = 0, r_overload_tbl = 0, r_os_fingerprint = 0,
     r_rtableid = 0, r_timeout = zeros 26, r_states = 0, r_max_states = 0, r_src_nodes = 0,
     r_max_src_nodes = 0, r_max_src_states = 0, r_max_src_conn = 0,
     r_max_src_conn_rate = pf_conn_rate_zeroed, r_qid = 0, r_pqid = 0, r_rt_listid = 0,
     r_nr = 0, r_prob = 0, r_cuid = 0, r_cpid = 0, r_return_icmp = 0, r_return_icmp6 = 0,
     r_max_mss = 0, r_tag = 0, r_match_tag = 0, r_uid = pf_rule_uid_zeroed,
     r_gid = pf_rule_gid_zeroed, r_rule_flag = 0, r_action = 0, r_direction = 0, r_log = 0,
     r_logif = 0, r_quick = 0, r_ifnot = 0, r_match_tag_not = 0, r_natpass = 0,
     r_keep_state = 0, r_af = 0, r_proto = 0, r_type = 0, r_code = 0, r_flags = 0,
     r_flagset = 0, r_min_ttl = 0, r_allow_opts = 0, r_rt = 0, r_return_ttl = 0, r_tos = 0,
     r_anchor_relative = 0, r_anchor_wildcard = 0, r_flush = 0, r_proto_variant = 0,
     r_extfilter = 0, r_extmap = 0, r_dnpipe = 0, r_dntype = 0\<rparr>"

definition pf_rule_wf :: "pf_rule \<Rightarrow> bool" where
  "pf_rule_wf x \<longleftrightarrow>
     pf_rule_addr_wf (r_src x) \<and>
     pf_rule_addr_wf (r_dst x) \<and>
     length (r_skip x) = 8 \<and>
     length (r_label x) = 64 \<and>
     length (r_ifname x) = 16 \<and>
     length (r_qname x) = 64 \<and>
     length (r_pqname x) = 64 \<and>
     length (r_tagname x) = 64 \<and>
     length (r_match_tagname x) = 64 \<and>
     length (r_overload_tblname x) = 32 \<and>
     pf_pool_wf (r_rpool x) \<and>
     length (r_packets x) = 2 \<and>
     length (r_bytes x) = 2 \<and>
     length (r_owner x) = 64 \<and>
     length (r_timeout x) = 26 \<and>
     pf_rule_uid_wf (r_uid x) \<and>
     pf_rule_gid_wf (r_gid x)"

record hook_desc_head =
  hd_tqh_first :: u64
  hd_tqh_last :: u64

definition hook_desc_head_zeroed :: hook_desc_head where
  "hook_desc_head_zeroed =
    \<lparr>hd_tqh_first = 0, hd_tqh_last = 0\<rparr>"

record pfsync_state_scrub =
  pfss_flags :: u16
  pfss_ttl :: u8
  scrub_flag :: u8
  pfss_ts_mod :: u32

definition pfsync_state_scrub_zeroed :: pfsync_state_scrub where
  "pfsync_state_scrub_zeroed =
    \<lparr>pfss_flags = 0, pfss_ttl = 0, scrub_flag = 0, pfss_ts_mod = 0\<rparr>"

record pfsync_state_host =
  h_addr :: pf_addr
  h_xport :: "u8 list"
  h_pad :: "u16 list"

definition pfsync_state_host_zeroed :: pfsync_state_host where
  "pfsync_state_host_zeroed =
    \<lparr>h_addr = pf_addr_zeroed, h_xport = zeros 4, h_pad = zeros 2\<rparr>"

definition pfsync_state_host_wf :: "pfsync_state_host \<Rightarrow> bool" where
  "pfsync_state_host_wf x \<longleftrightarrow>
     pf_addr_wf (h_addr x) \<and>
     length (h_xport x) = 4 \<and>
     length (h_pad x) = 2"

record pfsync_state_peer =
  p_scrub :: pfsync_state_scrub
  p_seqlo :: u32
  p_seqhi :: u32
  p_seqdiff :: u32
  p_max_win :: u16
  p_mss :: u16
  p_state :: u8
  p_wscale :: u8
  p_pad :: "u8 list"

definition pfsync_state_peer_zeroed :: pfsync_state_peer where
  "pfsync_state_peer_zeroed =
    \<lparr>p_scrub = pfsync_state_scrub_zeroed, p_seqlo = 0, p_seqhi = 0, p_seqdiff = 0,
     p_max_win = 0, p_mss = 0, p_state = 0, p_wscale = 0, p_pad = zeros 6\<rparr>"

definition pfsync_state_peer_wf :: "pfsync_state_peer \<Rightarrow> bool" where
  "pfsync_state_peer_wf x \<longleftrightarrow>
     length (p_pad x) = 6"

record pfsync_state =
  s_id :: "u32 list"
  s_ifname :: "i8 list"
  s_lan :: pfsync_state_host
  s_gwy :: pfsync_state_host
  s_ext_lan :: pfsync_state_host
  s_ext_gwy :: pfsync_state_host
  s_src :: pfsync_state_peer
  s_dst :: pfsync_state_peer
  s_rt_addr :: pf_addr
  s_unlink_hooks :: hook_desc_head
  s_rule :: u32
  s_anchor :: u32
  s_nat_rule :: u32
  s_creation :: u64
  s_expire :: u64
  s_packets :: "u32 list list"
  s_bytes :: "u32 list list"
  s_creatorid :: u32
  s_tag :: u16
  s_af_lan :: u8
  s_af_gwy :: u8
  s_proto :: u8
  s_direction :: u8
  s_log :: u8
  s_allow_opts :: u8
  s_timeout :: u8
  s_sync_flags :: u8
  s_updates :: u8
  s_proto_variant :: u8
  s_pad0 :: u8
  s_flowhash :: u32

definition pfsync_state_zeroed :: pfsync_state where
  "pfsync_state_zeroed =
    \<lparr>s_id = zeros 2, s_ifname = zeros 16, s_lan = pfsync_state_host_zeroed,
     s_gwy = pfsync_state_host_zeroed, s_ext_lan = pfsync_state_host_zeroed,
     s_ext_gwy = pfsync_state_host_zeroed, s_src = pfsync_state_peer_zeroed,
     s_dst = pfsync_state_peer_zeroed, s_rt_addr = pf_addr_zeroed,
     s_unlink_hooks = hook_desc_head_zeroed, s_rule = 0, s_anchor = 0, s_nat_rule = 0,
     s_creation = 0, s_expire = 0, s_packets = replicate 2 (zeros 2),
     s_bytes = replicate 2 (zeros 2), s_creatorid = 0, s_tag = 0, s_af_lan = 0,
     s_af_gwy = 0, s_proto = 0, s_direction = 0, s_log = 0, s_allow_opts = 0,
     s_timeout = 0, s_sync_flags = 0, s_updates = 0, s_proto_variant = 0, s_pad0 = 0,
     s_flowhash = 0\<rparr>"

definition pfsync_state_wf :: "pfsync_state \<Rightarrow> bool" where
  "pfsync_state_wf x \<longleftrightarrow>
     length (s_id x) = 2 \<and>
     length (s_ifname x) = 16 \<and>
     pfsync_state_host_wf (s_lan x) \<and>
     pfsync_state_host_wf (s_gwy x) \<and>
     pfsync_state_host_wf (s_ext_lan x) \<and>
     pfsync_state_host_wf (s_ext_gwy x) \<and>
     pfsync_state_peer_wf (s_src x) \<and>
     pfsync_state_peer_wf (s_dst x) \<and>
     pf_addr_wf (s_rt_addr x) \<and>
     length (s_packets x) = 2 \<and> (\<forall>e \<in> set (s_packets x). length (e) = 2) \<and>
     length (s_bytes x) = 2 \<and> (\<forall>e \<in> set (s_bytes x). length (e) = 2)"

record pfi_kif =
  pfik_name :: "i8 list"
  pfik_packets :: "u64 list list list"
  pfik_bytes :: "u64 list list list"
  pfik_tzero :: u64
  pfik_flags :: i32
  pfik_states :: i32
  pfik_rules :: i32

definition pfi_kif_zeroed :: pfi_kif where
  "pfi_kif_zeroed =
    \<lparr>pfik_name = zeros 16, pfik_packets = replicate 2 (replicate 2 (zeros 2)),
     pfik_bytes = replicate 2 (replicate 2 (zeros 2)), pfik_tzero = 0, pfik_flags = 0,
     pfik_states = 0, pfik_rules = 0\<rparr>"

definition pfi_kif_wf :: "pfi_kif \<Rightarrow> bool" where
  "pfi_kif_wf x \<longleftrightarrow>
     length (pfik_name x) = 16 \<and>
     length (pfik_packets x) = 2 \<and> (\<forall>e \<in> set (pfik_packets x). length (e) = 2 \<and> (\<forall>e \<in> set (e). length (e) = 2)) \<and>
     length (pfik_bytes x) = 2 \<and> (\<forall>e \<in> set (pfik_bytes x). length (e) = 2 \<and> (\<forall>e \<in> set (e). length (e) = 2))"

record pf_status =
  st_counters :: "u64 list"
  st_lcounters :: "u64 list"
  st_fcounters :: "u64 list"
  st_scounters :: "u64 list"
  st_pcounters :: "u64 list list list"
  st_bcounters :: "u64 list list"
  st_stateid :: u64
  st_running :: u32
  st_states :: u32
  st_src_nodes :: u32
  st_since :: u64
  st_debug :: u32
  st_hostid :: u32
  st_ifname :: "i8 list"
  st_pf_chksum :: "u8 list"

definition pf_status_zeroed :: pf_status where
  "pf_status_zeroed =
    \<lparr>st_counters = zeros 17, st_lcounters = zeros 7, st_fcounters = zeros 3,
     st_scounters = zeros 3, st_pcounters = replicate 2 (replicate 2 (zeros 3)),
     st_bcounters = replicate 2 (zeros 2), st_stateid = 0, st_running = 0, st_states = 0,
     st_src_nodes = 0, st_since = 0, st_debug = 0, st_hostid = 0, st_ifname = zeros 16,
     st_pf_chksum = zeros 16\<rparr>"

definition pf_status_wf :: "pf_status \<Rightarrow> bool" where
  "pf_status_wf x \<longleftrightarrow>
     length (st_counters x) = 17 \<and>
     length (st_lcounters x) = 7 \<and>
     length (st_fcounters x) = 3 \<and>
     length (st_scounters x) = 3 \<and>
     length (st_pcounters x) = 2 \<and> (\<forall>e \<in> set (st_pcounters x). length (e) = 2 \<and> (\<forall>e \<in> set (e). length (e) = 3)) \<and>
     length (st_bcounters x) = 2 \<and> (\<forall>e \<in> set (st_bcounters x). length (e) = 2) \<and>
     length (st_ifname x) = 16 \<and>
     length (st_pf_chksum x) = 16"

record pfioc_pooladdr =
  ipa_action :: u32
  ipa_ticket :: u32
  ipa_nr :: u32
  ipa_r_num :: u32
  ipa_r_action :: u8
  ipa_r_last :: u8
  ipa_af :: u8
  ipa_anchor :: "i8 list"
  ipa_addr :: pf_pooladdr

definition pfioc_pooladdr_zeroed :: pfioc_pooladdr where
  "pfioc_pooladdr_zeroed =
    \<lparr>ipa_action = 0, ipa_ticket = 0, ipa_nr = 0, ipa_r_num = 0, ipa_r_action = 0,
     ipa_r_last = 0, ipa_af = 0, ipa_anchor = zeros 1024,
     ipa_addr = pf_pooladdr_zeroed\<rparr>"

definition pfioc_pooladdr_wf :: "pfioc_pooladdr \<Rightarrow> bool" where
  "pfioc_pooladdr_wf x \<longleftrightarrow>
     length (ipa_anchor x) = 1024 \<and>
     pf_pooladdr_wf (ipa_addr x)"

record pfioc_rule =
  ir_action :: u32
  ir_ticket :: u32
  ir_pool_ticket :: u32
  ir_nr :: u32
  ir_anchor :: "i8 list"
  ir_anchor_call :: "i8 list"
  ir_rule :: pf_rule

definition pfioc_rule_zeroed :: pfioc_rule where
  "pfioc_rule_zeroed =
    \<lparr>ir_action = 0, ir_ticket = 0, ir_pool_ticket = 0, ir_nr = 0,
     ir_anchor = zeros 1024, ir_anchor_call = zeros 1024, ir_rule = pf_rule_zeroed\<rparr>"

definition pfioc_rule_wf :: "pfioc_rule \<Rightarrow> bool" where
  "pfioc_rule_wf x \<longleftrightarrow>
     length (ir_anchor x) = 1024 \<and>
     length (ir_anchor_call x) = 1024 \<and>
     pf_rule_wf (ir_rule x)"

record pfioc_state_addr_kill =
  sak_addr :: pf_addr_wrap
  sak_reserved :: "u8 list"
  sak_neg :: u8
  sak_xport :: pf_port_range

definition pfioc_state_addr_kill_zeroed :: pfioc_state_addr_kill where
  "pfioc_state_addr_kill_zeroed =
    \<lparr>sak_addr = pf_addr_wrap_zeroed, sak_reserved = zeros 3, sak_neg = 0,
     sak_xport = pf_port_range_zeroed\<rparr>"

definition pfioc_state_addr_kill_wf :: "pfioc_state_addr_kill \<Rightarrow> bool" where
  "pfioc_state_addr_kill_wf x \<longleftrightarrow>
     pf_addr_wrap_wf (sak_addr x) \<and>
     length (sak_reserved x) = 3 \<and>
     pf_port_range_wf (sak_xport x)"

record pfioc_state_kill =
  psk_af :: u8
  psk_proto :: u8
  psk_proto_variant :: u8
  pad :: u8
  psk_src :: pfioc_state_addr_kill
  psk_dst :: pfioc_state_addr_kill
  psk_ifname :: "i8 list"
  psk_ownername :: "i8 list"

definition pfioc_state_kill_zeroed :: pfioc_state_kill where
  "pfioc_state_kill_zeroed =
    \<lparr>psk_af = 0, psk_proto = 0, psk_proto_variant = 0, pad = 0,
     psk_src = pfioc_state_addr_kill_zeroed, psk_dst = pfioc_state_addr_kill_zeroed,
     psk_ifname = zeros 16, psk_ownername = zeros 64\<rparr>"

definition pfioc_state_kill_wf :: "pfioc_state_kill \<Rightarrow> bool" where
  "pfioc_state_kill_wf x \<longleftrightarrow>
     pfioc_state_addr_kill_wf (psk_src x) \<and>
     pfioc_state_addr_kill_wf (psk_dst x) \<and>
     length (psk_ifname x) = 16 \<and>
     length (psk_ownername x) = 64"

record pfioc_states =
  ps_len :: i32
  ps_u :: "pfsync_state list"

definition pfioc_states_zeroed :: pfioc_states where
  "pfioc_states_zeroed =
    \<lparr>ps_len = 0, ps_u = []\<rparr>"

record pfioc_trans_e =
  te_rs_num :: i32
  te_anchor :: "i8 list"
  te_ticket :: u32

definition pfioc_trans_e_zeroed :: pfioc_trans_e where
  "pfioc_trans_e_zeroed =
    \<lparr>te_rs_num = 0, te_anchor = zeros 1024, te_ticket = 0\<rparr>"

definition pfioc_trans_e_wf :: "pfioc_trans_e \<Rightarrow> bool" where
  "pfioc_trans_e_wf x \<longleftrightarrow>
     length (te_anchor x) = 1024"

record pfioc_trans =
  t_size :: i32
  t_esize :: i32
  t_array :: "pfioc_trans_e list"

definition pfioc_trans_zeroed :: pfioc_trans where
  "pfioc_trans_zeroed =
    \<lparr>t_size = 0, t_esize = 0, t_array = []\<rparr>"

record pfioc_iface =
  pfiio_name :: "i8 list"
  pfiio_buffer :: "pfi_kif list"
  pfiio_esize :: i32
  pfiio_size :: i32
  pfiio_nzero :: i32
  pfiio_flags :: i32

definition pfioc_iface_zeroed :: pfioc_iface where
  "pfioc_iface_zeroed =
    \<lparr>pfiio_name = zeros 16, pfiio_buffer = [], pfiio_esize = 0, pfiio_size = 0,
     pfiio_nzero = 0, pfiio_flags = 0\<rparr>"

definition pfioc_iface_wf :: "pfioc_iface \<Rightarrow> bool" where
  "pfioc_iface_wf x \<longleftrightarrow>
     length (pfiio_name x) = 16"

lemmas zeroed_defs =
  in_addr_zeroed_def
  in6_addr_zeroed_def
  pf_addr_zeroed_def
  pf_addr_mask_zeroed_def
  pf_addr_wrap_zeroed_def
  pf_port_range_zeroed_def
  pf_rule_uid_zeroed_def
  pf_rule_gid_zeroed_def
  pf_rule_addr_zeroed_def
  pf_pooladdr_entries_zeroed_def
  pf_pooladdr_zeroed_def
  pf_palist_zeroed_def
  pf_poolhashkey_zeroed_def
  pf_pool_zeroed_def
  pf_rule_entries_zeroed_def
  pf_conn_rate_zeroed_def
  pf_rule_zeroed_def
  hook_desc_head_zeroed_def
  pfsync_state_scrub_zeroed_def
  pfsync_state_host_zeroed_def
  pfsync_state_peer_zeroed_def
  pfsync_state_zeroed_def
  pfi_kif_zeroed_def
  pf_status_zeroed_def
  pfioc_pooladdr_zeroed_def
  pfioc_rule_zeroed_def
  pfioc_state_addr_kill_zeroed_def
  pfioc_state_kill_zeroed_def
  pfioc_states_zeroed_def
  pfioc_trans_e_zeroed_def
  pfioc_trans_zeroed_def
  pfioc_iface_zeroed_def

lemmas wf_defs =
  in6_addr_wf_def
  pf_addr_wf_def
  pf_addr_mask_wf_def
  pf_addr_wrap_wf_def
  pf_port_range_wf_def
  pf_rule_uid_wf_def
  pf_rule_gid_wf_def
  pf_rule_addr_wf_def
  pf_pooladdr_wf_def
  pf_poolhashkey_wf_def
  pf_pool_wf_def
  pf_rule_wf_def
  pfsync_state_host_wf_def
  pfsync_state_peer_wf_def
  pfsync_state_wf_def
  pfi_kif_wf_def
  pf_status_wf_def
  pfioc_pooladdr_wf_def
  pfioc_rule_wf_def
  pfioc_state_addr_kill_wf_def
  pfioc_state_kill_wf_def
  pfioc_trans_e_wf_def
  pfioc_iface_wf_def

lemma in6_addr_zeroed_wf [simp]: "in6_addr_wf in6_addr_zeroed"
  by (simp add: in6_addr_wf_def in6_addr_zeroed_def)

lemma pf_addr_zeroed_wf [simp]: "pf_addr_wf pf_addr_zeroed"
  by (simp add: pf_addr_wf_def pf_addr_zeroed_def)

lemma pf_addr_mask_zeroed_wf [simp]: "pf_addr_mask_wf pf_addr_mask_zeroed"
  by (simp add: pf_addr_mask_wf_def pf_addr_mask_zeroed_def)

lemma pf_addr_wrap_zeroed_wf [simp]: "pf_addr_wrap_wf pf_addr_wrap_zeroed"
  by (simp add: pf_addr_wrap_wf_def pf_addr_wrap_zeroed_def)

lemma pf_port_range_zeroed_wf [simp]: "pf_port_range_wf pf_port_range_zeroed"
  by (simp add: pf_port_range_wf_def pf_port_range_zeroed_def)

lemma pf_rule_uid_zeroed_wf [simp]: "pf_rule_uid_wf pf_rule_uid_zeroed"
  by (simp add: pf_rule_uid_wf_def pf_rule_uid_zeroed_def)

lemma pf_rule_gid_zeroed_wf [simp]: "pf_rule_gid_wf pf_rule_gid_zeroed"
  by (simp add: pf_rule_gid_wf_def pf_rule_gid_zeroed_def)

lemma pf_rule_addr_zeroed_wf [simp]: "pf_rule_addr_wf pf_rule_addr_zeroed"
  by (simp add: pf_rule_addr_wf_def pf_rule_addr_zeroed_def)

lemma pf_pooladdr_zeroed_wf [simp]: "pf_pooladdr_wf pf_pooladdr_zeroed"
  by (simp add: pf_pooladdr_wf_def pf_pooladdr_zeroed_def)

lemma pf_poolhashkey_zeroed_wf [simp]: "pf_poolhashkey_wf pf_poolhashkey_zeroed"
  by (simp add: pf_poolhashkey_wf_def pf_poolhashkey_zeroed_def)

lemma pf_pool_zeroed_wf [simp]: "pf_pool_wf pf_pool_zeroed"
  by (simp add: pf_pool_wf_def pf_pool_zeroed_def)

lemma pf_rule_zeroed_wf [simp]: "pf_rule_wf pf_rule_zeroed"
  by (simp add: pf_rule_wf_def pf_rule_zeroed_def)

lemma pfsync_state_host_zeroed_wf [simp]: "pfsync_state_host_wf pfsync_state_host_zeroed"
  by (simp add: pfsync_state_host_wf_def pfsync_state_host_zeroed_def)

lemma pfsync_state_peer_zeroed_wf [simp]: "pfsync_state_peer_wf pfsync_state_peer_zeroed"
  by (simp add: pfsync_state_peer_wf_def pfsync_state_peer_zeroed_def)

lemma pfsync_state_zeroed_wf [simp]: "pfsync_state_wf pfsync_state_zeroed"
  by (simp add: pfsync_state_wf_def pfsync_state_zeroed_def)

lemma pfi_kif_zeroed_wf [simp]: "pfi_kif_wf pfi_kif_zeroed"
  by (simp add: pfi_kif_wf_def pfi_kif_zeroed_def)

lemma pf_status_zeroed_wf [simp]: "pf_status_wf pf_status_zeroed"
  by (simp add: pf_status_wf_def pf_status_zeroed_def)

lemma pfioc_pooladdr_zeroed_wf [simp]: "pfioc_pooladdr_wf pfioc_pooladdr_zeroed"
  by (simp add: pfioc_pooladdr_wf_def pfioc_pooladdr_zeroed_def)

lemma pfioc_rule_zeroed_wf [simp]: "pfioc_rule_wf pfioc_rule_zeroed"
  by (simp add: pfioc_rule_wf_def pfioc_rule_zeroed_def)

lemma pfioc_state_addr_kill_zeroed_wf [simp]: "pfioc_state_addr_kill_wf pfioc_state_addr_kill_zeroed"
  by (simp add: pfioc_state_addr_kill_wf_def pfioc_state_addr_kill_zeroed_def)

lemma pfioc_state_kill_zeroed_wf [simp]: "pfioc_state_kill_wf pfioc_state_kill_zeroed"
  by (simp add: pfioc_state_kill_wf_def pfioc_state_kill_zeroed_def)

lemma pfioc_trans_e_zeroed_wf [simp]: "pfioc_trans_e_wf pfioc_trans_e_zeroed"
  by (simp add: pfioc_trans_e_wf_def pfioc_trans_e_zeroed_def)

lemma pfioc_iface_zeroed_wf [simp]: "pfioc_iface_wf pfioc_iface_zeroed"
  by (simp add: pfioc_iface_wf_def pfioc_iface_zeroed_def)

end
