(* ===== verification/RuleFields.thy ===== *)
theory RuleFields
  imports Errors Pfvar
begin

text \<open>
  The enumerations that fill single fields of a rule (\<open>rule/*.rs\<close>, \<open>anchor.rs\<close>,
  \<open>ruleset.rs\<close>): their constructors, their encodings as bytes or integers of the kernel
  interface, and the decoders of \<open>Direction\<close>, \<open>AddrFamily\<close> and \<open>Proto\<close>, which are instances
  of the contract \<open>wire_enum\<close>. Flag sets are folded with bitwise or.
\<close>

named_theorems encodings "the encodings, for evaluation"

section \<open>Arithmetic that panics on overflow\<close>

definition checked_add :: "'w::len word \<Rightarrow> 'w word \<Rightarrow> ('e, 'w word) outcome" where
  "checked_add a b = (if unat a + unat b < 2 ^ LENGTH('w) then Ok (a + b) else Panic)"

section \<open>Direction\<close>

datatype direction = Direction_Any | Direction_In | Direction_Out

fun direction_to_u8 :: "direction \<Rightarrow> u8" where
  "direction_to_u8 Direction_Any = ucast (bindgen_ty_6_as_u32 PF_INOUT)"
| "direction_to_u8 Direction_In = ucast (bindgen_ty_6_as_u32 PF_IN)"
| "direction_to_u8 Direction_Out = ucast (bindgen_ty_6_as_u32 PF_OUT)"

definition direction_try_from :: "u8 \<Rightarrow> direction result" where
  "direction_try_from d =
     (if d = direction_to_u8 Direction_Any then Ok Direction_Any
      else if d = direction_to_u8 Direction_In then Ok Direction_In
      else if d = direction_to_u8 Direction_Out then Ok Direction_Out
      else Err (InvalidDirection d))"

interpretation dir: wire_enum direction_to_u8 direction_try_from InvalidDirection
proof unfold_locales
  show "direction_try_from (direction_to_u8 x) = Ok x" for x
    by (cases x) (simp_all add: direction_try_from_def)
qed (auto simp: direction_try_from_def split: if_splits)

section \<open>AddrFamily\<close>

datatype addr_family = AddrFamily_Any | AddrFamily_Ipv4 | AddrFamily_Ipv6

fun addr_family_to_u8 :: "addr_family \<Rightarrow> u8" where
  "addr_family_to_u8 AddrFamily_Any = ucast PF_UNSPEC"
| "addr_family_to_u8 AddrFamily_Ipv4 = ucast PF_INET"
| "addr_family_to_u8 AddrFamily_Ipv6 = ucast PF_INET6"

definition addr_family_try_from :: "u8 \<Rightarrow> addr_family result" where
  "addr_family_try_from f =
     (if f = addr_family_to_u8 AddrFamily_Any then Ok AddrFamily_Any
      else if f = addr_family_to_u8 AddrFamily_Ipv4 then Ok AddrFamily_Ipv4
      else if f = addr_family_to_u8 AddrFamily_Ipv6 then Ok AddrFamily_Ipv6
      else Err (InvalidAddressFamily f))"

fun addr_family_display :: "addr_family \<Rightarrow> string" where
  "addr_family_display AddrFamily_Any = ''any''"
| "addr_family_display AddrFamily_Ipv4 = ''IPv4''"
| "addr_family_display AddrFamily_Ipv6 = ''IPv6''"

interpretation afam: wire_enum addr_family_to_u8 addr_family_try_from InvalidAddressFamily
proof unfold_locales
  show "addr_family_try_from (addr_family_to_u8 x) = Ok x" for x
    by (cases x) (simp_all add: addr_family_try_from_def pf_constants)
qed (auto simp: addr_family_try_from_def split: if_splits)

text \<open>The families are ordered by how specific they are: \<open>Any\<close> is below both others.\<close>

instantiation addr_family :: order_bot
begin

definition less_eq_addr_family :: "addr_family \<Rightarrow> addr_family \<Rightarrow> bool" where
  "a \<le> b \<longleftrightarrow> a = AddrFamily_Any \<or> a = b"

definition less_addr_family :: "addr_family \<Rightarrow> addr_family \<Rightarrow> bool" where
  "a < b \<longleftrightarrow> a = AddrFamily_Any \<and> b \<noteq> AddrFamily_Any"

definition bot_addr_family :: addr_family where
  "bot = AddrFamily_Any"

instance
  by standard (auto simp: less_eq_addr_family_def less_addr_family_def bot_addr_family_def)

end

section \<open>Proto\<close>

datatype proto = Proto_Any | Proto_Tcp | Proto_Udp | Proto_Icmp | Proto_IcmpV6

fun proto_to_u8 :: "externals \<Rightarrow> proto \<Rightarrow> u8" where
  "proto_to_u8 X Proto_Any = ucast (IPPROTO_IP X)"
| "proto_to_u8 X Proto_Tcp = ucast (IPPROTO_TCP X)"
| "proto_to_u8 X Proto_Udp = ucast (IPPROTO_UDP X)"
| "proto_to_u8 X Proto_Icmp = ucast (IPPROTO_ICMP X)"
| "proto_to_u8 X Proto_IcmpV6 = ucast (IPPROTO_ICMPV6 X)"

definition proto_try_from :: "externals \<Rightarrow> u8 \<Rightarrow> proto result" where
  "proto_try_from X p =
     (if p = proto_to_u8 X Proto_Any then Ok Proto_Any
      else if p = proto_to_u8 X Proto_Tcp then Ok Proto_Tcp
      else if p = proto_to_u8 X Proto_Udp then Ok Proto_Udp
      else if p = proto_to_u8 X Proto_Icmp then Ok Proto_Icmp
      else if p = proto_to_u8 X Proto_IcmpV6 then Ok Proto_IcmpV6
      else Err (InvalidTransportProtocol p))"

fun proto_debug :: "proto \<Rightarrow> string" where
  "proto_debug Proto_Any = ''Any''"
| "proto_debug Proto_Tcp = ''Tcp''"
| "proto_debug Proto_Udp = ''Udp''"
| "proto_debug Proto_Icmp = ''Icmp''"
| "proto_debug Proto_IcmpV6 = ''IcmpV6''"

lemma proto_wire_enum:
  assumes "documented_libc X"
  shows "wire_enum (proto_to_u8 X) (proto_try_from X) InvalidTransportProtocol"
proof unfold_locales
  show "proto_try_from X (proto_to_u8 X x) = Ok x" for x
    using assms by (cases x) (auto simp: proto_try_from_def documented_libc_def)
qed (auto simp: proto_try_from_def split: if_splits)

interpretation protocol: wire_enum "proto_to_u8 macos" "proto_try_from macos" InvalidTransportProtocol
  by (rule proto_wire_enum [OF macos_libc])

section \<open>TCP flags\<close>

definition TH_FIN :: u32 where "TH_FIN = 0x01"
definition TH_SYN :: u32 where "TH_SYN = 0x02"
definition TH_RST :: u32 where "TH_RST = 0x04"
definition TH_PSH :: u32 where "TH_PSH = 0x08"
definition TH_ACK :: u32 where "TH_ACK = 0x10"
definition TH_URG :: u32 where "TH_URG = 0x20"
definition TH_ECE :: u32 where "TH_ECE = 0x40"
definition TH_CWR :: u32 where "TH_CWR = 0x80"

lemmas TH_defs = TH_FIN_def TH_SYN_def TH_RST_def TH_PSH_def TH_ACK_def TH_URG_def TH_ECE_def TH_CWR_def

datatype tcp_flag =
    TcpFlag_Any | TcpFlag_Syn | TcpFlag_Ack | TcpFlag_Fin | TcpFlag_Rst | TcpFlag_Psh
  | TcpFlag_Urg | TcpFlag_Ece | TcpFlag_Cwr

fun tcp_flag_to_u8 :: "tcp_flag \<Rightarrow> u8" where
  "tcp_flag_to_u8 TcpFlag_Any = 0"
| "tcp_flag_to_u8 TcpFlag_Fin = ucast TH_FIN"
| "tcp_flag_to_u8 TcpFlag_Syn = ucast TH_SYN"
| "tcp_flag_to_u8 TcpFlag_Rst = ucast TH_RST"
| "tcp_flag_to_u8 TcpFlag_Psh = ucast TH_PSH"
| "tcp_flag_to_u8 TcpFlag_Ack = ucast TH_ACK"
| "tcp_flag_to_u8 TcpFlag_Urg = ucast TH_URG"
| "tcp_flag_to_u8 TcpFlag_Ece = ucast TH_ECE"
| "tcp_flag_to_u8 TcpFlag_Cwr = ucast TH_CWR"

datatype tcp_flag_set = TcpFlagSet "tcp_flag list"

fun tcp_flag_set_to_u8 :: "tcp_flag_set \<Rightarrow> u8" where
  "tcp_flag_set_to_u8 (TcpFlagSet fs) = foldl (\<lambda>acc x. acc OR tcp_flag_to_u8 x) 0 fs"

record tcp_flags =
  tf_check :: tcp_flag_set
  tf_mask :: tcp_flag_set

definition tcp_flags_new :: "tcp_flag list \<Rightarrow> tcp_flag list \<Rightarrow> tcp_flags" where
  "tcp_flags_new chk msk = \<lparr>tf_check = TcpFlagSet chk, tf_mask = TcpFlagSet msk\<rparr>"

section \<open>Logging\<close>

datatype rule_log = ExcludeMatchingState | IncludeMatchingState | SocketOwner

fun rule_log_to_u8 :: "rule_log \<Rightarrow> u8" where
  "rule_log_to_u8 ExcludeMatchingState = ucast PF_LOG"
| "rule_log_to_u8 IncludeMatchingState = ucast PF_LOG_ALL"
| "rule_log_to_u8 SocketOwner = ucast PF_LOG_SOCKET_LOOKUP"

datatype rule_log_set = RuleLogSet "rule_log list"

definition rule_log_set_new :: "rule_log list \<Rightarrow> rule_log_set" where
  "rule_log_set_new s = RuleLogSet s"

definition rule_log_set_from :: "rule_log \<Rightarrow> rule_log_set" where
  "rule_log_set_from l = RuleLogSet [l]"

fun rule_log_set_to_u8 :: "rule_log_set \<Rightarrow> u8" where
  "rule_log_set_to_u8 (RuleLogSet ls) = foldl (\<lambda>acc x. acc OR rule_log_to_u8 x) 0 ls"

section \<open>State policy\<close>

datatype state_policy =
  StatePolicy_None | StatePolicy_Keep | StatePolicy_Modulate | StatePolicy_SynProxy

fun state_policy_to_u8 :: "state_policy \<Rightarrow> u8" where
  "state_policy_to_u8 StatePolicy_None = 0"
| "state_policy_to_u8 StatePolicy_Keep = ucast PF_STATE_NORMAL"
| "state_policy_to_u8 StatePolicy_Modulate = ucast PF_STATE_MODULATE"
| "state_policy_to_u8 StatePolicy_SynProxy = ucast PF_STATE_SYNPROXY"

fun state_policy_debug :: "state_policy \<Rightarrow> string" where
  "state_policy_debug StatePolicy_None = ''None''"
| "state_policy_debug StatePolicy_Keep = ''Keep''"
| "state_policy_debug StatePolicy_Modulate = ''Modulate''"
| "state_policy_debug StatePolicy_SynProxy = ''SynProxy''"

section \<open>Actions\<close>

datatype drop_action = DropAction_Drop | DropAction_Return | DropAction_ReturnRst | DropAction_ReturnIcmp

datatype filter_rule_action = FilterRuleAction_Pass | FilterRuleAction_Drop drop_action

fun drop_action_to_u32 :: "drop_action \<Rightarrow> u32" where
  "drop_action_to_u32 DropAction_Drop = PFRULE_DROP"
| "drop_action_to_u32 DropAction_Return = PFRULE_RETURN"
| "drop_action_to_u32 DropAction_ReturnRst = PFRULE_RETURNRST"
| "drop_action_to_u32 DropAction_ReturnIcmp = PFRULE_RETURNICMP"

fun rule_flags :: "filter_rule_action \<Rightarrow> u32" where
  "rule_flags FilterRuleAction_Pass = 0"
| "rule_flags (FilterRuleAction_Drop action) = drop_action_to_u32 action"

fun filter_rule_action_to_u8 :: "filter_rule_action \<Rightarrow> u8" where
  "filter_rule_action_to_u8 FilterRuleAction_Pass = ucast (bindgen_ty_7_as_u32 PF_PASS)"
| "filter_rule_action_to_u8 (FilterRuleAction_Drop d) = ucast (bindgen_ty_7_as_u32 PF_DROP)"

datatype redirect_rule_action = RedirectRuleAction_Redirect | RedirectRuleAction_NoRedirect

fun redirect_rule_action_to_u8 :: "redirect_rule_action \<Rightarrow> u8" where
  "redirect_rule_action_to_u8 RedirectRuleAction_Redirect = ucast (bindgen_ty_7_as_u32 PF_RDR)"
| "redirect_rule_action_to_u8 RedirectRuleAction_NoRedirect = ucast (bindgen_ty_7_as_u32 PF_NORDR)"

datatype scrub_rule_action = ScrubRuleAction_Scrub | ScrubRuleAction_NoScrub

fun scrub_rule_action_to_u8 :: "scrub_rule_action \<Rightarrow> u8" where
  "scrub_rule_action_to_u8 ScrubRuleAction_Scrub = ucast (bindgen_ty_7_as_u32 PF_SCRUB)"
| "scrub_rule_action_to_u8 ScrubRuleAction_NoScrub = ucast (bindgen_ty_7_as_u32 PF_NOSCRUB)"

section \<open>Anchors and rulesets\<close>

datatype anchor_kind = AnchorKind_Filter | AnchorKind_Nat | AnchorKind_Redirect | AnchorKind_Scrub

fun anchor_kind_to_u8 :: "anchor_kind \<Rightarrow> u8" where
  "anchor_kind_to_u8 AnchorKind_Filter = ucast (bindgen_ty_7_as_u32 PF_PASS)"
| "anchor_kind_to_u8 AnchorKind_Nat = ucast (bindgen_ty_7_as_u32 PF_NAT)"
| "anchor_kind_to_u8 AnchorKind_Redirect = ucast (bindgen_ty_7_as_u32 PF_RDR)"
| "anchor_kind_to_u8 AnchorKind_Scrub = ucast (bindgen_ty_7_as_u32 PF_SCRUB)"

datatype ruleset_kind = RulesetKind_Filter | RulesetKind_Nat | RulesetKind_Redirect | RulesetKind_Scrub

fun ruleset_kind_to_i32 :: "ruleset_kind \<Rightarrow> i32" where
  "ruleset_kind_to_i32 RulesetKind_Filter = bindgen_ty_8_as_u32 PF_RULESET_FILTER"
| "ruleset_kind_to_i32 RulesetKind_Nat = bindgen_ty_8_as_u32 PF_RULESET_NAT"
| "ruleset_kind_to_i32 RulesetKind_Redirect = bindgen_ty_8_as_u32 PF_RULESET_RDR"
| "ruleset_kind_to_i32 RulesetKind_Scrub = bindgen_ty_8_as_u32 PF_RULESET_SCRUB"

section \<open>Comparison operators of ports and ids\<close>

datatype port_unary_modifier =
    PortUnary_Equal | PortUnary_NotEqual | PortUnary_Greater | PortUnary_Less
  | PortUnary_GreaterOrEqual | PortUnary_LessOrEqual

fun port_unary_modifier_to_u8 :: "port_unary_modifier \<Rightarrow> u8" where
  "port_unary_modifier_to_u8 PortUnary_Equal = ucast (bindgen_ty_9_as_u32 PF_OP_EQ)"
| "port_unary_modifier_to_u8 PortUnary_NotEqual = ucast (bindgen_ty_9_as_u32 PF_OP_NE)"
| "port_unary_modifier_to_u8 PortUnary_Greater = ucast (bindgen_ty_9_as_u32 PF_OP_GT)"
| "port_unary_modifier_to_u8 PortUnary_Less = ucast (bindgen_ty_9_as_u32 PF_OP_LT)"
| "port_unary_modifier_to_u8 PortUnary_GreaterOrEqual = ucast (bindgen_ty_9_as_u32 PF_OP_GE)"
| "port_unary_modifier_to_u8 PortUnary_LessOrEqual = ucast (bindgen_ty_9_as_u32 PF_OP_LE)"

datatype port_range_modifier = PortRange_Exclusive | PortRange_Inclusive | PortRange_Except

fun port_range_modifier_to_u8 :: "port_range_modifier \<Rightarrow> u8" where
  "port_range_modifier_to_u8 PortRange_Exclusive = ucast (bindgen_ty_9_as_u32 PF_OP_IRG)"
| "port_range_modifier_to_u8 PortRange_Inclusive = ucast (bindgen_ty_9_as_u32 PF_OP_RRG)"
| "port_range_modifier_to_u8 PortRange_Except = ucast (bindgen_ty_9_as_u32 PF_OP_XRG)"

datatype id_unary_modifier =
    IdUnary_Equal | IdUnary_NotEqual | IdUnary_Less | IdUnary_LessOrEqual
  | IdUnary_Greater | IdUnary_GreaterOrEqual

fun id_unary_modifier_to_u8 :: "id_unary_modifier \<Rightarrow> u8" where
  "id_unary_modifier_to_u8 IdUnary_Equal = ucast (bindgen_ty_9_as_u32 PF_OP_EQ)"
| "id_unary_modifier_to_u8 IdUnary_NotEqual = ucast (bindgen_ty_9_as_u32 PF_OP_NE)"
| "id_unary_modifier_to_u8 IdUnary_Greater = ucast (bindgen_ty_9_as_u32 PF_OP_GT)"
| "id_unary_modifier_to_u8 IdUnary_Less = ucast (bindgen_ty_9_as_u32 PF_OP_LT)"
| "id_unary_modifier_to_u8 IdUnary_GreaterOrEqual = ucast (bindgen_ty_9_as_u32 PF_OP_GE)"
| "id_unary_modifier_to_u8 IdUnary_LessOrEqual = ucast (bindgen_ty_9_as_u32 PF_OP_LE)"

datatype id_range_modifier = IdRange_Exclusive | IdRange_Inclusive | IdRange_Except

fun id_range_modifier_to_u8 :: "id_range_modifier \<Rightarrow> u8" where
  "id_range_modifier_to_u8 IdRange_Exclusive = ucast (bindgen_ty_9_as_u32 PF_OP_IRG)"
| "id_range_modifier_to_u8 IdRange_Inclusive = ucast (bindgen_ty_9_as_u32 PF_OP_RRG)"
| "id_range_modifier_to_u8 IdRange_Except = ucast (bindgen_ty_9_as_u32 PF_OP_XRG)"

section \<open>ICMP types\<close>

datatype icmp_unreach_code = NetUnreach | HostUnreach | ProtoUnreach | PortUnreach | NeedFrag

fun icmp_unreach_code_as_u8 :: "icmp_unreach_code \<Rightarrow> u8" where
  "icmp_unreach_code_as_u8 NetUnreach = 0"
| "icmp_unreach_code_as_u8 HostUnreach = 1"
| "icmp_unreach_code_as_u8 ProtoUnreach = 2"
| "icmp_unreach_code_as_u8 PortUnreach = 3"
| "icmp_unreach_code_as_u8 NeedFrag = 4"

datatype icmp_timex_code = Transit | Reassembly

fun icmp_timex_code_as_u8 :: "icmp_timex_code \<Rightarrow> u8" where
  "icmp_timex_code_as_u8 Transit = 0"
| "icmp_timex_code_as_u8 Reassembly = 1"

datatype icmp6_type = RouterSol | RouterAdv | NeighbrSol | NeighbrAdv | Redir

fun icmp6_type_as_u8 :: "icmp6_type \<Rightarrow> u8" where
  "icmp6_type_as_u8 RouterSol = 133"
| "icmp6_type_as_u8 RouterAdv = 134"
| "icmp6_type_as_u8 NeighbrSol = 135"
| "icmp6_type_as_u8 NeighbrAdv = 136"
| "icmp6_type_as_u8 Redir = 137"

datatype icmp_type =
  EchoRep | Unreach icmp_unreach_code | EchoReq | Timex icmp_timex_code | Trace | Icmp6 icmp6_type

fun raw_type :: "icmp_type \<Rightarrow> u8" where
  "raw_type EchoRep = 0"
| "raw_type (Unreach c) = 3"
| "raw_type EchoReq = 8"
| "raw_type (Timex c) = 11"
| "raw_type Trace = 30"
| "raw_type (Icmp6 t) = icmp6_type_as_u8 t"

fun raw_code :: "icmp_type \<Rightarrow> u8 option" where
  "raw_code (Unreach c) = Some (icmp_unreach_code_as_u8 c)"
| "raw_code (Timex c) = Some (icmp_timex_code_as_u8 c)"
| "raw_code _ = None"

definition icmp_type_copy_to :: "icmp_type \<Rightarrow> pf_rule \<Rightarrow> pf_rule result" where
  "icmp_type_copy_to t rule =
     obind (checked_add (raw_type t) 1) (\<lambda>ty.
     obind (case raw_code t of Some raw \<Rightarrow> checked_add raw 1 | None \<Rightarrow> Ok 0) (\<lambda>code.
     Ok (rule\<lparr>r_type := ty, r_code := code\<rparr>)))"

section \<open>Flag sets as sets\<close>

lemma bit_foldl_OR:
  "bit (foldl (\<lambda>acc x. acc OR f x) a xs) n \<longleftrightarrow> bit (a :: u8) n \<or> (\<exists>x \<in> set xs. bit (f x) n)"
  by (induction xs arbitrary: a) (auto simp: bit_or_iff)

text \<open>The one bit of each flag; \<open>Any\<close> has none.\<close>

fun tcp_flag_index :: "tcp_flag \<Rightarrow> nat option" where
  "tcp_flag_index TcpFlag_Any = None"
| "tcp_flag_index TcpFlag_Fin = Some 0"
| "tcp_flag_index TcpFlag_Syn = Some 1"
| "tcp_flag_index TcpFlag_Rst = Some 2"
| "tcp_flag_index TcpFlag_Psh = Some 3"
| "tcp_flag_index TcpFlag_Ack = Some 4"
| "tcp_flag_index TcpFlag_Urg = Some 5"
| "tcp_flag_index TcpFlag_Ece = Some 6"
| "tcp_flag_index TcpFlag_Cwr = Some 7"

lemma tcp_flag_power:
  "tcp_flag_to_u8 f = (case tcp_flag_index f of None \<Rightarrow> 0 | Some i \<Rightarrow> push_bit i 1)"
  by (cases f) (simp_all add: TH_defs)

lemma tcp_flag_index_lt: "tcp_flag_index f = Some i \<Longrightarrow> i < 8"
  by (cases f) auto

lemma bit_tcp_flag: "bit (tcp_flag_to_u8 f) n \<longleftrightarrow> tcp_flag_index f = Some n"
  by (auto simp: tcp_flag_power bit_exp_iff dest: tcp_flag_index_lt split: option.splits)

lemma tcp_flag_index_inject:
  "tcp_flag_index f = Some i \<Longrightarrow> tcp_flag_index g = Some i \<Longrightarrow> f = g"
  by (cases f; cases g) auto

lemma bit_tcp_flag_set:
  "bit (tcp_flag_set_to_u8 (TcpFlagSet fs)) n \<longleftrightarrow> (\<exists>f \<in> set fs. tcp_flag_index f = Some n)"
  by (simp add: bit_foldl_OR bit_tcp_flag)

lemma tcp_flag_set_eq:
  "tcp_flag_set_to_u8 (TcpFlagSet fs) = tcp_flag_set_to_u8 (TcpFlagSet gs) \<longleftrightarrow>
     set fs - {TcpFlag_Any} = set gs - {TcpFlag_Any}"
proof
  have sub: "set fs - {TcpFlag_Any} \<subseteq> set gs - {TcpFlag_Any}"
    if eq: "tcp_flag_set_to_u8 (TcpFlagSet fs) = tcp_flag_set_to_u8 (TcpFlagSet gs)" for fs gs
  proof
    fix f assume f: "f \<in> set fs - {TcpFlag_Any}"
    then obtain i where i: "tcp_flag_index f = Some i" by (cases f) auto
    then have "bit (tcp_flag_set_to_u8 (TcpFlagSet gs)) i"
      using f unfolding eq [symmetric] bit_tcp_flag_set by blast
    then obtain g where "g \<in> set gs" "tcp_flag_index g = Some i"
      unfolding bit_tcp_flag_set by blast
    with i f show "f \<in> set gs - {TcpFlag_Any}" using tcp_flag_index_inject by blast
  qed
  assume "tcp_flag_set_to_u8 (TcpFlagSet fs) = tcp_flag_set_to_u8 (TcpFlagSet gs)"
  then show "set fs - {TcpFlag_Any} = set gs - {TcpFlag_Any}"
    using sub [of fs gs] sub [of gs fs] by (metis subset_antisym)
next
  assume eq: "set fs - {TcpFlag_Any} = set gs - {TcpFlag_Any}"
  have "(\<exists>f \<in> set fs. tcp_flag_index f = Some n) \<longleftrightarrow> (\<exists>f \<in> set gs. tcp_flag_index f = Some n)" for n
  proof -
    have drop_any: "(\<exists>f \<in> A. tcp_flag_index f = Some n) \<longleftrightarrow>
        (\<exists>f \<in> A - {TcpFlag_Any}. tcp_flag_index f = Some n)" for A
      by auto
    show ?thesis by (subst (1 2) drop_any) (simp only: eq)
  qed
  then show "tcp_flag_set_to_u8 (TcpFlagSet fs) = tcp_flag_set_to_u8 (TcpFlagSet gs)"
    by (intro bit_eqI) (simp only: bit_tcp_flag_set)
qed

fun rule_log_index :: "rule_log \<Rightarrow> nat" where
  "rule_log_index ExcludeMatchingState = 0"
| "rule_log_index IncludeMatchingState = 1"
| "rule_log_index SocketOwner = 2"

lemma bit_rule_log: "bit (rule_log_to_u8 l) n \<longleftrightarrow> n = rule_log_index l"
proof -
  have "rule_log_to_u8 l = 2 ^ rule_log_index l" "rule_log_index l < 8"
    by (cases l; simp add: pf_constants)+
  then show ?thesis by (auto simp: bit_exp_iff)
qed

lemma rule_log_index_inject: "rule_log_index k = rule_log_index l \<longleftrightarrow> k = l"
  by (cases k; cases l) simp_all

lemma rule_log_set_eq:
  "rule_log_set_to_u8 (RuleLogSet ls) = rule_log_set_to_u8 (RuleLogSet ms) \<longleftrightarrow> set ls = set ms"
proof
  assume eq: "rule_log_set_to_u8 (RuleLogSet ls) = rule_log_set_to_u8 (RuleLogSet ms)"
  have "l \<in> set ls \<longleftrightarrow> l \<in> set ms" for l
  proof -
    have "(\<exists>k \<in> set ls. bit (rule_log_to_u8 k) (rule_log_index l)) \<longleftrightarrow>
        (\<exists>k \<in> set ms. bit (rule_log_to_u8 k) (rule_log_index l))"
      using arg_cong [OF eq, of "\<lambda>w. bit w (rule_log_index l)"] by (simp add: bit_foldl_OR)
    then show ?thesis by (auto simp: bit_rule_log rule_log_index_inject)
  qed
  then show "set ls = set ms" by blast
next
  assume "set ls = set ms"
  then show "rule_log_set_to_u8 (RuleLogSet ls) = rule_log_set_to_u8 (RuleLogSet ms)"
    by (intro bit_eqI) (simp add: bit_foldl_OR)
qed

section \<open>ICMP types in a rule\<close>

lemma raw_type_small: "unat (raw_type t) + 1 < 256"
proof (cases t)
  case (Icmp6 t6)
  then show ?thesis by (cases t6) simp_all
qed simp_all

lemma raw_code_small: "raw_code t = Some c \<Longrightarrow> unat c + 1 < 256"
proof -
  have "unat (icmp_unreach_code_as_u8 u) < 255" for u by (cases u) simp_all
  moreover have "unat (icmp_timex_code_as_u8 x) < 255" for x by (cases x) simp_all
  ultimately show "raw_code t = Some c \<Longrightarrow> unat c + 1 < 256" by (cases t) auto
qed

lemma icmp_type_copy_to_eq:
  "icmp_type_copy_to t rule =
     Ok (rule\<lparr>r_type := raw_type t + 1,
              r_code := (case raw_code t of Some c \<Rightarrow> c + 1 | None \<Rightarrow> 0)\<rparr>)"
  using raw_type_small [of t] raw_code_small [of t]
  by (auto simp: icmp_type_copy_to_def checked_add_def split: option.splits)

lemma icmp_type_inject:
  "raw_type t + 1 = raw_type t' + 1 \<Longrightarrow>
   (case raw_code t of Some c \<Rightarrow> c + 1 | None \<Rightarrow> 0) = (case raw_code t' of Some c \<Rightarrow> c + 1 | None \<Rightarrow> 0) \<Longrightarrow>
   t = t'"
proof -
  have u: "icmp_unreach_code_as_u8 a = icmp_unreach_code_as_u8 b \<Longrightarrow> a = b" for a b
    by (cases a; cases b) simp_all
  have x: "icmp_timex_code_as_u8 a = icmp_timex_code_as_u8 b \<Longrightarrow> a = b" for a b
    by (cases a; cases b) simp_all
  have i: "icmp6_type_as_u8 a = icmp6_type_as_u8 b \<Longrightarrow> a = b" for a b
    by (cases a; cases b) simp_all
  have hi: "icmp6_type_as_u8 a \<notin> {0, 3, 8, 11, 30}" for a
    by (cases a) simp_all
  assume "raw_type t + 1 = raw_type t' + 1"
    "(case raw_code t of Some c \<Rightarrow> c + 1 | None \<Rightarrow> 0) = (case raw_code t' of Some c \<Rightarrow> c + 1 | None \<Rightarrow> 0)"
  then show ?thesis
    using hi by (cases t; cases t') (auto dest: u x i)
qed

section \<open>Properties\<close>

text \<open>
  The byte encodings of directions and address families are decoded to exactly the value that
  was encoded, and a byte that encodes no value is refused with an error that carries it.
\<close>

lemma byte_codecs:
  "(direction_try_from v = Ok x \<longleftrightarrow> v = direction_to_u8 x) \<and>
   (direction_try_from v = Err (InvalidDirection v) \<longleftrightarrow> v \<notin> range direction_to_u8) \<and>
   (addr_family_try_from v = Ok f \<longleftrightarrow> v = addr_family_to_u8 f) \<and>
   (addr_family_try_from v = Err (InvalidAddressFamily v) \<longleftrightarrow> v \<notin> range addr_family_to_u8)"
  by (intro conjI dir.dec_Ok_iff dir.dec_Err_iff afam.dec_Ok_iff afam.dec_Err_iff)

text \<open>
  The same for transport protocols, whose bytes come from the C library and are distinct.
\<close>

lemma proto_codec:
  assumes "documented_libc X"
  shows "(proto_try_from X v = Ok p \<longleftrightarrow> v = proto_to_u8 X p) \<and>
    (proto_try_from X v = Err (InvalidTransportProtocol v) \<longleftrightarrow> v \<notin> range (proto_to_u8 X))"
  using wire_enum.dec_Ok_iff [OF proto_wire_enum [OF assms]]
    wire_enum.dec_Err_iff [OF proto_wire_enum [OF assms]] by blast

lemma proto_codec_witness: "proto_try_from macos 6 = Ok Proto_Tcp"
  using proto_codec [OF macos_libc, of 6 Proto_Tcp] by (simp add: macos_def)

text \<open>
  The byte of a list of TCP flags, and that of a list of log options, depends only on the set of
  flags in it (\<open>Any\<close> adds nothing), and different sets have different bytes.
\<close>

lemma flag_sets:
  "(tcp_flag_set_to_u8 (TcpFlagSet fs) = tcp_flag_set_to_u8 (TcpFlagSet gs) \<longleftrightarrow>
      set fs - {TcpFlag_Any} = set gs - {TcpFlag_Any}) \<and>
   (rule_log_set_to_u8 (RuleLogSet ls) = rule_log_set_to_u8 (RuleLogSet ms) \<longleftrightarrow> set ls = set ms)"
  by (intro conjI tcp_flag_set_eq rule_log_set_eq)

text \<open>
  Writing an ICMP type into a rule never overflows the byte arithmetic (type and code are stored
  plus one, zero meaning any), changes nothing but the two fields, and different ICMP types give
  different rules.
\<close>

lemma icmp_encoding:
  "icmp_type_copy_to t rule = Ok (rule\<lparr>r_type := raw_type t + 1,
     r_code := (case raw_code t of Some c \<Rightarrow> c + 1 | None \<Rightarrow> 0)\<rparr>) \<and>
   (icmp_type_copy_to t rule = icmp_type_copy_to t' rule \<longleftrightarrow> t = t')"
proof -
  have "t = t'" if eq: "icmp_type_copy_to t rule = icmp_type_copy_to t' rule"
  proof (rule icmp_type_inject)
    from eq have e: "rule\<lparr>r_type := raw_type t + 1,
        r_code := (case raw_code t of Some c \<Rightarrow> c + 1 | None \<Rightarrow> 0)\<rparr> =
      rule\<lparr>r_type := raw_type t' + 1,
        r_code := (case raw_code t' of Some c \<Rightarrow> c + 1 | None \<Rightarrow> 0)\<rparr>"
      unfolding icmp_type_copy_to_eq by simp
    from arg_cong [OF e, of r_type] show "raw_type t + 1 = raw_type t' + 1" by simp
    from arg_cong [OF e, of r_code] show "(case raw_code t of Some c \<Rightarrow> c + 1 | None \<Rightarrow> 0) =
      (case raw_code t' of Some c \<Rightarrow> c + 1 | None \<Rightarrow> 0)" by simp
  qed
  then show ?thesis using icmp_type_copy_to_eq by blast
qed

end
