(* ===== verification/Address.thy ===== *)
theory Address
  imports Strings RuleFields
begin

text \<open>
  Addresses and the fields built from them: \<open>rule/ip.rs\<close>, \<open>rule/port.rs\<close>,
  \<open>rule/endpoint.rs\<close>, \<open>rule/uid.rs\<close>, \<open>rule/gid.rs\<close>, \<open>rule/interface.rs\<close>, \<open>rule/route.rs\<close>,
  the address part of \<open>rule/mod.rs\<close> and the address part of \<open>pooladdr.rs\<close>. Each copy into a
  kernel struct is given with its exact result, and is an instance of the contract
  \<open>try_copy\<close>.
\<close>

section \<open>IP addresses and networks\<close>

datatype ip_addr = IpAddr_V4 ipv4addr | IpAddr_V6 ipv6addr

text \<open>A network of the crate \<open>ipnetwork\<close>: what its methods \<open>ip\<close> and \<open>mask\<close> return.\<close>

datatype ip_network = IpNetwork_V4 ipv4addr ipv4addr | IpNetwork_V6 ipv6addr ipv6addr

fun net_ip :: "ip_network \<Rightarrow> ip_addr" where
  "net_ip (IpNetwork_V4 a m) = IpAddr_V4 a"
| "net_ip (IpNetwork_V6 a m) = IpAddr_V6 a"

fun net_mask :: "ip_network \<Rightarrow> ip_addr" where
  "net_mask (IpNetwork_V4 a m) = IpAddr_V4 m"
| "net_mask (IpNetwork_V6 a m) = IpAddr_V6 m"

datatype ip = Ip_Any | Ip_Net ip_network

fun ip_get_af :: "ip \<Rightarrow> addr_family" where
  "ip_get_af Ip_Any = AddrFamily_Any"
| "ip_get_af (Ip_Net (IpNetwork_V4 a m)) = AddrFamily_Ipv4"
| "ip_get_af (Ip_Net (IpNetwork_V6 a m)) = AddrFamily_Ipv6"

definition any_ffi_repr :: "externals \<Rightarrow> ip_network result" where
  "any_ffi_repr X = obind (unwrap (ipv6network_new X 0 0)) (\<lambda>(a, m). Ok (IpNetwork_V6 a m))"

definition ip_from_network :: "ip_network \<Rightarrow> ip" where
  "ip_from_network net = Ip_Net net"

definition ip_from_ipv4 :: "externals \<Rightarrow> ipv4addr \<Rightarrow> ip result" where
  "ip_from_ipv4 X a = obind (unwrap (ipv4network_new X a 32)) (\<lambda>(a, m). Ok (Ip_Net (IpNetwork_V4 a m)))"

definition ip_from_ipv6 :: "externals \<Rightarrow> ipv6addr \<Rightarrow> ip result" where
  "ip_from_ipv6 X a = obind (unwrap (ipv6network_new X a 128)) (\<lambda>(a, m). Ok (Ip_Net (IpNetwork_V6 a m)))"

fun ip_from_addr :: "externals \<Rightarrow> ip_addr \<Rightarrow> ip result" where
  "ip_from_addr X (IpAddr_V4 a) = ip_from_ipv4 X a"
| "ip_from_addr X (IpAddr_V6 a) = ip_from_ipv6 X a"

section \<open>Copying addresses\<close>

definition ipv4_copy_to :: "ipv4addr \<Rightarrow> in_addr \<Rightarrow> in_addr" where
  "ipv4_copy_to a dst = dst\<lparr>s_addr := to_be a\<rparr>"

text \<open>\<open>Ipv6Addr::segments\<close>, and the bytes of a union seen as an array of 16-bit integers.\<close>

definition ipv6_segments :: "ipv6addr \<Rightarrow> u16 list" where
  "ipv6_segments a = map (\<lambda>i. ucast (drop_bit (112 - 16 * i) a)) [0..<8]"

fun u16_view :: "u8 list \<Rightarrow> u16 list" where
  "u16_view (a # b # r) = of_le_bytes [a, b] # u16_view r"
| "u16_view _ = []"

definition ipv6_copy_to :: "ipv6addr \<Rightarrow> in6_addr \<Rightarrow> in6_addr" where
  "ipv6_copy_to a dst =
     (let segments = ipv6_segments a;
          dst_segments = u16_view (u6_addr dst);
          written = map (\<lambda>(dst_segment, segment). to_be segment) (zip dst_segments segments)
            @ drop (length segments) dst_segments
      in dst\<lparr>u6_addr := concat (map le_bytes written)\<rparr>)"

text \<open>The union \<open>pf_addr.pfa\<close>: its member \<open>_v4addr\<close> is the first four bytes, \<open>_v6addr\<close> all.\<close>

fun ip_addr_copy_to :: "ip_addr \<Rightarrow> pf_addr \<Rightarrow> pf_addr" where
  "ip_addr_copy_to (IpAddr_V4 a) dst =
     (let v4addr = ipv4_copy_to a \<lparr>s_addr = of_le_bytes (take 4 (pfa dst))\<rparr>
      in dst\<lparr>pfa := overwrite (le_bytes (s_addr v4addr)) (pfa dst)\<rparr>)"
| "ip_addr_copy_to (IpAddr_V6 a) dst =
     (let v6addr = ipv6_copy_to a \<lparr>u6_addr = pfa dst\<rparr>
      in dst\<lparr>pfa := overwrite (u6_addr v6addr) (pfa dst)\<rparr>)"

definition network_copy_to :: "ip_network \<Rightarrow> pf_addr_wrap \<Rightarrow> pf_addr_wrap" where
  "network_copy_to net dst =
     dst\<lparr>aw_type := ucast (bindgen_ty_17_as_u32 PF_ADDR_ADDRMASK),
         aw_v := (aw_v dst)\<lparr>am_addr := ip_addr_copy_to (net_ip net) (am_addr (aw_v dst)),
                            am_mask := ip_addr_copy_to (net_mask net) (am_mask (aw_v dst))\<rparr>\<rparr>"

fun ip_copy_to :: "externals \<Rightarrow> ip \<Rightarrow> pf_addr_wrap \<Rightarrow> pf_addr_wrap result" where
  "ip_copy_to X Ip_Any dst = obind (any_ffi_repr X) (\<lambda>net. Ok (network_copy_to net dst))"
| "ip_copy_to X (Ip_Net net) dst = Ok (network_copy_to net dst)"

section \<open>Ports\<close>

datatype port =
    Port_Any
  | Port_One u16 port_unary_modifier
  | Port_Range u16 u16 port_range_modifier

definition port_from_u16 :: "u16 \<Rightarrow> port" where
  "port_from_u16 p = Port_One p PortUnary_Equal"

fun port_copy_to_range :: "port \<Rightarrow> pf_port_range \<Rightarrow> pf_port_range result" where
  "port_copy_to_range Port_Any dst =
     Ok (dst\<lparr>pr_op := ucast (bindgen_ty_9_as_u32 PF_OP_NONE), pr_port := (pr_port dst)[0 := 0, 1 := 0]\<rparr>)"
| "port_copy_to_range (Port_One p modifier) dst =
     Ok (dst\<lparr>pr_op := port_unary_modifier_to_u8 modifier,
            pr_port := (pr_port dst)[0 := to_be p, 1 := 0]\<rparr>)"
| "port_copy_to_range (Port_Range start_port end_port modifier) dst =
     (if start_port > end_port then Err InvalidPortRange
      else Ok (dst\<lparr>pr_op := port_range_modifier_to_u8 modifier,
                  pr_port := (pr_port dst)[0 := to_be start_port, 1 := to_be end_port]\<rparr>))"

fun port_copy_to_pool :: "port \<Rightarrow> pf_pool \<Rightarrow> pf_pool result" where
  "port_copy_to_pool Port_Any dst =
     Ok (dst\<lparr>pp_port_op := ucast (bindgen_ty_9_as_u32 PF_OP_NONE),
            pp_proxy_port := (pp_proxy_port dst)[0 := 0, 1 := 0]\<rparr>)"
| "port_copy_to_pool (Port_One p modifier) dst =
     Ok (dst\<lparr>pp_port_op := port_unary_modifier_to_u8 modifier,
            pp_proxy_port := (pp_proxy_port dst)[0 := p, 1 := 0]\<rparr>)"
| "port_copy_to_pool (Port_Range start_port end_port modifier) dst =
     (if start_port > end_port then Err InvalidPortRange
      else Ok (dst\<lparr>pp_port_op := port_range_modifier_to_u8 modifier,
                  pp_proxy_port := (pp_proxy_port dst)[0 := start_port, 1 := end_port]\<rparr>))"

section \<open>Endpoints\<close>

record endpoint =
  ep_ip :: ip
  ep_port :: port

definition endpoint_new :: "ip \<Rightarrow> port \<Rightarrow> endpoint" where
  "endpoint_new i p = \<lparr>ep_ip = i, ep_port = p\<rparr>"

definition endpoint_get_af :: "endpoint \<Rightarrow> addr_family" where
  "endpoint_get_af e = ip_get_af (ep_ip e)"

definition endpoint_from_ip :: "ip \<Rightarrow> endpoint" where
  "endpoint_from_ip i = endpoint_new i Port_Any"

definition endpoint_from_port :: "port \<Rightarrow> endpoint" where
  "endpoint_from_port p = endpoint_new Ip_Any p"

definition endpoint_from_addr :: "externals \<Rightarrow> ip_addr \<Rightarrow> endpoint result" where
  "endpoint_from_addr X a = obind (ip_from_addr X a) (\<lambda>i. Ok (endpoint_from_ip i))"

datatype socket_addr = SocketAddr ip_addr u16

fun endpoint_from_socket_addr :: "externals \<Rightarrow> socket_addr \<Rightarrow> endpoint result" where
  "endpoint_from_socket_addr X (SocketAddr a p) =
     obind (ip_from_addr X a) (\<lambda>i. Ok (endpoint_new i (port_from_u16 p)))"

definition endpoint_copy_to :: "externals \<Rightarrow> endpoint \<Rightarrow> pf_rule_addr \<Rightarrow> pf_rule_addr result" where
  "endpoint_copy_to X e dst =
     obind (ip_copy_to X (ep_ip e) (ra_addr dst)) (\<lambda>addr.
     obind (port_copy_to_range (ep_port e) (ra_xport dst)) (\<lambda>range.
     Ok (dst\<lparr>ra_addr := addr, ra_xport := range\<rparr>)))"

datatype nat_endpoint = NatEndpoint endpoint

fun nat_endpoint_deref :: "nat_endpoint \<Rightarrow> endpoint" where
  "nat_endpoint_deref (NatEndpoint e) = e"

definition nat_endpoint_from_ip :: "ip \<Rightarrow> nat_endpoint" where
  "nat_endpoint_from_ip i = NatEndpoint (endpoint_new i (Port_Range 32768 49151 PortRange_Inclusive))"

definition nat_endpoint_default :: nat_endpoint where
  "nat_endpoint_default = nat_endpoint_from_ip Ip_Any"

datatype nat_rule_action = NatRuleAction_Nat nat_endpoint | NatRuleAction_NoNat

fun nat_rule_action_to_u8 :: "nat_rule_action \<Rightarrow> u8" where
  "nat_rule_action_to_u8 (NatRuleAction_Nat n) = ucast (bindgen_ty_7_as_u32 PF_NAT)"
| "nat_rule_action_to_u8 NatRuleAction_NoNat = ucast (bindgen_ty_7_as_u32 PF_NONAT)"

section \<open>User and group ids\<close>

datatype id =
    Id_Any
  | Id_One u32 id_unary_modifier
  | Id_Range u32 u32 id_range_modifier

definition id_from_u32 :: "u32 \<Rightarrow> id" where
  "id_from_u32 u = Id_One u IdUnary_Equal"

fun uid_copy_to :: "id \<Rightarrow> pf_rule_uid \<Rightarrow> pf_rule_uid" where
  "uid_copy_to Id_Any dst =
     dst\<lparr>ru_uid := (ru_uid dst)[0 := 0], ru_op := ucast (bindgen_ty_9_as_u32 PF_OP_NONE)\<rparr>"
| "uid_copy_to (Id_One u modifier) dst =
     dst\<lparr>ru_uid := (ru_uid dst)[0 := u], ru_op := id_unary_modifier_to_u8 modifier\<rparr>"
| "uid_copy_to (Id_Range start_uid end_uid modifier) dst =
     dst\<lparr>ru_uid := (ru_uid dst)[0 := start_uid, 1 := end_uid], ru_op := id_range_modifier_to_u8 modifier\<rparr>"

fun gid_copy_to :: "id \<Rightarrow> pf_rule_gid \<Rightarrow> pf_rule_gid" where
  "gid_copy_to Id_Any dst =
     dst\<lparr>rg_gid := (rg_gid dst)[0 := 0], rg_op := ucast (bindgen_ty_9_as_u32 PF_OP_NONE)\<rparr>"
| "gid_copy_to (Id_One g modifier) dst =
     dst\<lparr>rg_gid := (rg_gid dst)[0 := g], rg_op := id_unary_modifier_to_u8 modifier\<rparr>"
| "gid_copy_to (Id_Range start_gid end_gid modifier) dst =
     dst\<lparr>rg_gid := (rg_gid dst)[0 := start_gid, 1 := end_gid], rg_op := id_range_modifier_to_u8 modifier\<rparr>"

section \<open>Interfaces\<close>

datatype interface = Interface_Any | Interface_Name rstring

fun interface_copy_to :: "interface \<Rightarrow> i8 list \<Rightarrow> i8 list result" where
  "interface_copy_to Interface_Any dst = map_err InvalidInterfaceName (str_try_copy_to [] dst)"
| "interface_copy_to (Interface_Name name) dst = map_err InvalidInterfaceName (str_try_copy_to name dst)"

text \<open>The bit set \<open>InterfaceFlags\<close> is its bits.\<close>

datatype interface_flags = InterfaceFlags (bits: i32)

definition SKIP :: interface_flags where
  "SKIP = InterfaceFlags 0x0100"

record interface_description =
  id_name :: rstring
  id_flags :: interface_flags

definition interface_description_try_from :: "pfi_kif \<Rightarrow> interface_description result" where
  "interface_description_try_from kif =
     obind (case cstr_until_nul (pfik_name kif) of
              Some c \<Rightarrow> Ok c | None \<Rightarrow> Err (InvalidInterfaceName ''missing nul byte'')) (\<lambda>c.
     obind (if utf8_valid c then Ok c else Err (InvalidInterfaceName ''invalid utf8 encoding'')) (\<lambda>name.
     Ok \<lparr>id_name = name, id_flags = InterfaceFlags (pfik_flags kif)\<rparr>))"

section \<open>Pool addresses and routes\<close>

record pool_addr =
  po_interface :: interface
  po_ip :: ip

definition pool_addr_new :: "interface \<Rightarrow> ip \<Rightarrow> pool_addr" where
  "pool_addr_new iface i = \<lparr>po_interface = iface, po_ip = i\<rparr>"

definition pool_addr_from_interface :: "interface \<Rightarrow> pool_addr" where
  "pool_addr_from_interface iface = \<lparr>po_interface = iface, po_ip = Ip_Any\<rparr>"

definition pool_addr_from_ip :: "ip \<Rightarrow> pool_addr" where
  "pool_addr_from_ip i = \<lparr>po_interface = Interface_Any, po_ip = i\<rparr>"

definition pool_addr_copy_to :: "externals \<Rightarrow> pool_addr \<Rightarrow> pf_pooladdr \<Rightarrow> pf_pooladdr result" where
  "pool_addr_copy_to X p dst =
     obind (interface_copy_to (po_interface p) (pa_ifname dst)) (\<lambda>ifname.
     obind (ip_copy_to X (po_ip p) (pa_addr dst)) (\<lambda>addr.
     Ok (dst\<lparr>pa_ifname := ifname, pa_addr := addr\<rparr>)))"

datatype route = NoRoute | RouteTo pool_addr | ReplyTo pool_addr | DupTo pool_addr

fun get_pool_addr :: "route \<Rightarrow> pool_addr option" where
  "get_pool_addr NoRoute = None"
| "get_pool_addr (RouteTo p) = Some p"
| "get_pool_addr (ReplyTo p) = Some p"
| "get_pool_addr (DupTo p) = Some p"

fun route_to_u8 :: "route \<Rightarrow> u8" where
  "route_to_u8 NoRoute = ucast (bindgen_ty_14_as_u32 PF_NOPFROUTE)"
| "route_to_u8 (RouteTo p) = ucast (bindgen_ty_14_as_u32 PF_ROUTETO)"
| "route_to_u8 (ReplyTo p) = ucast (bindgen_ty_14_as_u32 PF_REPLYTO)"
| "route_to_u8 (DupTo p) = ucast (bindgen_ty_14_as_u32 PF_DUPTO)"

section \<open>The bytes of a copied address\<close>

lemma length_u16_view: "length (u16_view bs) = length bs div 2"
  by (induction bs rule: u16_view.induct) simp_all

lemma length_concat_le_bytes: "length (concat (map le_bytes (ws :: u16 list))) = 2 * length ws"
  by (induction ws) simp_all

lemma length_segments [simp]: "length (ipv6_segments a) = 8"
  by (simp add: ipv6_segments_def)

lemma map_zip_snd: "length xs = length ys \<Longrightarrow> map (\<lambda>(x, y). f y) (zip xs ys) = map f ys"
  by (induction xs ys rule: list_induct2) simp_all

lemma concat_be_segments: "concat (map be_bytes (ipv6_segments a)) = be_bytes a"
proof -
  have seg: "ucast (drop_bit k (ucast (drop_bit n a) :: u16)) = (ucast (drop_bit (n + k) a) :: u8)"
    if "k \<le> 8" for n k
  proof (rule bit_word_eqI)
    fix j assume "j < LENGTH(8)"
    then show "bit (ucast (drop_bit k (ucast (drop_bit n a) :: u16)) :: u8) j
        = bit (ucast (drop_bit (n + k) a) :: u8) j"
      using that by (simp add: bit_ucast_iff bit_drop_bit_eq ac_simps)
  qed
  have upt: "[0..<8] = [0, 1, 2, 3, 4, 5, 6, 7::nat]"
    "[0..<16] = [0, 1, 2, 3, 4, 5, 6, 7, 8, 9, 10, 11, 12, 13, 14, 15::nat]"
    "[0..<2] = [0, 1::nat]"
    by (simp_all add: upt_rec)
  have seg0: "ucast (drop_bit 8 (ucast a :: u16)) = (ucast (drop_bit 8 a) :: u8)"
    "ucast (ucast (drop_bit n a) :: u16) = (ucast (drop_bit n a) :: u8)"
    "ucast (ucast a :: u16) = (ucast a :: u8)" for n
    using seg [of 8 0] seg [of 0 n] seg [of 0 0] by simp_all
  show ?thesis
    by (simp add: be_bytes_def le_bytes_def ipv6_segments_def upt seg seg0 del: upt_Suc)
qed

lemma ipv6_copy_to_bytes:
  assumes "length (u6_addr d) = 16"
  shows "u6_addr (ipv6_copy_to a d) = be_bytes a"
proof -
  have "map (\<lambda>(d, s). to_be s) (zip (u16_view (u6_addr d)) (ipv6_segments a))
      = map to_be (ipv6_segments a)"
    using assms by (intro map_zip_snd) (simp add: length_u16_view)
  then have "u6_addr (ipv6_copy_to a d) = concat (map le_bytes (map to_be (ipv6_segments a)))"
    using assms by (simp add: ipv6_copy_to_def Let_def length_u16_view del: map_map)
  also have "map le_bytes (map to_be (ipv6_segments a)) = map be_bytes (ipv6_segments a)"
    by (simp add: le_bytes_to_be)
  finally show ?thesis by (simp add: concat_be_segments)
qed

lemma pfa_copy_v4:
  "pf_addr_wf d \<Longrightarrow> pfa (ip_addr_copy_to (IpAddr_V4 a) d) = be_bytes a @ drop 4 (pfa d)"
  by (simp add: pf_addr_wf_def ipv4_copy_to_def le_bytes_to_be overwrite_fits)

lemma pfa_copy_v6:
  "pf_addr_wf d \<Longrightarrow> pfa (ip_addr_copy_to (IpAddr_V6 a) d) = be_bytes a"
  by (simp add: pf_addr_wf_def ipv6_copy_to_bytes overwrite_same_length)

lemma ip_addr_copy_wf: "pf_addr_wf d \<Longrightarrow> pf_addr_wf (ip_addr_copy_to a d)"
  by (cases a) (simp_all add: pf_addr_wf_def)

lemma pf_addr_eqI: "pfa x = pfa y \<Longrightarrow> x = (y :: pf_addr)"
  by (cases x; cases y) simp

lemma ip_addr_copy_idem:
  assumes "pf_addr_wf d"
  shows "ip_addr_copy_to a (ip_addr_copy_to a d) = ip_addr_copy_to a d"
proof (rule pf_addr_eqI)
  show "pfa (ip_addr_copy_to a (ip_addr_copy_to a d)) = pfa (ip_addr_copy_to a d)"
    using assms ip_addr_copy_wf [OF assms, of a]
    by (cases a) (simp_all only: pfa_copy_v4 pfa_copy_v6, simp_all)
qed

lemma network_copy_wf: "pf_addr_wrap_wf d \<Longrightarrow> pf_addr_wrap_wf (network_copy_to n d)"
  by (simp add: network_copy_to_def pf_addr_wrap_wf_def pf_addr_mask_wf_def ip_addr_copy_wf)

lemma network_copy_idem:
  "pf_addr_wrap_wf d \<Longrightarrow> network_copy_to n (network_copy_to n d) = network_copy_to n d"
  by (simp add: network_copy_to_def pf_addr_wrap_wf_def pf_addr_mask_wf_def ip_addr_copy_idem)

section \<open>Every copy obeys the contract\<close>

interpretation ip_cp: try_copy "ip_copy_to X" pf_addr_wrap_wf for X
proof unfold_locales
  fix d x d' assume "pf_addr_wrap_wf d" "ip_copy_to X x d = Ok d'"
  then show "pf_addr_wrap_wf d'" by (cases x) (auto simp: outcome_simps network_copy_wf)
next
  fix d1 d2 x show "forget (ip_copy_to X x d1) = forget (ip_copy_to X x d2)"
    by (cases x) (auto intro: forget_obind_cong)
next
  fix d x d' assume "pf_addr_wrap_wf d" "ip_copy_to X x d = Ok d'"
  then show "ip_copy_to X x d' = Ok d'" by (cases x) (auto simp: outcome_simps network_copy_idem)
qed

interpretation port_range_cp: try_copy port_copy_to_range pf_port_range_wf
proof unfold_locales
  fix d x d' assume "pf_port_range_wf d" "port_copy_to_range x d = Ok d'"
  then show "pf_port_range_wf d'" by (cases x) (auto simp: pf_port_range_wf_def split: if_splits)
next
  fix d1 d2 x show "forget (port_copy_to_range x d1) = forget (port_copy_to_range x d2)"
    by (cases x) auto
next
  fix d x d' assume "pf_port_range_wf d" "port_copy_to_range x d = Ok d'"
  then show "port_copy_to_range x d' = Ok d'"
    by (cases x) (auto split: if_splits)
qed

interpretation port_pool_cp: try_copy port_copy_to_pool pf_pool_wf
proof unfold_locales
  fix d x d' assume "pf_pool_wf d" "port_copy_to_pool x d = Ok d'"
  then show "pf_pool_wf d'" by (cases x) (auto simp: pf_pool_wf_def split: if_splits)
next
  fix d1 d2 x show "forget (port_copy_to_pool x d1) = forget (port_copy_to_pool x d2)"
    by (cases x) auto
next
  fix d x d' assume "pf_pool_wf d" "port_copy_to_pool x d = Ok d'"
  then show "port_copy_to_pool x d' = Ok d'"
    by (cases x) (auto split: if_splits)
qed

interpretation endpoint_cp: try_copy "endpoint_copy_to X" pf_rule_addr_wf for X
proof unfold_locales
  fix d x d' assume "pf_rule_addr_wf d" "endpoint_copy_to X x d = Ok d'"
  then show "pf_rule_addr_wf d'"
    by (auto simp: endpoint_copy_to_def pf_rule_addr_wf_def outcome_simps
        intro: ip_cp.copy_wf port_range_cp.copy_wf)
next
  fix d1 d2 x assume "pf_rule_addr_wf d1" "pf_rule_addr_wf d2"
  then show "forget (endpoint_copy_to X x d1) = forget (endpoint_copy_to X x d2)"
    unfolding endpoint_copy_to_def pf_rule_addr_wf_def
    by (intro forget_obind_cong ip_cp.copy_uniform port_range_cp.copy_uniform) auto
next
  fix d x d' assume "pf_rule_addr_wf d" "endpoint_copy_to X x d = Ok d'"
  then show "endpoint_copy_to X x d' = Ok d'"
    by (auto simp: endpoint_copy_to_def pf_rule_addr_wf_def outcome_simps
        ip_cp.copy_idem port_range_cp.copy_idem)
qed

interpretation interface_cp: try_copy interface_copy_to "\<lambda>d. length d = n" for n
proof unfold_locales
  fix d x d' assume "length d = n" "interface_copy_to x d = Ok d'"
  then show "length d' = n" by (cases x) (auto simp: outcome_simps)
next
  fix d1 d2 :: "i8 list" and x assume "length d1 = n" "length d2 = n"
  then show "forget (interface_copy_to x d1) = forget (interface_copy_to x d2)"
    by (cases x; simp only: interface_copy_to.simps; intro forget_map_err_cong forget_str_try_copy_to)
      simp_all
next
  fix d x d' assume "length d = n" "interface_copy_to x d = Ok d'"
  then show "interface_copy_to x d' = Ok d'" by (cases x) (auto simp: outcome_simps)
qed

lemma length_interface_copy: "interface_copy_to i d = Ok d' \<Longrightarrow> length d' = length d"
  by (rule interface_cp.copy_wf [OF refl])

lemma interface_copy_idem: "interface_copy_to i d = Ok d' \<Longrightarrow> interface_copy_to i d' = Ok d'"
  by (rule interface_cp.copy_idem [OF refl])

interpretation pool_addr_cp: try_copy "pool_addr_copy_to X" pf_pooladdr_wf for X
proof unfold_locales
  fix d x d' assume "pf_pooladdr_wf d" "pool_addr_copy_to X x d = Ok d'"
  then show "pf_pooladdr_wf d'"
    by (auto simp: pool_addr_copy_to_def pf_pooladdr_wf_def outcome_simps
        dest: ip_cp.copy_wf length_interface_copy)
next
  fix d1 d2 x assume "pf_pooladdr_wf d1" "pf_pooladdr_wf d2"
  then show "forget (pool_addr_copy_to X x d1) = forget (pool_addr_copy_to X x d2)"
    unfolding pool_addr_copy_to_def pf_pooladdr_wf_def
    by (intro forget_obind_cong interface_cp.copy_uniform [where n = 16] ip_cp.copy_uniform) auto
next
  fix d x d' assume "pf_pooladdr_wf d" "pool_addr_copy_to X x d = Ok d'"
  then show "pool_addr_copy_to X x d' = Ok d'"
    by (auto simp: pool_addr_copy_to_def pf_pooladdr_wf_def outcome_simps
        ip_cp.copy_idem dest: interface_copy_idem)
qed

text \<open>The lower and the upper bound of a port specification.\<close>

fun port_bounds :: "port \<Rightarrow> u16 \<times> u16" where
  "port_bounds Port_Any = (0, 0)"
| "port_bounds (Port_One p m) = (p, 0)"
| "port_bounds (Port_Range a b m) = (a, b)"

lemma list_update_pair: "length xs = 2 \<Longrightarrow> xs[0 := a, Suc 0 := b] = [a, b]"
  by (cases xs; cases "tl xs") auto

lemma to_be_zero: "to_be (0 :: u16) = 0"
proof -
  have upt: "[0..<2] = [0, 1 :: nat]" by (simp add: upt_rec)
  show ?thesis by (simp add: to_be_def le_bytes_def upt)
qed

text \<open>The ports of a copied range, in network order, and of a copied pool, in host order.\<close>

lemma port_range_copied:
  "pf_port_range_wf d \<Longrightarrow> port_copy_to_range p d = Ok d' \<Longrightarrow>
     pr_port d' = [to_be (fst (port_bounds p)), to_be (snd (port_bounds p))]"
  by (cases p) (auto simp: pf_port_range_wf_def list_update_pair to_be_zero split: if_splits)

lemma port_pool_copied:
  "pf_pool_wf d \<Longrightarrow> port_copy_to_pool p d = Ok d' \<Longrightarrow>
     pp_proxy_port d' = [fst (port_bounds p), snd (port_bounds p)]"
  by (cases p) (auto simp: pf_pool_wf_def list_update_pair split: if_splits)

lemma port_range_copied_bytes:
  "pf_port_range_wf d \<Longrightarrow> port_copy_to_range p d = Ok d' \<Longrightarrow>
     concat (map le_bytes (pr_port d')) = be_bytes (fst (port_bounds p)) @ be_bytes (snd (port_bounds p))"
  by (simp add: port_range_copied le_bytes_to_be)

section \<open>Properties\<close>

text \<open>
  Copying an address stores its bytes in network order: an IPv4 address in the first four bytes
  of the union, the rest as it was, an IPv6 address in all sixteen, although it is written as
  eight 16-bit segments.
\<close>

lemma address_bytes:
  assumes "pf_addr_wf d"
  shows "pfa (ip_addr_copy_to a d) =
    (case a of IpAddr_V4 v \<Rightarrow> be_bytes v @ drop 4 (pfa d) | IpAddr_V6 v \<Rightarrow> be_bytes v)"
  using assms by (cases a) (simp_all only: pfa_copy_v4 pfa_copy_v6 ip_addr.case)

lemma address_bytes_witness:
  "take 4 (pfa (ip_addr_copy_to (IpAddr_V4 0x7F000001) pf_addr_zeroed)) = [127, 0, 0, 1]"
proof -
  have upt: "[0..<4] = [0, 1, 2, 3::nat]" by (simp add: upt_rec)
  have "be_bytes (0x7F000001 :: u32) = [127, 0, 0, 1]"
    by (simp add: be_bytes_def le_bytes_def upt drop_bit_eq_div)
  then show ?thesis using address_bytes [OF pf_addr_zeroed_wf, of "IpAddr_V4 0x7F000001"] by simp
qed

text \<open>
  The ports of a rule are stored in network byte order, those of a translation pool in host
  order; a range with its bounds out of order is refused with \<open>InvalidPortRange\<close> by both, and
  nothing else is.
\<close>

lemma port_byte_order:
  assumes "pf_port_range_wf d" and "pf_pool_wf q"
  shows "case (port_copy_to_range p d, port_copy_to_pool p q) of
      (Ok d', Ok q') \<Rightarrow>
        concat (map le_bytes (pr_port d')) = be_bytes (fst (port_bounds p)) @ be_bytes (snd (port_bounds p)) \<and>
        pp_proxy_port q' = [fst (port_bounds p), snd (port_bounds p)] \<and> pp_port_op q' = pr_op d'
    | (Err e, Err e') \<Rightarrow> e = InvalidPortRange \<and> e' = InvalidPortRange \<and>
        (\<exists>a b m. p = Port_Range a b m \<and> a > b)
    | _ \<Rightarrow> False"
proof (cases "port_copy_to_range p d")
  case (Ok d')
  then obtain q' where q': "port_copy_to_pool p q = Ok q'" "pp_port_op q' = pr_op d'"
    by (cases p) (auto split: if_splits)
  then show ?thesis
    using Ok port_range_copied_bytes [OF assms(1) Ok] port_pool_copied [OF assms(2) q'(1)] by simp
next
  case (Err e)
  then show ?thesis by (cases p) (auto split: if_splits)
next
  case Panic
  then show ?thesis by (cases p) (auto split: if_splits)
qed

lemma port_byte_order_witness:
  "case (port_copy_to_range (Port_One 443 PortUnary_Equal) pf_port_range_zeroed,
      port_copy_to_pool (Port_One 443 PortUnary_Equal) pf_pool_zeroed) of
     (Ok d, Ok q) \<Rightarrow> concat (map le_bytes (pr_port d)) = [1, 187, 0, 0] \<and> pp_proxy_port q = [443, 0]
   | _ \<Rightarrow> False"
proof -
  have "be_bytes (443 :: u16) = [1, 187]" "be_bytes (0 :: u16) = [0, 0]"
    by (simp_all add: be_bytes_def le_bytes_def upt_rec drop_bit_eq_div)
  then show ?thesis
    using port_byte_order [OF pf_port_range_zeroed_wf pf_pool_zeroed_wf, of "Port_One 443 PortUnary_Equal"]
    by simp
qed

end
