(* ===== verification/PoolAddrList.thy ===== *)
theory PoolAddrList
  imports Address
begin

text \<open>
  \<open>PoolAddrList\<close> of \<open>pooladdr.rs\<close>: the array of kernel pool addresses made from a list of
  addresses, and the C tail queue over it. The functions that link the queue work on copies
  of the elements (\<open>pf_pooladdr\<close> is \<open>Copy\<close>, so \<open>let mut elem1 = pool[i - 1]\<close> copies),
  which the model keeps apart: a step returns its local variables beside the array. The
  lemmas give the array in full and show where the pointers of the queue lead.
\<close>

record pool_addr_list =
  pal_list :: pf_palist
  pal_pool :: "pf_pooladdr list"

fun init_pool_from :: "externals \<Rightarrow> pool_addr list \<Rightarrow> pf_pooladdr list \<Rightarrow> pf_pooladdr list result" where
  "init_pool_from X [] pool = Ok pool"
| "init_pool_from X (a # as) pool =
     obind (pool_addr_copy_to X a pf_pooladdr_zeroed) (\<lambda>p. init_pool_from X as (pool @ [p]))"

definition init_pool :: "externals \<Rightarrow> pool_addr list \<Rightarrow> pf_pooladdr list result" where
  "init_pool X pool_addrs = init_pool_from X pool_addrs []"

text \<open>One iteration of \<open>link_elements\<close>: the locals \<open>elem1\<close>, \<open>elem2\<close>, and the array.\<close>

definition link_step :: "pf_pooladdr list \<Rightarrow> nat \<Rightarrow> (pf_pooladdr \<times> pf_pooladdr) \<times> pf_pooladdr list" where
  "link_step pool i =
     (let elem1 = pool ! (i - 1);
          elem2 = pool ! i;
          elem1 = elem1\<lparr>pa_entries := (pa_entries elem1)\<lparr>tqe_next := PTo (Local ''elem2'')\<rparr>\<rparr>;
          elem2 = elem2\<lparr>pa_entries := (pa_entries elem2)\<lparr>tqe_prev := PPNext (Local ''elem1'')\<rparr>\<rparr>
      in ((elem1, elem2), pool))"

definition link_elements :: "pf_pooladdr list \<Rightarrow> pf_pooladdr list" where
  "link_elements pool = foldl (\<lambda>p i. snd (link_step p i)) pool [1..<length pool]"

text \<open>The locals of \<open>create_palist\<close> after its assignments, and the list head it returns.\<close>

definition create_palist_frame :: "pf_pooladdr list \<Rightarrow> (pf_pooladdr \<times> pf_pooladdr) option \<times> pf_palist" where
  "create_palist_frame pool =
     (let list = pf_palist_zeroed in
      if pool \<noteq> [] then
        let first_elem = pool ! 0;
            last_elem = pool ! (length pool - 1);
            list = list\<lparr>tqh_first := PTo (Local ''first_elem'')\<rparr>;
            first_elem = first_elem\<lparr>pa_entries := (pa_entries first_elem)\<lparr>tqe_prev := PPFirst ''list''\<rparr>\<rparr>;
            last_elem = last_elem\<lparr>pa_entries := (pa_entries last_elem)\<lparr>tqe_next := PNull\<rparr>\<rparr>;
            list = list\<lparr>tqh_last := PPNext (Local ''last_elem'')\<rparr>
        in (Some (first_elem, last_elem), list)
      else (None, list\<lparr>tqh_first := PNull, tqh_last := PPFirst ''list''\<rparr>))"

definition create_palist :: "pf_pooladdr list \<Rightarrow> pf_palist" where
  "create_palist pool = snd (create_palist_frame pool)"

definition pool_addr_list_new :: "externals \<Rightarrow> pool_addr list \<Rightarrow> pool_addr_list result" where
  "pool_addr_list_new X pool_addrs =
     obind (init_pool X pool_addrs) (\<lambda>pool.
     let pool = link_elements pool;
         list = create_palist pool
     in Ok \<lparr>pal_list = list, pal_pool = pool\<rparr>)"

definition to_palist :: "pool_addr_list \<Rightarrow> pf_palist" where
  "to_palist l = pal_list l"

definition to_pool_addr_list :: "externals \<Rightarrow> ip \<Rightarrow> pool_addr_list result" where
  "to_pool_addr_list X i = pool_addr_list_new X [pool_addr_from_ip i]"

section \<open>The array\<close>

lemma init_pool_from_Ok_iff:
  "init_pool_from X as pool = Ok pool' \<longleftrightarrow>
     (\<exists>ps. pool' = pool @ ps \<and>
        list_all2 (\<lambda>a p. pool_addr_copy_to X a pf_pooladdr_zeroed = Ok p) as ps)"
proof (induction as arbitrary: pool)
  case Nil
  then show ?case by auto
next
  case (Cons a as)
  show ?case by (auto simp: outcome_simps Cons.IH list_all2_Cons1)
qed

lemma init_pool_from_error:
  "init_pool_from X as pool = Err e \<Longrightarrow> \<exists>a \<in> set as. \<exists>e'. pool_addr_copy_to X a pf_pooladdr_zeroed = Err e'"
  "init_pool_from X as pool = Panic \<Longrightarrow> \<exists>a \<in> set as. pool_addr_copy_to X a pf_pooladdr_zeroed = Panic"
  by (induction as arbitrary: pool) (auto simp: outcome_simps)

lemma init_pool_Ok_iff:
  "init_pool X as = Ok pool \<longleftrightarrow>
     list_all2 (\<lambda>a p. pool_addr_copy_to X a pf_pooladdr_zeroed = Ok p) as pool"
  by (simp add: init_pool_def init_pool_from_Ok_iff)

lemma snd_link_step [simp]: "snd (link_step pool i) = pool"
  by (simp add: link_step_def Let_def)

lemma link_elements_eq: "link_elements pool = pool"
proof -
  have "foldl (\<lambda>p i. snd (link_step p i)) pool is = pool" for "is"
    by (induction "is") simp_all
  then show ?thesis by (simp add: link_elements_def)
qed

lemma create_palist_eq:
  "create_palist pool =
     (if pool = [] then \<lparr>tqh_first = PNull, tqh_last = PPFirst ''list''\<rparr>
      else \<lparr>tqh_first = PTo (Local ''first_elem''), tqh_last = PPNext (Local ''last_elem'')\<rparr>)"
  by (simp add: create_palist_def create_palist_frame_def Let_def pf_palist_zeroed_def)

lemma pool_addr_list_new_Ok_iff:
  "pool_addr_list_new X as = Ok l \<longleftrightarrow>
     list_all2 (\<lambda>a p. pool_addr_copy_to X a pf_pooladdr_zeroed = Ok p) as (pal_pool l) \<and>
     pal_list l = create_palist (pal_pool l)"
  by (cases l) (auto simp: pool_addr_list_new_def outcome_simps Let_def init_pool_Ok_iff link_elements_eq)

lemma pool_addr_copy_entries:
  "pool_addr_copy_to X a d = Ok p \<Longrightarrow> pa_entries p = pa_entries d"
  by (auto simp: pool_addr_copy_to_def outcome_simps)

lemma pf_pooladdr_zeroed_entries [simp]: "pa_entries pf_pooladdr_zeroed = pf_pooladdr_entries_zeroed"
  by (simp add: pf_pooladdr_zeroed_def)

lemma pool_addr_copy_wf:
  "pool_addr_copy_to X a pf_pooladdr_zeroed = Ok p \<Longrightarrow> pf_pooladdr_wf p"
  by (rule pool_addr_cp.copy_wf [OF pf_pooladdr_zeroed_wf])

section \<open>The list of a single address\<close>

lemma ip_copy_documented:
  assumes "documented_ipnetwork X"
  shows "\<exists>w'. ip_copy_to X i w = Ok w'"
  using assms by (cases i) (simp_all add: any_ffi_repr_def documented_ipnetwork_def)

lemma to_pool_addr_list_ok:
  assumes "documented_ipnetwork X"
  shows "\<exists>l. to_pool_addr_list X i = Ok l \<and>
    to_palist l = \<lparr>tqh_first = PTo (Local ''first_elem''), tqh_last = PPNext (Local ''last_elem'')\<rparr>"
proof -
  obtain w where w: "ip_copy_to X i (pa_addr pf_pooladdr_zeroed) = Ok w"
    using ip_copy_documented [OF assms] by blast
  have "interface_copy_to Interface_Any (pa_ifname pf_pooladdr_zeroed) =
      Ok (nul_terminated [] (pa_ifname pf_pooladdr_zeroed))"
    by (simp add: pf_pooladdr_zeroed_def)
  then show ?thesis
    by (simp add: to_pool_addr_list_def pool_addr_list_new_def init_pool_def pool_addr_from_ip_def
        pool_addr_copy_to_def w to_palist_def link_elements_eq create_palist_eq Let_def)
qed

section \<open>Properties\<close>

text \<open>
  C36. The array of a pool has one well-formed element for each address, in order. But no element is
  linked to another: the assignments of \<open>link_elements\<close> go to copies, every link of the array is
  still null, and the list head that is handed to the kernel leads to variables of
  \<open>create_palist\<close>, which has returned, and never into the retained array.
\<close>

theorem pool_list_unlinked:
  "case pool_addr_list_new X as of
     Ok l \<Rightarrow>
       list_all2 (\<lambda>a p. pool_addr_copy_to X a pf_pooladdr_zeroed = Ok p \<and> pf_pooladdr_wf p \<and>
         pa_entries p = pf_pooladdr_entries_zeroed) as (pal_pool l) \<and>
       to_palist l = (if as = [] then \<lparr>tqh_first = PNull, tqh_last = PPFirst ''list''\<rparr>
         else \<lparr>tqh_first = PTo (Local ''first_elem''), tqh_last = PPNext (Local ''last_elem'')\<rparr>)
   | Err e \<Rightarrow> (\<exists>a \<in> set as. \<exists>e'. pool_addr_copy_to X a pf_pooladdr_zeroed = Err e')
   | Panic \<Rightarrow> (\<exists>a \<in> set as. pool_addr_copy_to X a pf_pooladdr_zeroed = Panic)"
proof (cases "pool_addr_list_new X as")
  case (Ok l)
  then have all: "list_all2 (\<lambda>a p. pool_addr_copy_to X a pf_pooladdr_zeroed = Ok p) as (pal_pool l)"
    and head: "pal_list l = create_palist (pal_pool l)"
    by (simp_all add: pool_addr_list_new_Ok_iff)
  have "pal_pool l = [] \<longleftrightarrow> as = []" using list_all2_lengthD [OF all] by auto
  moreover have "list_all2 (\<lambda>a p. pool_addr_copy_to X a pf_pooladdr_zeroed = Ok p \<and> pf_pooladdr_wf p \<and>
      pa_entries p = pf_pooladdr_entries_zeroed) as (pal_pool l)"
    using all by (rule list_all2_mono)
      (auto dest: pool_addr_copy_wf pool_addr_copy_entries)
  ultimately show ?thesis using Ok head by (simp add: to_palist_def create_palist_eq)
next
  case (Err e)
  then have "init_pool X as = Err e" by (auto simp: pool_addr_list_new_def outcome_simps Let_def)
  then show ?thesis using Err init_pool_from_error(1) by (simp add: init_pool_def)
next
  case Panic
  then have "init_pool X as = Panic" by (auto simp: pool_addr_list_new_def outcome_simps Let_def)
  then show ?thesis using Panic init_pool_from_error(2) by (simp add: init_pool_def)
qed

end
