(* ===== verification/Rules.thy ===== *)
theory Rules
  imports PoolAddrList
begin

text \<open>
  The four kinds of rules (\<open>rule/mod.rs\<close>): their fields, the address family they resolve to,
  the check of the state policy, and their copy into a \<open>pf_rule\<close> of the kernel, each step in
  the order of the code with its early returns. The lemmas characterise when a copy
  succeeds and the struct it gives, and each copy is an instance of \<open>try_copy\<close>.
\<close>

record filter_rule =
  fr_action :: filter_rule_action
  fr_direction :: direction
  fr_quick :: bool
  fr_log :: rule_log_set
  fr_route :: route
  fr_keep_state :: state_policy
  fr_interface :: interface
  fr_proto :: proto
  fr_af :: addr_family
  fr_from :: endpoint
  fr_to :: endpoint
  fr_tcp_flags :: tcp_flags
  fr_label :: rstring
  fr_user :: id
  fr_group :: id
  fr_icmp_type :: "icmp_type option"

text \<open>The rule that the builder makes when only the mandatory field is set.\<close>

definition filter_rule_default :: "filter_rule_action \<Rightarrow> filter_rule" where
  "filter_rule_default action =
     \<lparr>fr_action = action, fr_direction = Direction_Any, fr_quick = False, fr_log = RuleLogSet [],
      fr_route = NoRoute, fr_keep_state = StatePolicy_None, fr_interface = Interface_Any,
      fr_proto = Proto_Any, fr_af = AddrFamily_Any,
      fr_from = endpoint_new Ip_Any Port_Any, fr_to = endpoint_new Ip_Any Port_Any,
      fr_tcp_flags = tcp_flags_new [] [], fr_label = [], fr_user = Id_Any, fr_group = Id_Any,
      fr_icmp_type = None\<rparr>"

fun compatible_af :: "addr_family \<Rightarrow> addr_family \<Rightarrow> addr_family result" where
  "compatible_af af1 af2 =
     (if af1 = af2 then Ok af1
      else if af2 = AddrFamily_Any then Ok af1
      else if af1 = AddrFamily_Any then Ok af2
      else Err (InvalidRuleCombination
        (''AddrFamily '' @ addr_family_display af1 @ '' and '' @ addr_family_display af2 @
         '' are incompatible'')))"

definition filter_rule_get_af :: "filter_rule \<Rightarrow> addr_family result" where
  "filter_rule_get_af r =
     obind (compatible_af (endpoint_get_af (fr_from r)) (endpoint_get_af (fr_to r))) (\<lambda>endpoint_af.
     compatible_af (fr_af r) endpoint_af)"

definition get_route :: "filter_rule \<Rightarrow> route" where
  "get_route r = fr_route r"

definition validate_state_policy :: "filter_rule \<Rightarrow> state_policy result" where
  "validate_state_policy r =
     (case (fr_keep_state r, fr_proto r) of
        (StatePolicy_None, _) \<Rightarrow> Ok (fr_keep_state r)
      | (StatePolicy_Keep, _) \<Rightarrow> Ok (fr_keep_state r)
      | (StatePolicy_Modulate, Proto_Tcp) \<Rightarrow> Ok (fr_keep_state r)
      | (StatePolicy_SynProxy, Proto_Tcp) \<Rightarrow> Ok (fr_keep_state r)
      | (sp, pr) \<Rightarrow> Err (InvalidRuleCombination
          (''StatePolicy '' @ state_policy_debug sp @ '' and protocol '' @ proto_debug pr @
           '' are incompatible'')))"

definition filter_rule_copy_to :: "externals \<Rightarrow> filter_rule \<Rightarrow> pf_rule \<Rightarrow> pf_rule result" where
  "filter_rule_copy_to X r rule =
    (let rule = rule\<lparr>r_action := filter_rule_action_to_u8 (fr_action r),
                     r_direction := direction_to_u8 (fr_direction r),
                     r_quick := of_bool (fr_quick r),
                     r_log := rule_log_set_to_u8 (fr_log r),
                     r_rt := route_to_u8 (fr_route r)\<rparr> in
     obind (validate_state_policy r) (\<lambda>policy.
     let rule = rule\<lparr>r_keep_state := state_policy_to_u8 policy,
                     r_flags := tcp_flag_set_to_u8 (tf_check (fr_tcp_flags r)),
                     r_flagset := tcp_flag_set_to_u8 (tf_mask (fr_tcp_flags r)),
                     r_rule_flag := rule_flags (fr_action r)\<rparr> in
     obind (interface_copy_to (fr_interface r) (r_ifname rule)) (\<lambda>ifname.
     let rule = rule\<lparr>r_ifname := ifname, r_proto := proto_to_u8 X (fr_proto r)\<rparr> in
     obind (filter_rule_get_af r) (\<lambda>af.
     let rule = rule\<lparr>r_af := addr_family_to_u8 af\<rparr> in
     obind (endpoint_copy_to X (fr_from r) (r_src rule)) (\<lambda>src.
     let rule = rule\<lparr>r_src := src\<rparr> in
     obind (endpoint_copy_to X (fr_to r) (r_dst rule)) (\<lambda>dst.
     let rule = rule\<lparr>r_dst := dst\<rparr> in
     obind (map_err InvalidLabel (str_try_copy_to (fr_label r) (r_label rule))) (\<lambda>label.
     let rule = rule\<lparr>r_label := label,
                     r_uid := uid_copy_to (fr_user r) (r_uid rule),
                     r_gid := gid_copy_to (fr_group r) (r_gid rule)\<rparr> in
     (case fr_icmp_type r of
        Some icmp_type \<Rightarrow> icmp_type_copy_to icmp_type rule
      | None \<Rightarrow> Ok rule))))))))"

section \<open>NAT, redirect and scrub rules\<close>

record nat_rule =
  nr_action :: nat_rule_action
  nr_interface :: interface
  nr_af :: addr_family
  nr_from :: endpoint
  nr_to :: endpoint

fun action_nat_to :: "nat_rule_action \<Rightarrow> nat_endpoint option" where
  "action_nat_to (NatRuleAction_Nat nat_to) = Some nat_to"
| "action_nat_to NatRuleAction_NoNat = None"

definition get_nat_to :: "nat_rule \<Rightarrow> nat_endpoint option" where
  "get_nat_to r = action_nat_to (nr_action r)"

definition nat_rule_get_af :: "nat_rule \<Rightarrow> addr_family result" where
  "nat_rule_get_af r =
     obind (compatible_af (endpoint_get_af (nr_from r)) (endpoint_get_af (nr_to r))) (\<lambda>endpoint_af.
     case get_nat_to r of
       Some nat_to \<Rightarrow>
         obind (compatible_af endpoint_af (endpoint_get_af (nat_endpoint_deref nat_to))) (\<lambda>nat_af.
         compatible_af (nr_af r) nat_af)
     | None \<Rightarrow> compatible_af (nr_af r) endpoint_af)"

definition nat_rule_copy_to :: "externals \<Rightarrow> nat_rule \<Rightarrow> pf_rule \<Rightarrow> pf_rule result" where
  "nat_rule_copy_to X r rule =
    (let rule = rule\<lparr>r_action := nat_rule_action_to_u8 (nr_action r)\<rparr> in
     obind (interface_copy_to (nr_interface r) (r_ifname rule)) (\<lambda>ifname.
     let rule = rule\<lparr>r_ifname := ifname\<rparr> in
     obind (nat_rule_get_af r) (\<lambda>af.
     let rule = rule\<lparr>r_af := addr_family_to_u8 af\<rparr> in
     obind (endpoint_copy_to X (nr_from r) (r_src rule)) (\<lambda>src.
     let rule = rule\<lparr>r_src := src\<rparr> in
     obind (endpoint_copy_to X (nr_to r) (r_dst rule)) (\<lambda>dst.
     Ok (rule\<lparr>r_dst := dst\<rparr>))))))"

record redirect_rule =
  rr_action :: redirect_rule_action
  rr_direction :: direction
  rr_quick :: bool
  rr_log :: rule_log_set
  rr_interface :: interface
  rr_proto :: proto
  rr_af :: addr_family
  rr_from :: endpoint
  rr_to :: endpoint
  rr_label :: rstring
  rr_user :: id
  rr_group :: id
  rr_redirect_to :: endpoint

definition redirect_rule_get_af :: "redirect_rule \<Rightarrow> addr_family result" where
  "redirect_rule_get_af r =
     obind (compatible_af (endpoint_get_af (rr_from r)) (endpoint_get_af (rr_to r))) (\<lambda>endpoint_af.
     obind (compatible_af endpoint_af (endpoint_get_af (rr_redirect_to r))) (\<lambda>rdr_af.
     compatible_af (rr_af r) rdr_af))"

definition get_redirect_to :: "redirect_rule \<Rightarrow> endpoint" where
  "get_redirect_to r = rr_redirect_to r"

definition redirect_rule_copy_to :: "externals \<Rightarrow> redirect_rule \<Rightarrow> pf_rule \<Rightarrow> pf_rule result" where
  "redirect_rule_copy_to X r rule =
    (let rule = rule\<lparr>r_action := redirect_rule_action_to_u8 (rr_action r),
                     r_direction := direction_to_u8 (rr_direction r),
                     r_quick := of_bool (rr_quick r),
                     r_log := rule_log_set_to_u8 (rr_log r)\<rparr> in
     obind (interface_copy_to (rr_interface r) (r_ifname rule)) (\<lambda>ifname.
     let rule = rule\<lparr>r_ifname := ifname, r_proto := proto_to_u8 X (rr_proto r)\<rparr> in
     obind (redirect_rule_get_af r) (\<lambda>af.
     let rule = rule\<lparr>r_af := addr_family_to_u8 af\<rparr> in
     obind (endpoint_copy_to X (rr_from r) (r_src rule)) (\<lambda>src.
     let rule = rule\<lparr>r_src := src\<rparr> in
     obind (endpoint_copy_to X (rr_to r) (r_dst rule)) (\<lambda>dst.
     let rule = rule\<lparr>r_dst := dst\<rparr> in
     obind (map_err InvalidLabel (str_try_copy_to (rr_label r) (r_label rule))) (\<lambda>label.
     Ok (rule\<lparr>r_label := label,
              r_uid := uid_copy_to (rr_user r) (r_uid rule),
              r_gid := gid_copy_to (rr_group r) (r_gid rule)\<rparr>)))))))"

record scrub_rule =
  sr_action :: scrub_rule_action
  sr_direction :: direction

definition scrub_rule_copy_to :: "scrub_rule \<Rightarrow> pf_rule \<Rightarrow> pf_rule result" where
  "scrub_rule_copy_to r rule =
     Ok (rule\<lparr>r_action := scrub_rule_action_to_u8 (sr_action r),
             r_direction := direction_to_u8 (sr_direction r)\<rparr>)"

section \<open>Address families\<close>

text \<open>
  The families of a rule resolve to the one specific family among them, if they agree, and
  to \<open>Any\<close> if none is specific.
\<close>

definition resolves_to :: "addr_family set \<Rightarrow> addr_family \<Rightarrow> bool" where
  "resolves_to A c \<longleftrightarrow> A - {AddrFamily_Any} = {c} - {AddrFamily_Any}"

lemma compatible_af_Ok_iff: "compatible_af a b = Ok c \<longleftrightarrow> resolves_to {a, b} c"
  by (cases a; cases b; cases c) (auto simp: resolves_to_def)

lemma compatible_af_no_panic [simp]: "compatible_af a b \<noteq> Panic"
  by simp

declare compatible_af.simps [simp del]

lemma resolves_to_iff:
  "resolves_to A c \<longleftrightarrow>
     (\<forall>x \<in> A. x = AddrFamily_Any \<or> x = c) \<and> (c = AddrFamily_Any \<or> c \<in> A)"
  by (auto simp: resolves_to_def)

lemma resolves_to_chain:
  "(\<exists>x. resolves_to A x \<and> resolves_to (insert b {x}) c) \<longleftrightarrow> resolves_to (insert b A) c"
proof
  assume "\<exists>x. resolves_to A x \<and> resolves_to (insert b {x}) c"
  then show "resolves_to (insert b A) c" unfolding resolves_to_iff by blast
next
  assume r: "resolves_to (insert b A) c"
  show "\<exists>x. resolves_to A x \<and> resolves_to (insert b {x}) c"
  proof (cases "\<forall>x \<in> A. x = AddrFamily_Any")
    case True
    then have "resolves_to A AddrFamily_Any \<and> resolves_to {b, AddrFamily_Any} c"
      using r unfolding resolves_to_iff by blast
    then show ?thesis by blast
  next
    case False
    then have "resolves_to A c \<and> resolves_to {b, c} c" using r unfolding resolves_to_iff by blast
    then show ?thesis by blast
  qed
qed

lemma filter_rule_get_af_Ok_iff:
  "filter_rule_get_af r = Ok c \<longleftrightarrow>
     resolves_to {fr_af r, endpoint_get_af (fr_from r), endpoint_get_af (fr_to r)} c"
  by (simp add: filter_rule_get_af_def outcome_simps compatible_af_Ok_iff resolves_to_chain)

lemma filter_rule_get_af_no_panic [simp]: "filter_rule_get_af r \<noteq> Panic"
  by (simp add: filter_rule_get_af_def outcome_simps)

lemma nat_rule_get_af_Ok_iff:
  "nat_rule_get_af r = Ok c \<longleftrightarrow>
     resolves_to ({nr_af r, endpoint_get_af (nr_from r), endpoint_get_af (nr_to r)} \<union>
       (case get_nat_to r of Some n \<Rightarrow> {endpoint_get_af (nat_endpoint_deref n)} | None \<Rightarrow> {})) c"
proof (cases "get_nat_to r")
  case None
  then show ?thesis
    by (simp add: nat_rule_get_af_def outcome_simps compatible_af_Ok_iff resolves_to_chain)
next
  case (Some n)
  let ?f = "endpoint_get_af (nr_from r)" and ?t = "endpoint_get_af (nr_to r)"
    and ?n = "endpoint_get_af (nat_endpoint_deref n)"
  have "nat_rule_get_af r = Ok c \<longleftrightarrow>
      (\<exists>y. (\<exists>x. resolves_to {?f, ?t} x \<and> resolves_to {?n, x} y) \<and> resolves_to {nr_af r, y} c)"
    using Some by (auto simp: nat_rule_get_af_def outcome_simps compatible_af_Ok_iff insert_commute)
  also have "\<dots> \<longleftrightarrow> resolves_to {nr_af r, ?n, ?f, ?t} c"
    by (simp add: resolves_to_chain)
  finally show ?thesis using Some by (simp add: insert_commute)
qed

lemma nat_rule_get_af_no_panic [simp]: "nat_rule_get_af r \<noteq> Panic"
  by (simp add: nat_rule_get_af_def outcome_simps split: option.splits)

lemma redirect_rule_get_af_Ok_iff:
  "redirect_rule_get_af r = Ok c \<longleftrightarrow>
     resolves_to {rr_af r, endpoint_get_af (rr_from r), endpoint_get_af (rr_to r),
       endpoint_get_af (rr_redirect_to r)} c"
proof -
  let ?f = "endpoint_get_af (rr_from r)" and ?t = "endpoint_get_af (rr_to r)"
    and ?d = "endpoint_get_af (rr_redirect_to r)"
  have "redirect_rule_get_af r = Ok c \<longleftrightarrow>
      (\<exists>y. (\<exists>x. resolves_to {?f, ?t} x \<and> resolves_to {?d, x} y) \<and> resolves_to {rr_af r, y} c)"
    by (auto simp: redirect_rule_get_af_def outcome_simps compatible_af_Ok_iff insert_commute)
  also have "\<dots> \<longleftrightarrow> resolves_to {rr_af r, ?d, ?f, ?t} c"
    by (simp add: resolves_to_chain)
  finally show ?thesis by (simp add: insert_commute)
qed

lemma redirect_rule_get_af_no_panic [simp]: "redirect_rule_get_af r \<noteq> Panic"
  by (simp add: redirect_rule_get_af_def outcome_simps)

section \<open>When the parts of a rule can be copied\<close>

fun port_ok :: "port \<Rightarrow> bool" where
  "port_ok (Port_Range a b m) \<longleftrightarrow> a \<le> b"
| "port_ok _ \<longleftrightarrow> True"

fun interface_ok :: "interface \<Rightarrow> bool" where
  "interface_ok Interface_Any \<longleftrightarrow> True"
| "interface_ok (Interface_Name n) \<longleftrightarrow> name_fits 16 n"

definition state_policy_ok :: "state_policy \<Rightarrow> proto \<Rightarrow> bool" where
  "state_policy_ok p pr \<longleftrightarrow> p \<in> {StatePolicy_None, StatePolicy_Keep} \<or> pr = Proto_Tcp"

lemma validate_state_policy_eq:
  "state_policy_ok (fr_keep_state r) (fr_proto r) \<Longrightarrow> validate_state_policy r = Ok (fr_keep_state r)"
  by (auto simp: validate_state_policy_def state_policy_ok_def split: state_policy.splits proto.splits)

lemma validate_state_policy_Ok_iff:
  "validate_state_policy r = Ok p \<longleftrightarrow>
     p = fr_keep_state r \<and> state_policy_ok (fr_keep_state r) (fr_proto r)"
  by (cases "fr_keep_state r"; cases "fr_proto r")
    (auto simp: validate_state_policy_def state_policy_ok_def)

lemma validate_state_policy_no_panic [simp]: "validate_state_policy r \<noteq> Panic"
  by (cases "fr_keep_state r"; cases "fr_proto r") (simp_all add: validate_state_policy_def)

lemma interface_copy_ok:
  "length d = 16 \<Longrightarrow> (\<exists>d'. interface_copy_to i d = Ok d') \<longleftrightarrow> interface_ok i"
  by (cases i) (auto simp: outcome_simps name_fits_def)

lemma interface_copy_no_panic [simp]: "interface_copy_to i d \<noteq> Panic"
  by (cases i) (simp_all add: outcome_simps)

lemma port_range_copy_ok: "(\<exists>d'. port_copy_to_range p d = Ok d') \<longleftrightarrow> port_ok p"
  by (cases p) auto

lemma port_range_copy_no_panic [simp]: "port_copy_to_range p d \<noteq> Panic"
  by (cases p) auto

lemma port_pool_copy_ok: "(\<exists>d'. port_copy_to_pool p d = Ok d') \<longleftrightarrow> port_ok p"
  by (cases p) auto

lemma port_pool_copy_no_panic [simp]: "port_copy_to_pool p d \<noteq> Panic"
  by (cases p) auto

lemma endpoint_copy_ok:
  assumes "documented_ipnetwork X"
  shows "(\<exists>d'. endpoint_copy_to X e d = Ok d') \<longleftrightarrow> port_ok (ep_port e)"
  using ip_copy_documented [OF assms, of "ep_ip e" "ra_addr d"] port_range_copy_ok [of "ep_port e" "ra_xport d"]
  by (auto simp: endpoint_copy_to_def outcome_simps)

lemma endpoint_copy_no_panic:
  assumes "documented_ipnetwork X"
  shows "endpoint_copy_to X e d \<noteq> Panic"
  using ip_copy_documented [OF assms, of "ep_ip e" "ra_addr d"]
  by (auto simp: endpoint_copy_to_def outcome_simps)

lemma str_copy_ok: "(\<exists>d'. str_try_copy_to s d = Ok d') \<longleftrightarrow> name_fits (length d) s"
  by (auto simp: outcome_simps name_fits_def)

section \<open>The struct of a filter rule\<close>

lemma filter_rule_copy_Ok_iff:
  "filter_rule_copy_to X r d = Ok d' \<longleftrightarrow>
     (\<exists>ifname af src dst label.
        state_policy_ok (fr_keep_state r) (fr_proto r) \<and>
        interface_copy_to (fr_interface r) (r_ifname d) = Ok ifname \<and>
        filter_rule_get_af r = Ok af \<and>
        endpoint_copy_to X (fr_from r) (r_src d) = Ok src \<and>
        endpoint_copy_to X (fr_to r) (r_dst d) = Ok dst \<and>
        str_try_copy_to (fr_label r) (r_label d) = Ok label \<and>
        d' = d\<lparr>r_action := filter_rule_action_to_u8 (fr_action r),
               r_direction := direction_to_u8 (fr_direction r),
               r_quick := of_bool (fr_quick r),
               r_log := rule_log_set_to_u8 (fr_log r),
               r_rt := route_to_u8 (fr_route r),
               r_keep_state := state_policy_to_u8 (fr_keep_state r),
               r_flags := tcp_flag_set_to_u8 (tf_check (fr_tcp_flags r)),
               r_flagset := tcp_flag_set_to_u8 (tf_mask (fr_tcp_flags r)),
               r_rule_flag := rule_flags (fr_action r),
               r_ifname := ifname, r_proto := proto_to_u8 X (fr_proto r),
               r_af := addr_family_to_u8 af, r_src := src, r_dst := dst, r_label := label,
               r_uid := uid_copy_to (fr_user r) (r_uid d),
               r_gid := gid_copy_to (fr_group r) (r_gid d),
               r_type := (case fr_icmp_type r of Some t \<Rightarrow> raw_type t + 1 | None \<Rightarrow> r_type d),
               r_code := (case fr_icmp_type r of
                   Some t \<Rightarrow> (case raw_code t of Some c \<Rightarrow> c + 1 | None \<Rightarrow> 0)
                 | None \<Rightarrow> r_code d)\<rparr>)"
  by (cases "fr_icmp_type r")
    (auto simp: filter_rule_copy_to_def Let_def outcome_simps validate_state_policy_Ok_iff
      icmp_type_copy_to_eq)

definition filter_rule_ok :: "filter_rule \<Rightarrow> bool" where
  "filter_rule_ok r \<longleftrightarrow>
     state_policy_ok (fr_keep_state r) (fr_proto r) \<and>
     interface_ok (fr_interface r) \<and>
     (\<exists>af. resolves_to {fr_af r, endpoint_get_af (fr_from r), endpoint_get_af (fr_to r)} af) \<and>
     port_ok (ep_port (fr_from r)) \<and> port_ok (ep_port (fr_to r)) \<and>
     name_fits 64 (fr_label r)"

lemma filter_rule_copy_ok:
  assumes X: "documented_ipnetwork X" and d: "length (r_ifname d) = 16" "length (r_label d) = 64"
  shows "(\<exists>d'. filter_rule_copy_to X r d = Ok d') \<longleftrightarrow> filter_rule_ok r"
  using endpoint_copy_ok [OF X, of "fr_from r" "r_src d"] endpoint_copy_ok [OF X, of "fr_to r" "r_dst d"]
    interface_copy_ok [OF d(1), of "fr_interface r"] str_copy_ok [of "fr_label r" "r_label d"] d
  by (auto simp: filter_rule_copy_Ok_iff filter_rule_ok_def filter_rule_get_af_Ok_iff)

lemma filter_rule_copy_no_panic:
  assumes X: "documented_ipnetwork X"
  shows "filter_rule_copy_to X r d \<noteq> Panic"
  using endpoint_copy_no_panic [OF X]
  by (auto simp: filter_rule_copy_to_def Let_def outcome_simps icmp_type_copy_to_eq split: option.splits)

section \<open>The structs of the other rules\<close>

lemma nat_rule_copy_Ok_iff:
  "nat_rule_copy_to X r d = Ok d' \<longleftrightarrow>
     (\<exists>ifname af src dst.
        interface_copy_to (nr_interface r) (r_ifname d) = Ok ifname \<and>
        nat_rule_get_af r = Ok af \<and>
        endpoint_copy_to X (nr_from r) (r_src d) = Ok src \<and>
        endpoint_copy_to X (nr_to r) (r_dst d) = Ok dst \<and>
        d' = d\<lparr>r_action := nat_rule_action_to_u8 (nr_action r),
               r_ifname := ifname, r_af := addr_family_to_u8 af, r_src := src, r_dst := dst\<rparr>)"
  by (auto simp: nat_rule_copy_to_def Let_def outcome_simps)

lemma redirect_rule_copy_Ok_iff:
  "redirect_rule_copy_to X r d = Ok d' \<longleftrightarrow>
     (\<exists>ifname af src dst label.
        interface_copy_to (rr_interface r) (r_ifname d) = Ok ifname \<and>
        redirect_rule_get_af r = Ok af \<and>
        endpoint_copy_to X (rr_from r) (r_src d) = Ok src \<and>
        endpoint_copy_to X (rr_to r) (r_dst d) = Ok dst \<and>
        str_try_copy_to (rr_label r) (r_label d) = Ok label \<and>
        d' = d\<lparr>r_action := redirect_rule_action_to_u8 (rr_action r),
               r_direction := direction_to_u8 (rr_direction r),
               r_quick := of_bool (rr_quick r), r_log := rule_log_set_to_u8 (rr_log r),
               r_ifname := ifname, r_proto := proto_to_u8 X (rr_proto r),
               r_af := addr_family_to_u8 af, r_src := src, r_dst := dst, r_label := label,
               r_uid := uid_copy_to (rr_user r) (r_uid d),
               r_gid := gid_copy_to (rr_group r) (r_gid d)\<rparr>)"
  by (auto simp: redirect_rule_copy_to_def Let_def outcome_simps)

definition nat_rule_ok :: "nat_rule \<Rightarrow> bool" where
  "nat_rule_ok r \<longleftrightarrow>
     interface_ok (nr_interface r) \<and>
     (\<exists>af. nat_rule_get_af r = Ok af) \<and>
     port_ok (ep_port (nr_from r)) \<and> port_ok (ep_port (nr_to r))"

definition redirect_rule_ok :: "redirect_rule \<Rightarrow> bool" where
  "redirect_rule_ok r \<longleftrightarrow>
     interface_ok (rr_interface r) \<and>
     (\<exists>af. redirect_rule_get_af r = Ok af) \<and>
     port_ok (ep_port (rr_from r)) \<and> port_ok (ep_port (rr_to r)) \<and>
     name_fits 64 (rr_label r)"

lemma nat_rule_copy_ok:
  assumes X: "documented_ipnetwork X" and d: "length (r_ifname d) = 16"
  shows "(\<exists>d'. nat_rule_copy_to X r d = Ok d') \<longleftrightarrow> nat_rule_ok r"
  using endpoint_copy_ok [OF X, of "nr_from r" "r_src d"] endpoint_copy_ok [OF X, of "nr_to r" "r_dst d"]
    interface_copy_ok [OF d, of "nr_interface r"]
  by (auto simp: nat_rule_copy_Ok_iff nat_rule_ok_def)

lemma nat_rule_copy_no_panic:
  assumes X: "documented_ipnetwork X"
  shows "nat_rule_copy_to X r d \<noteq> Panic"
  using endpoint_copy_no_panic [OF X]
  by (auto simp: nat_rule_copy_to_def Let_def outcome_simps)

lemma redirect_rule_copy_ok:
  assumes X: "documented_ipnetwork X" and d: "length (r_ifname d) = 16" "length (r_label d) = 64"
  shows "(\<exists>d'. redirect_rule_copy_to X r d = Ok d') \<longleftrightarrow> redirect_rule_ok r"
  using endpoint_copy_ok [OF X, of "rr_from r" "r_src d"] endpoint_copy_ok [OF X, of "rr_to r" "r_dst d"]
    interface_copy_ok [OF d(1), of "rr_interface r"] str_copy_ok [of "rr_label r" "r_label d"] d
  by (auto simp: redirect_rule_copy_Ok_iff redirect_rule_ok_def)

lemma redirect_rule_copy_no_panic:
  assumes X: "documented_ipnetwork X"
  shows "redirect_rule_copy_to X r d \<noteq> Panic"
  using endpoint_copy_no_panic [OF X]
  by (auto simp: redirect_rule_copy_to_def Let_def outcome_simps)

section \<open>The faults of a rule\<close>

text \<open>
  What can be wrong with a rule, in the order in which the code looks for it, each with the error
  that reports it. A computation fails as a list of faults says if it succeeds when the list is
  empty and returns the first fault otherwise.
\<close>

definition fails_as :: "'a result \<Rightarrow> error list \<Rightarrow> bool" where
  "fails_as m fs \<longleftrightarrow> (case m of Ok x \<Rightarrow> fs = [] | Err e \<Rightarrow> (\<exists>rest. fs = e # rest) | Panic \<Rightarrow> False)"

named_theorems fails_intros "computations and their faults"

lemma fails_as_bind [fails_intros]:
  "fails_as m fs \<Longrightarrow> (\<And>x. m = Ok x \<Longrightarrow> fails_as (f x) gs) \<Longrightarrow> fails_as (obind m f) (fs @ gs)"
  by (cases m) (auto simp: fails_as_def)

lemma fails_as_last: "fails_as m fs \<Longrightarrow> (\<And>x. m = Ok x \<Longrightarrow> \<exists>y. f x = Ok y) \<Longrightarrow> fails_as (obind m f) fs"
  by (cases m) (auto simp: fails_as_def)

lemma fails_as_Ok [fails_intros]: "fails_as (Ok x) []"
  by (simp add: fails_as_def)

lemma fails_as_no_panic: "fails_as m fs \<Longrightarrow> m \<noteq> Panic"
  by (auto simp: fails_as_def)

lemma fails_as_ok_iff: "fails_as m fs \<Longrightarrow> is_ok m \<longleftrightarrow> fs = []"
  by (cases m) (auto simp: fails_as_def)

definition name_faults :: "(string \<Rightarrow> error) \<Rightarrow> nat \<Rightarrow> rstring \<Rightarrow> error list" where
  "name_faults report n s =
     (if length s \<ge> n then [report ''Too long''] else if 0 \<in> set s then [report ''Contains null byte''] else [])"

fun interface_faults :: "interface \<Rightarrow> error list" where
  "interface_faults Interface_Any = []"
| "interface_faults (Interface_Name s) = name_faults InvalidInterfaceName 16 s"

definition port_faults :: "endpoint \<Rightarrow> error list" where
  "port_faults e = (if port_ok (ep_port e) then [] else [InvalidPortRange])"

definition policy_faults :: "state_policy \<Rightarrow> proto \<Rightarrow> error list" where
  "policy_faults p pr = (if state_policy_ok p pr then [] else [InvalidRuleCombination
     (''StatePolicy '' @ state_policy_debug p @ '' and protocol '' @ proto_debug pr @ '' are incompatible'')])"

text \<open>Two different concrete families; the family that two families without this fault have; and
  the family of a rule compared with those of its parts, which are joined from the left.\<close>

definition mismatch :: "addr_family \<Rightarrow> addr_family \<Rightarrow> error list" where
  "mismatch a b = (if a \<noteq> b \<and> a \<noteq> AddrFamily_Any \<and> b \<noteq> AddrFamily_Any then [InvalidRuleCombination
     (''AddrFamily '' @ addr_family_display a @ '' and '' @ addr_family_display b @ '' are incompatible'')] else [])"

definition join_af :: "addr_family \<Rightarrow> addr_family \<Rightarrow> addr_family" where
  "join_af a b = (if a = AddrFamily_Any then b else a)"

fun family_faults :: "addr_family \<Rightarrow> addr_family \<Rightarrow> addr_family list \<Rightarrow> error list" where
  "family_faults own a [] = mismatch own a"
| "family_faults own a (b # bs) = mismatch a b @ family_faults own (join_af a b) bs"

definition filter_faults :: "filter_rule \<Rightarrow> error list" where
  "filter_faults r =
     policy_faults (fr_keep_state r) (fr_proto r) @
     interface_faults (fr_interface r) @
     family_faults (fr_af r) (endpoint_get_af (fr_from r)) [endpoint_get_af (fr_to r)] @
     port_faults (fr_from r) @ port_faults (fr_to r) @
     name_faults InvalidLabel 64 (fr_label r)"

definition nat_faults :: "nat_rule \<Rightarrow> error list" where
  "nat_faults r =
     interface_faults (nr_interface r) @
     family_faults (nr_af r) (endpoint_get_af (nr_from r)) (endpoint_get_af (nr_to r) #
       (case get_nat_to r of Some n \<Rightarrow> [endpoint_get_af (nat_endpoint_deref n)] | None \<Rightarrow> [])) @
     port_faults (nr_from r) @ port_faults (nr_to r)"

definition redirect_faults :: "redirect_rule \<Rightarrow> error list" where
  "redirect_faults r =
     interface_faults (rr_interface r) @
     family_faults (rr_af r) (endpoint_get_af (rr_from r))
       [endpoint_get_af (rr_to r), endpoint_get_af (rr_redirect_to r)] @
     port_faults (rr_from r) @ port_faults (rr_to r) @
     name_faults InvalidLabel 64 (rr_label r)"

lemma validate_faults [fails_intros]:
  "fails_as (validate_state_policy r) (policy_faults (fr_keep_state r) (fr_proto r))"
  by (cases "fr_keep_state r"; cases "fr_proto r")
    (simp_all add: validate_state_policy_def policy_faults_def state_policy_ok_def fails_as_def)

lemma str_copy_faults:
  "length d = n \<Longrightarrow> fails_as (map_err report (str_try_copy_to s d)) (name_faults report n s)"
  by (simp add: str_try_copy_to_def name_faults_def fails_as_def)

lemma interface_copy_faults: "length d = 16 \<Longrightarrow> fails_as (interface_copy_to i d) (interface_faults i)"
  by (cases i) (simp_all add: str_copy_faults, simp add: str_try_copy_to_def fails_as_def)

lemma endpoint_copy_faults:
  assumes "documented_ipnetwork X"
  shows "fails_as (endpoint_copy_to X e d) (port_faults e)"
proof -
  obtain a where "ip_copy_to X (ep_ip e) (ra_addr d) = Ok a"
    using ip_copy_documented [OF assms, of "ep_ip e" "ra_addr d"] by blast
  then show ?thesis
    by (cases "ep_port e") (auto simp: endpoint_copy_to_def port_faults_def fails_as_def)
qed

lemma compatible_faults: "fails_as (compatible_af a b) (mismatch a b)"
  by (simp add: compatible_af.simps mismatch_def fails_as_def)

lemma compatible_joins: "compatible_af a b = Ok c \<Longrightarrow> c = join_af a b"
  by (auto simp: compatible_af.simps join_af_def split: if_splits)

lemma compatible_chain:
  assumes "fails_as (f (join_af a b)) (family_faults own (join_af a b) bs)"
  shows "fails_as (obind (compatible_af a b) f) (family_faults own a (b # bs))"
  unfolding family_faults.simps using assms compatible_joins by (intro fails_as_bind compatible_faults) blast

lemma compatible_own: "fails_as (compatible_af own a) (family_faults own a [])"
  unfolding family_faults.simps by (rule compatible_faults)

lemma get_af_faults [fails_intros]:
  "fails_as (filter_rule_get_af f)
     (family_faults (fr_af f) (endpoint_get_af (fr_from f)) [endpoint_get_af (fr_to f)])"
  "fails_as (nat_rule_get_af n)
     (family_faults (nr_af n) (endpoint_get_af (nr_from n)) (endpoint_get_af (nr_to n) #
        (case get_nat_to n of Some e \<Rightarrow> [endpoint_get_af (nat_endpoint_deref e)] | None \<Rightarrow> [])))"
  "fails_as (redirect_rule_get_af r)
     (family_faults (rr_af r) (endpoint_get_af (rr_from r))
        [endpoint_get_af (rr_to r), endpoint_get_af (rr_redirect_to r)])"
  unfolding filter_rule_get_af_def nat_rule_get_af_def redirect_rule_get_af_def
  by (auto intro!: compatible_chain compatible_own simp del: family_faults.simps split: option.split)

lemma copies_fail_as:
  assumes X: "documented_ipnetwork X" and d: "length (r_ifname d) = 16" "length (r_label d) = 64"
  shows "fails_as (filter_rule_copy_to X f d) (filter_faults f)"
    and "fails_as (nat_rule_copy_to X n d) (nat_faults n)"
    and "fails_as (redirect_rule_copy_to X r d) (redirect_faults r)"
proof -
  note parts = fails_as_bind fails_as_last fails_as_Ok validate_faults get_af_faults interface_copy_faults
    endpoint_copy_faults [OF X] str_copy_faults
  show "fails_as (filter_rule_copy_to X f d) (filter_faults f)"
    unfolding filter_rule_copy_to_def filter_faults_def Let_def
    by (intro parts) (simp_all add: d icmp_type_copy_to_eq split: option.split)
  show "fails_as (nat_rule_copy_to X n d) (nat_faults n)"
    unfolding nat_rule_copy_to_def nat_faults_def Let_def
    by (intro parts) (simp_all add: d)
  show "fails_as (redirect_rule_copy_to X r d) (redirect_faults r)"
    unfolding redirect_rule_copy_to_def redirect_faults_def Let_def
    by (intro parts) (simp_all add: d)
qed

section \<open>Copying a rule obeys the contract\<close>

lemma uid_copy_idem [simp]: "uid_copy_to u (uid_copy_to u d) = uid_copy_to u d"
  by (cases u) simp_all

lemma gid_copy_idem [simp]: "gid_copy_to u (gid_copy_to u d) = gid_copy_to u d"
  by (cases u) simp_all

lemma uid_copy_wf [simp]: "pf_rule_uid_wf (uid_copy_to u d) = pf_rule_uid_wf d"
  by (cases u) (simp_all add: pf_rule_uid_wf_def)

lemma gid_copy_wf [simp]: "pf_rule_gid_wf (gid_copy_to u d) = pf_rule_gid_wf d"
  by (cases u) (simp_all add: pf_rule_gid_wf_def)

text \<open>The buffers of a well-formed rule that a copy writes.\<close>

lemma pf_rule_wfD:
  assumes "pf_rule_wf d"
  shows "pf_rule_addr_wf (r_src d)" "pf_rule_addr_wf (r_dst d)"
    "length (r_label d) = 64" "length (r_ifname d) = 16"
  using assms by (simp_all add: pf_rule_wf_def)

lemma str_copy_length: "str_try_copy_to s d = Ok d' \<Longrightarrow> length d' = length d"
  by (rule cstr.copy_wf [OF refl])

lemma str_copy_idem: "str_try_copy_to s d = Ok d' \<Longrightarrow> str_try_copy_to s d' = Ok d'"
  by (rule cstr.copy_idem [OF refl])

lemmas copy_wf_facts = endpoint_cp.copy_wf length_interface_copy str_copy_length
lemmas copy_idem_facts = endpoint_cp.copy_idem interface_copy_idem str_copy_idem
lemmas copy_uniform_facts =
  forget_obind_cong interface_cp.copy_uniform [where n = 16] endpoint_cp.copy_uniform
  forget_map_err_cong forget_str_try_copy_to

interpretation filter_cp: try_copy "filter_rule_copy_to X" pf_rule_wf for X
proof unfold_locales
  fix d x d' assume "pf_rule_wf d" "filter_rule_copy_to X x d = Ok d'"
  then show "pf_rule_wf d'"
    by (auto simp: filter_rule_copy_Ok_iff pf_rule_wf_def dest: copy_wf_facts)
next
  fix d1 d2 x assume "pf_rule_wf d1" "pf_rule_wf d2"
  then show "forget (filter_rule_copy_to X x d1) = forget (filter_rule_copy_to X x d2)"
    unfolding filter_rule_copy_to_def Let_def
    by (intro copy_uniform_facts)
      (auto simp: pf_rule_wfD icmp_type_copy_to_eq split: option.splits)
next
  fix d x d' assume wfd: "pf_rule_wf d" and c: "filter_rule_copy_to X x d = Ok d'"
  from c have i: "interface_copy_to (fr_interface x) (r_ifname d) = Ok (r_ifname d')"
    and s: "endpoint_copy_to X (fr_from x) (r_src d) = Ok (r_src d')"
    and t: "endpoint_copy_to X (fr_to x) (r_dst d) = Ok (r_dst d')"
    and l: "str_try_copy_to (fr_label x) (r_label d) = Ok (r_label d')"
    by (auto simp: filter_rule_copy_Ok_iff)
  from c interface_copy_idem [OF i] endpoint_cp.copy_idem [OF pf_rule_wfD(1) [OF wfd] s]
    endpoint_cp.copy_idem [OF pf_rule_wfD(2) [OF wfd] t] str_copy_idem [OF l]
  show "filter_rule_copy_to X x d' = Ok d'"
    by (auto simp: filter_rule_copy_Ok_iff split: option.split)
qed

interpretation nat_cp: try_copy "nat_rule_copy_to X" pf_rule_wf for X
proof unfold_locales
  fix d x d' assume "pf_rule_wf d" "nat_rule_copy_to X x d = Ok d'"
  then show "pf_rule_wf d'"
    by (auto simp: nat_rule_copy_Ok_iff pf_rule_wf_def dest: copy_wf_facts)
next
  fix d1 d2 x assume "pf_rule_wf d1" "pf_rule_wf d2"
  then show "forget (nat_rule_copy_to X x d1) = forget (nat_rule_copy_to X x d2)"
    unfolding nat_rule_copy_to_def Let_def
    by (intro copy_uniform_facts) (auto simp: pf_rule_wfD)
next
  fix d x d' assume wfd: "pf_rule_wf d" and c: "nat_rule_copy_to X x d = Ok d'"
  from c have i: "interface_copy_to (nr_interface x) (r_ifname d) = Ok (r_ifname d')"
    and s: "endpoint_copy_to X (nr_from x) (r_src d) = Ok (r_src d')"
    and t: "endpoint_copy_to X (nr_to x) (r_dst d) = Ok (r_dst d')"
    by (auto simp: nat_rule_copy_Ok_iff)
  from c interface_copy_idem [OF i] endpoint_cp.copy_idem [OF pf_rule_wfD(1) [OF wfd] s]
    endpoint_cp.copy_idem [OF pf_rule_wfD(2) [OF wfd] t]
  show "nat_rule_copy_to X x d' = Ok d'"
    by (auto simp: nat_rule_copy_Ok_iff split: option.split)
qed

interpretation redirect_cp: try_copy "redirect_rule_copy_to X" pf_rule_wf for X
proof unfold_locales
  fix d x d' assume "pf_rule_wf d" "redirect_rule_copy_to X x d = Ok d'"
  then show "pf_rule_wf d'"
    by (auto simp: redirect_rule_copy_Ok_iff pf_rule_wf_def dest: copy_wf_facts)
next
  fix d1 d2 x assume "pf_rule_wf d1" "pf_rule_wf d2"
  then show "forget (redirect_rule_copy_to X x d1) = forget (redirect_rule_copy_to X x d2)"
    unfolding redirect_rule_copy_to_def Let_def
    by (intro copy_uniform_facts) (auto simp: pf_rule_wfD)
next
  fix d x d' assume wfd: "pf_rule_wf d" and c: "redirect_rule_copy_to X x d = Ok d'"
  from c have i: "interface_copy_to (rr_interface x) (r_ifname d) = Ok (r_ifname d')"
    and s: "endpoint_copy_to X (rr_from x) (r_src d) = Ok (r_src d')"
    and t: "endpoint_copy_to X (rr_to x) (r_dst d) = Ok (r_dst d')"
    and l: "str_try_copy_to (rr_label x) (r_label d) = Ok (r_label d')"
    by (auto simp: redirect_rule_copy_Ok_iff)
  from c interface_copy_idem [OF i] endpoint_cp.copy_idem [OF pf_rule_wfD(1) [OF wfd] s]
    endpoint_cp.copy_idem [OF pf_rule_wfD(2) [OF wfd] t] str_copy_idem [OF l]
  show "redirect_rule_copy_to X x d' = Ok d'"
    by (auto simp: redirect_rule_copy_Ok_iff split: option.split)
qed

interpretation scrub_cp: try_copy scrub_rule_copy_to pf_rule_wf
  by unfold_locales (auto simp: scrub_rule_copy_to_def pf_rule_wf_def)

section \<open>Properties\<close>


definition sample_filter_rule :: filter_rule where
  "sample_filter_rule = (filter_rule_default FilterRuleAction_Pass)
     \<lparr>fr_keep_state := StatePolicy_Modulate, fr_proto := Proto_Udp\<rparr>"

definition sample_redirect_rule :: redirect_rule where
  "sample_redirect_rule =
     \<lparr>rr_action = RedirectRuleAction_Redirect, rr_direction = Direction_In, rr_quick = True,
      rr_log = RuleLogSet [], rr_interface = Interface_Name [101, 110, 48], rr_proto = Proto_Tcp,
      rr_af = AddrFamily_Any, rr_from = endpoint_new Ip_Any Port_Any,
      rr_to = endpoint_new Ip_Any (Port_Range 9 7 PortRange_Inclusive), rr_label = [],
      rr_user = Id_Any, rr_group = Id_Any, rr_redirect_to = endpoint_new Ip_Any Port_Any\<rparr>"


definition lub_af :: "addr_family set \<Rightarrow> addr_family \<Rightarrow> bool" where
  "lub_af A c \<longleftrightarrow> (\<forall>x \<in> A. x \<le> c) \<and> (\<forall>b. (\<forall>x \<in> A. x \<le> b) \<longrightarrow> c \<le> b)"

lemma resolves_to_lub: "resolves_to A c \<longleftrightarrow> lub_af A c"
proof
  assume "resolves_to A c"
  then show "lub_af A c" unfolding resolves_to_iff lub_af_def less_eq_addr_family_def by blast
next
  assume l: "lub_af A c"
  have "c = AddrFamily_Any \<or> c \<in> A"
  proof (rule ccontr)
    assume n: "\<not> (c = AddrFamily_Any \<or> c \<in> A)"
    then have "\<forall>x \<in> A. x \<le> AddrFamily_Any"
      using l unfolding lub_af_def less_eq_addr_family_def by blast
    with n l show False unfolding lub_af_def less_eq_addr_family_def by blast
  qed
  then show "resolves_to A c"
    using l unfolding resolves_to_iff lub_af_def less_eq_addr_family_def by blast
qed

lemma compatible_af_Err: "compatible_af a b = Err e \<Longrightarrow> kind e = Kind_InvalidRuleCombination"
  by (simp add: compatible_af.simps split: if_splits) auto

text \<open>
  C29. The address family of a rule is the least upper bound of the families of its parts (its own
  field, its endpoints, and the addresses it translates to), where \<open>Any\<close> is below both
  concrete families; if two parts disagree there is no bound, and the rule is refused with
  \<open>InvalidRuleCombination\<close>. The order in which the code compares the parts does not matter.
\<close>

theorem address_family_resolution:
  "(filter_rule_get_af f = Ok c \<longleftrightarrow>
      lub_af {fr_af f, endpoint_get_af (fr_from f), endpoint_get_af (fr_to f)} c) \<and>
   (nat_rule_get_af n = Ok c \<longleftrightarrow>
      lub_af ({nr_af n, endpoint_get_af (nr_from n), endpoint_get_af (nr_to n)} \<union>
        (case get_nat_to n of Some e \<Rightarrow> {endpoint_get_af (nat_endpoint_deref e)} | None \<Rightarrow> {})) c) \<and>
   (redirect_rule_get_af r = Ok c \<longleftrightarrow>
      lub_af {rr_af r, endpoint_get_af (rr_from r), endpoint_get_af (rr_to r),
        endpoint_get_af (rr_redirect_to r)} c) \<and>
   (case filter_rule_get_af f of Ok c \<Rightarrow> True | Err e \<Rightarrow> kind e = Kind_InvalidRuleCombination | Panic \<Rightarrow> False) \<and>
   (case nat_rule_get_af n of Ok c \<Rightarrow> True | Err e \<Rightarrow> kind e = Kind_InvalidRuleCombination | Panic \<Rightarrow> False) \<and>
   (case redirect_rule_get_af r of Ok c \<Rightarrow> True | Err e \<Rightarrow> kind e = Kind_InvalidRuleCombination | Panic \<Rightarrow> False)"
  unfolding filter_rule_get_af_Ok_iff nat_rule_get_af_Ok_iff redirect_rule_get_af_Ok_iff resolves_to_lub
  by (intro conjI) (auto simp: filter_rule_get_af_def nat_rule_get_af_def redirect_rule_get_af_def outcome_simps
      dest: compatible_af_Err split: outcome.split option.splits)

definition stable_copy :: "('r \<Rightarrow> pf_rule \<Rightarrow> pf_rule result) \<Rightarrow> 'r \<Rightarrow> pf_rule \<Rightarrow> bool" where
  "stable_copy cp r d \<longleftrightarrow> (case cp r d of Ok d' \<Rightarrow> pf_rule_wf d' \<and> cp r d' = Ok d' | _ \<Rightarrow> True)"

text \<open>
  The copies of all four kinds of rules keep the struct well formed (every array keeps its
  declared length), and writing the same rule again changes nothing.
\<close>

lemma rule_copies_stable:
  assumes "pf_rule_wf d"
  shows "stable_copy (filter_rule_copy_to X) f d \<and> stable_copy (nat_rule_copy_to X) n d \<and>
    stable_copy (redirect_rule_copy_to X) r d \<and> stable_copy scrub_rule_copy_to s d"
  unfolding stable_copy_def
  using filter_cp.copy_wf [OF assms] filter_cp.copy_idem [OF assms]
    nat_cp.copy_wf [OF assms] nat_cp.copy_idem [OF assms]
    redirect_cp.copy_wf [OF assms] redirect_cp.copy_idem [OF assms]
    scrub_cp.copy_wf [OF assms] scrub_cp.copy_idem [OF assms]
  by (simp split: outcome.split)

lemma rule_copies_stable_witness:
  "stable_copy scrub_rule_copy_to \<lparr>sr_action = ScrubRuleAction_Scrub, sr_direction = Direction_In\<rparr> pf_rule_zeroed"
  using rule_copies_stable [OF pf_rule_zeroed_wf] by blast

end
