(* ===== verification/States.thy ===== *)
theory States
  imports Address
begin

text \<open>
  The connection states of \<open>state.rs\<close>: the wrapper \<open>State\<close> with its accessors, and the reading
  of an address and a port in network byte order. The lemmas connect the reading with the
  writing of \<open>rule/ip.rs\<close> and \<open>rule/port.rs\<close>: what a copy wrote is what is read.
\<close>

record state =
  sync_state :: pfsync_state

definition state_new :: "pfsync_state \<Rightarrow> state" where
  "state_new s = \<lparr>sync_state = s\<rparr>"

definition state_direction :: "state \<Rightarrow> direction result" where
  "state_direction s = direction_try_from (s_direction (sync_state s))"

definition state_proto :: "externals \<Rightarrow> state \<Rightarrow> proto result" where
  "state_proto X s = proto_try_from X (s_proto (sync_state s))"

text \<open>The address union and the port union, read through their members: \<open>_v4addr.s_addr\<close> is the
  first four bytes, \<open>__u6_addr8\<close> all sixteen, \<open>xport.port\<close> the first two.\<close>

definition parse_address :: "u8 \<Rightarrow> pfsync_state_host \<Rightarrow> socket_addr result" where
  "parse_address family host =
     obind (if ucast family = PF_INET then
              Ok (IpAddr_V4 (from_be (of_le_bytes (take 4 (pfa (h_addr host))))))
            else if ucast family = PF_INET6 then
              Ok (IpAddr_V6 (of_le_bytes (rev (pfa (h_addr host)))))
            else Err (InvalidAddressFamily family)) (\<lambda>ip.
     Ok (SocketAddr ip (from_be (of_le_bytes (take 2 (h_xport host))))))"

definition local_address :: "state \<Rightarrow> socket_addr result" where
  "local_address s = parse_address (s_af_lan (sync_state s)) (s_lan (sync_state s))"

definition remote_address :: "state \<Rightarrow> socket_addr result" where
  "remote_address s = parse_address (s_af_lan (sync_state s)) (s_ext_lan (sync_state s))"

definition as_raw :: "state \<Rightarrow> pfsync_state" where
  "as_raw s = sync_state s"

section \<open>Reading what was written\<close>

lemma of_be_bytes: "8 dvd LENGTH('w::len) \<Longrightarrow> of_le_bytes (rev (be_bytes (w :: 'w word))) = w"
  by (simp add: be_bytes_def of_le_bytes_le_bytes)

lemma from_be_be_bytes:
  assumes "8 dvd LENGTH('w::len)"
  shows "from_be (of_le_bytes (be_bytes (w :: 'w word))) = w"
proof -
  have "length (be_bytes w) * 8 = LENGTH('w)" using assms by simp
  then have "le_bytes (of_le_bytes (be_bytes w) :: 'w word) = be_bytes w"
    by (rule le_bytes_of_le_bytes)
  then show ?thesis using assms by (simp add: from_be_def of_be_bytes)
qed

text \<open>The host that an address and a port in network order make.\<close>

fun addr_family_of :: "ip_addr \<Rightarrow> addr_family" where
  "addr_family_of (IpAddr_V4 a) = AddrFamily_Ipv4"
| "addr_family_of (IpAddr_V6 a) = AddrFamily_Ipv6"

lemma parse_address_copied:
  assumes "pf_addr_wf d" and "h_addr host = ip_addr_copy_to a d"
    and "take 2 (h_xport host) = be_bytes (p :: u16)"
  shows "parse_address (addr_family_to_u8 (addr_family_of a)) host = Ok (SocketAddr a p)"
proof (cases a)
  case (IpAddr_V4 v)
  then have "take 4 (pfa (h_addr host)) = be_bytes v"
    using assms(1,2) by (simp only: pfa_copy_v4) simp
  then show ?thesis
    using assms(3) IpAddr_V4 by (simp add: parse_address_def pf_constants from_be_be_bytes)
next
  case (IpAddr_V6 v)
  then have "pfa (h_addr host) = be_bytes v"
    using assms(1,2) by (simp only: pfa_copy_v6)
  then show ?thesis
    using assms(3) IpAddr_V6
    by (simp add: parse_address_def pf_constants from_be_be_bytes of_be_bytes)
qed

lemma parse_address_Err_iff:
  "parse_address family host = Err e \<longleftrightarrow>
     family \<notin> {addr_family_to_u8 AddrFamily_Ipv4, addr_family_to_u8 AddrFamily_Ipv6} \<and>
     e = InvalidAddressFamily family"
proof -
  have narrow: "(ucast (ucast family :: u32) :: u8) = family"
    by (rule bit_word_eqI) (simp add: bit_ucast_iff)
  have u: "(ucast family :: u32) = 2 \<longleftrightarrow> family = 2" "(ucast family :: u32) = 30 \<longleftrightarrow> family = 30"
    using narrow by auto
  show ?thesis by (auto simp: parse_address_def pf_constants u)
qed

lemma parse_address_no_panic [simp]: "parse_address family host \<noteq> Panic"
  by (simp add: parse_address_def)

section \<open>Properties\<close>

text \<open>
  C34. A socket address that was written the way the crate writes addresses and ports (either family,
  network byte order, over any previous content of the union) is read back as it was; a family
  byte that is neither IPv4 nor IPv6 is refused with an error that carries it, and reading never
  panics.
\<close>

theorem socket_address_roundtrip:
  assumes "pf_addr_wf d"
  shows "parse_address (addr_family_to_u8 (addr_family_of a))
      \<lparr>h_addr = ip_addr_copy_to a d, h_xport = be_bytes p @ rest, h_pad = pd\<rparr> = Ok (SocketAddr a p) \<and>
    (parse_address family host = Err e \<longleftrightarrow>
      family \<notin> {addr_family_to_u8 AddrFamily_Ipv4, addr_family_to_u8 AddrFamily_Ipv6} \<and>
      e = InvalidAddressFamily family) \<and>
    parse_address family host \<noteq> Panic"
  by (intro conjI parse_address_copied [OF assms] parse_address_Err_iff) simp_all

lemma socket_address_roundtrip_witness:
  "parse_address 2 \<lparr>h_addr = ip_addr_copy_to (IpAddr_V4 0x01020304) pf_addr_zeroed,
     h_xport = be_bytes (12345 :: u16) @ [0, 0], h_pad = []\<rparr> = Ok (SocketAddr (IpAddr_V4 0x01020304) 12345)"
  using socket_address_roundtrip [OF pf_addr_zeroed_wf, of "IpAddr_V4 0x01020304" 12345]
  by (simp add: pf_constants)

end
