(* ===== verification/RuleStructs.thy ===== *)
theory RuleStructs
  imports Rules States
begin

text \<open>
  Reading a rule back from the \<open>pf_rule\<close> that it was copied into (\<open>rule/mod.rs\<close>): what a reader of
  the kernel's struct finds is what the rule says. The reading is independent of the copy: bytes
  that the crate can decode are decoded by its own conversions, strings are read up to their NUL,
  addresses and ports in network order, flag sets bit by bit, and the numbers of the other
  enumerations are those of \<open>pfvar.h\<close>, in decimal.
\<close>

section \<open>Reading the parts\<close>

fun port_operator :: "port \<Rightarrow> nat" where
  "port_operator Port_Any = 0"
| "port_operator (Port_Range a b m) =
     (case m of PortRange_Exclusive \<Rightarrow> 1 | PortRange_Except \<Rightarrow> 8 | PortRange_Inclusive \<Rightarrow> 9)"
| "port_operator (Port_One p m) =
     (case m of PortUnary_Equal \<Rightarrow> 2 | PortUnary_NotEqual \<Rightarrow> 3 | PortUnary_Less \<Rightarrow> 4
      | PortUnary_LessOrEqual \<Rightarrow> 5 | PortUnary_Greater \<Rightarrow> 6 | PortUnary_GreaterOrEqual \<Rightarrow> 7)"

fun id_operator :: "id \<Rightarrow> nat" where
  "id_operator Id_Any = 0"
| "id_operator (Id_Range a b m) =
     (case m of IdRange_Exclusive \<Rightarrow> 1 | IdRange_Except \<Rightarrow> 8 | IdRange_Inclusive \<Rightarrow> 9)"
| "id_operator (Id_One u m) =
     (case m of IdUnary_Equal \<Rightarrow> 2 | IdUnary_NotEqual \<Rightarrow> 3 | IdUnary_Less \<Rightarrow> 4
      | IdUnary_LessOrEqual \<Rightarrow> 5 | IdUnary_Greater \<Rightarrow> 6 | IdUnary_GreaterOrEqual \<Rightarrow> 7)"

text \<open>The ids that an operator compares with; what is beyond them in the array is left.\<close>

fun id_operands :: "id \<Rightarrow> u32 list" where
  "id_operands Id_Any = [0]"
| "id_operands (Id_One u m) = [u]"
| "id_operands (Id_Range a b m) = [a, b]"

definition id_reads :: "id \<Rightarrow> u32 list \<Rightarrow> u8 \<Rightarrow> bool" where
  "id_reads i ids op \<longleftrightarrow> unat op = id_operator i \<and> take (length (id_operands i)) ids = id_operands i"

fun interface_reads :: "interface \<Rightarrow> i8 list \<Rightarrow> bool" where
  "interface_reads Interface_Any buf \<longleftrightarrow> cstr_until_nul buf = Some []"
| "interface_reads (Interface_Name s) buf \<longleftrightarrow> cstr_until_nul buf = Some s"

text \<open>An address with its mask: no constraint is the zero mask; otherwise both are read as the crate
  reads the addresses of states.\<close>

definition endpoint_reads :: "endpoint \<Rightarrow> pf_rule_addr \<Rightarrow> bool" where
  "endpoint_reads e d \<longleftrightarrow>
     (let v = aw_v (ra_addr d); ports = concat (map le_bytes (pr_port (ra_xport d)));
          lower = fst (port_bounds (ep_port e)); upper = snd (port_bounds (ep_port e)) in
      unat (aw_type (ra_addr d)) = 0 \<and>
      (case ep_ip e of
         Ip_Any \<Rightarrow> pfa (am_addr v) = replicate 16 0 \<and> pfa (am_mask v) = replicate 16 0
       | Ip_Net net \<Rightarrow>
           parse_address (addr_family_to_u8 (endpoint_get_af e)) \<lparr>h_addr = am_addr v, h_xport = ports, h_pad = []\<rparr>
             = Ok (SocketAddr (net_ip net) lower) \<and>
           parse_address (addr_family_to_u8 (endpoint_get_af e)) \<lparr>h_addr = am_mask v, h_xport = ports, h_pad = []\<rparr>
             = Ok (SocketAddr (net_mask net) lower)) \<and>
      ports = be_bytes lower @ be_bytes upper \<and>
      unat (pr_op (ra_xport d)) = port_operator (ep_port e))"

fun log_reads :: "rule_log_set \<Rightarrow> u8 \<Rightarrow> bool" where
  "log_reads (RuleLogSet ls) b \<longleftrightarrow>
     (bit b 0 \<longleftrightarrow> ExcludeMatchingState \<in> set ls) \<and> (bit b 1 \<longleftrightarrow> IncludeMatchingState \<in> set ls) \<and>
     (bit b 2 \<longleftrightarrow> SocketOwner \<in> set ls) \<and> unat b < 8"

fun tcp_flags_read :: "tcp_flag_set \<Rightarrow> u8 \<Rightarrow> bool" where
  "tcp_flags_read (TcpFlagSet fs) b \<longleftrightarrow>
     (bit b 0 \<longleftrightarrow> TcpFlag_Fin \<in> set fs) \<and> (bit b 1 \<longleftrightarrow> TcpFlag_Syn \<in> set fs) \<and>
     (bit b 2 \<longleftrightarrow> TcpFlag_Rst \<in> set fs) \<and> (bit b 3 \<longleftrightarrow> TcpFlag_Psh \<in> set fs) \<and>
     (bit b 4 \<longleftrightarrow> TcpFlag_Ack \<in> set fs) \<and> (bit b 5 \<longleftrightarrow> TcpFlag_Urg \<in> set fs) \<and>
     (bit b 6 \<longleftrightarrow> TcpFlag_Ece \<in> set fs) \<and> (bit b 7 \<longleftrightarrow> TcpFlag_Cwr \<in> set fs)"

text \<open>Types and codes of ICMP are stored plus one, zero for any.\<close>

definition icmp_reads :: "icmp_type \<Rightarrow> u8 \<Rightarrow> u8 \<Rightarrow> bool" where
  "icmp_reads t ty code \<longleftrightarrow> unat ty = unat (raw_type t) + 1 \<and>
     unat code = (case raw_code t of Some c \<Rightarrow> unat c + 1 | None \<Rightarrow> 0)"

section \<open>The copies of the parts\<close>

lemma interface_copy_reads: "interface_copy_to i d = Ok d' \<Longrightarrow> interface_reads i d'"
  by (cases i) (auto simp: outcome_simps cstr_nul_terminated)

lemma uid_copy_reads:
  "length (ru_uid d) = 2 \<Longrightarrow> id_reads i (ru_uid (uid_copy_to i d)) (ru_op (uid_copy_to i d))"
  by (cases i; cases "ru_uid d"; cases "tl (ru_uid d)")
    (auto simp: id_reads_def split: id_unary_modifier.split id_range_modifier.split)

lemma gid_copy_reads:
  "length (rg_gid d) = 2 \<Longrightarrow> id_reads i (rg_gid (gid_copy_to i d)) (rg_op (gid_copy_to i d))"
  by (cases i; cases "rg_gid d"; cases "tl (rg_gid d)")
    (auto simp: id_reads_def split: id_unary_modifier.split id_range_modifier.split)

lemma port_copy_operator: "port_copy_to_range p d = Ok d' \<Longrightarrow> unat (pr_op d') = port_operator p"
  by (cases p) (auto split: if_splits port_unary_modifier.split port_range_modifier.split)

lemma be_bytes_zero: "be_bytes (0 :: ipv6addr) = replicate 16 0"
  by (simp add: be_bytes_def le_bytes_def map_replicate_const)

lemma endpoint_copy_reads:
  assumes X: "documented_ipnetwork X" and wf: "pf_rule_addr_wf d" and c: "endpoint_copy_to X e d = Ok d'"
  shows "endpoint_reads e d'"
proof -
  let ?v = "aw_v (ra_addr d)"
  have w: "pf_addr_wf (am_addr ?v)" "pf_addr_wf (am_mask ?v)" "pf_port_range_wf (ra_xport d)"
    using wf by (simp_all add: pf_rule_addr_wf_def pf_addr_wrap_wf_def pf_addr_mask_wf_def)
  obtain net where net: "ra_addr d' = network_copy_to net (ra_addr d)"
    and any: "ep_ip e = Ip_Any \<longrightarrow> net = IpNetwork_V6 0 0" and one: "\<forall>n. ep_ip e = Ip_Net n \<longrightarrow> net = n"
    and port: "port_copy_to_range (ep_port e) (ra_xport d) = Ok (ra_xport d')"
    using c X by (cases "ep_ip e")
      (auto simp: endpoint_copy_to_def outcome_simps any_ffi_repr_def documented_ipnetwork_def)
  have a: "am_addr (aw_v (ra_addr d')) = ip_addr_copy_to (net_ip net) (am_addr ?v)"
    "am_mask (aw_v (ra_addr d')) = ip_addr_copy_to (net_mask net) (am_mask ?v)"
    "unat (aw_type (ra_addr d')) = 0"
    by (simp_all add: net network_copy_to_def)
  note ports = port_range_copied_bytes [OF w(3) port]
  have two: "take 2 (be_bytes (lo :: u16) @ be_bytes (hi :: u16)) = be_bytes lo" for lo hi by simp
  note read = parse_address_copied [OF w(1)] parse_address_copied [OF w(2)]
  show ?thesis
  proof (cases "ep_ip e")
    case Ip_Any
    then have n: "net = IpNetwork_V6 0 0" using any by simp
    have "pfa (am_addr (aw_v (ra_addr d'))) = replicate 16 0" "pfa (am_mask (aw_v (ra_addr d'))) = replicate 16 0"
      unfolding a n net_ip.simps net_mask.simps pfa_copy_v6 [OF w(1)] pfa_copy_v6 [OF w(2)] be_bytes_zero by simp_all
    then show ?thesis
      using Ip_Any a(3) port_copy_operator [OF port] ports by (simp add: endpoint_reads_def Let_def)
  next
    case (Ip_Net n)
    then have n: "net = n" using one by simp
    have af: "endpoint_get_af e = addr_family_of (net_ip n)" "endpoint_get_af e = addr_family_of (net_mask n)"
      using Ip_Net by (cases n; simp add: endpoint_get_af_def)+
    have "parse_address (addr_family_to_u8 (endpoint_get_af e))
        \<lparr>h_addr = am_addr (aw_v (ra_addr d')), h_xport = concat (map le_bytes (pr_port (ra_xport d'))), h_pad = []\<rparr> =
        Ok (SocketAddr (net_ip n) (fst (port_bounds (ep_port e))))"
      unfolding af(1) by (rule read(1)) (simp_all add: a n ports)
    moreover have "parse_address (addr_family_to_u8 (endpoint_get_af e))
        \<lparr>h_addr = am_mask (aw_v (ra_addr d')), h_xport = concat (map le_bytes (pr_port (ra_xport d'))), h_pad = []\<rparr> =
        Ok (SocketAddr (net_mask n) (fst (port_bounds (ep_port e))))"
      unfolding af(2) by (rule read(2)) (simp_all add: a n ports)
    ultimately show ?thesis
      using Ip_Net a(3) port_copy_operator [OF port] ports by (simp add: endpoint_reads_def Let_def)
  qed
qed

lemma log_copy_reads: "log_reads s (rule_log_set_to_u8 s)"
proof (cases s)
  case (RuleLogSet ls)
  let ?b = "rule_log_set_to_u8 s"
  have b: "bit ?b n \<longleftrightarrow> (\<exists>l \<in> set ls. n = rule_log_index l)" for n
    by (simp add: RuleLogSet bit_foldl_OR bit_rule_log)
  have i: "(\<exists>l \<in> set ls. rule_log_index k = rule_log_index l) \<longleftrightarrow> k \<in> set ls" for k
    by (auto simp: rule_log_index_inject)
  have "rule_log_index l < 3" for l by (cases l) simp_all
  then have "take_bit 3 ?b = ?b" by (intro bit_eqI) (auto simp: bit_take_bit_iff b)
  then have "unat ?b = take_bit 3 (unat ?b)" by (metis unsigned_take_bit_eq)
  then have "unat ?b < 8" using take_bit_nat_less_exp [of 3 "unat ?b"] by simp
  moreover have "bit ?b 0 \<longleftrightarrow> ExcludeMatchingState \<in> set ls" "bit ?b 1 \<longleftrightarrow> IncludeMatchingState \<in> set ls"
    "bit ?b 2 \<longleftrightarrow> SocketOwner \<in> set ls"
    using i [of ExcludeMatchingState] i [of IncludeMatchingState] i [of SocketOwner] unfolding b by simp_all
  ultimately show ?thesis by (simp add: RuleLogSet del: rule_log_set_to_u8.simps)
qed

lemma tcp_flags_copy_read: "tcp_flags_read s (tcp_flag_set_to_u8 s)"
proof (cases s)
  case (TcpFlagSet fs)
  have f: "tcp_flag_index f = Some n \<longleftrightarrow> f = g" if "tcp_flag_index g = Some n" for f g n
    using that tcp_flag_index_inject by blast
  show ?thesis
    unfolding TcpFlagSet tcp_flags_read.simps bit_tcp_flag_set
    using f [of TcpFlag_Fin 0] f [of TcpFlag_Syn 1] f [of TcpFlag_Rst 2] f [of TcpFlag_Psh 3]
      f [of TcpFlag_Ack 4] f [of TcpFlag_Urg 5] f [of TcpFlag_Ece 6] f [of TcpFlag_Cwr 7] by simp
qed

lemma icmp_copy_reads:
  "icmp_reads t (raw_type t + 1) (case raw_code t of Some c \<Rightarrow> c + 1 | None \<Rightarrow> 0)"
proof -
  have u: "unat (b + 1 :: u8) = unat b + 1" if "unat b + 1 < 256" for b
    using that by (intro unat_add_lem [THEN iffD1, THEN trans]) simp_all
  show ?thesis
    using u [OF raw_type_small [of t]] u [OF raw_code_small [of t]]
    by (auto simp: icmp_reads_def split: option.split)
qed

section \<open>Reading the rules\<close>

definition af_reads :: "addr_family set \<Rightarrow> u8 \<Rightarrow> bool" where
  "af_reads A b \<longleftrightarrow> (\<exists>c. addr_family_try_from b = Ok c \<and> lub_af A c)"

definition filter_reads :: "externals \<Rightarrow> filter_rule \<Rightarrow> pf_rule \<Rightarrow> bool" where
  "filter_reads X r p \<longleftrightarrow>
     unat (r_action p) = (case fr_action r of FilterRuleAction_Pass \<Rightarrow> 0 | FilterRuleAction_Drop _ \<Rightarrow> 1) \<and>
     unat (r_rule_flag p) = (case fr_action r of FilterRuleAction_Pass \<Rightarrow> 0 | FilterRuleAction_Drop a \<Rightarrow>
       (case a of DropAction_Drop \<Rightarrow> 0 | DropAction_ReturnRst \<Rightarrow> 1 | DropAction_ReturnIcmp \<Rightarrow> 4
        | DropAction_Return \<Rightarrow> 8)) \<and>
     direction_try_from (r_direction p) = Ok (fr_direction r) \<and>
     unat (r_quick p) = (if fr_quick r then 1 else 0) \<and>
     log_reads (fr_log r) (r_log p) \<and>
     unat (r_rt p) = (case fr_route r of NoRoute \<Rightarrow> 0 | RouteTo _ \<Rightarrow> 2 | DupTo _ \<Rightarrow> 3 | ReplyTo _ \<Rightarrow> 4) \<and>
     unat (r_keep_state p) = (case fr_keep_state r of StatePolicy_None \<Rightarrow> 0 | StatePolicy_Keep \<Rightarrow> 1
       | StatePolicy_Modulate \<Rightarrow> 2 | StatePolicy_SynProxy \<Rightarrow> 3) \<and>
     tcp_flags_read (tf_check (fr_tcp_flags r)) (r_flags p) \<and>
     tcp_flags_read (tf_mask (fr_tcp_flags r)) (r_flagset p) \<and>
     interface_reads (fr_interface r) (r_ifname p) \<and>
     proto_try_from X (r_proto p) = Ok (fr_proto r) \<and>
     af_reads {fr_af r, endpoint_get_af (fr_from r), endpoint_get_af (fr_to r)} (r_af p) \<and>
     endpoint_reads (fr_from r) (r_src p) \<and> endpoint_reads (fr_to r) (r_dst p) \<and>
     cstr_until_nul (r_label p) = Some (fr_label r) \<and>
     id_reads (fr_user r) (ru_uid (r_uid p)) (ru_op (r_uid p)) \<and>
     id_reads (fr_group r) (rg_gid (r_gid p)) (rg_op (r_gid p)) \<and>
     (case fr_icmp_type r of Some t \<Rightarrow> icmp_reads t (r_type p) (r_code p) | None \<Rightarrow> True)"

text \<open>All fields that a filter rule does not set are as they were.\<close>

definition filter_leaves :: "filter_rule \<Rightarrow> pf_rule \<Rightarrow> pf_rule \<Rightarrow> bool" where
  "filter_leaves r d p \<longleftrightarrow>
     p\<lparr>r_action := r_action d, r_rule_flag := r_rule_flag d, r_direction := r_direction d, r_quick := r_quick d,
       r_log := r_log d, r_rt := r_rt d, r_keep_state := r_keep_state d, r_flags := r_flags d,
       r_flagset := r_flagset d, r_ifname := r_ifname d, r_proto := r_proto d, r_af := r_af d,
       r_src := r_src d, r_dst := r_dst d, r_label := r_label d, r_uid := r_uid d, r_gid := r_gid d,
       r_type := (if fr_icmp_type r = None then r_type p else r_type d),
       r_code := (if fr_icmp_type r = None then r_code p else r_code d)\<rparr> = d"

definition nat_reads :: "nat_rule \<Rightarrow> pf_rule \<Rightarrow> bool" where
  "nat_reads r p \<longleftrightarrow>
     unat (r_action p) = (case nr_action r of NatRuleAction_Nat _ \<Rightarrow> 4 | NatRuleAction_NoNat \<Rightarrow> 5) \<and>
     interface_reads (nr_interface r) (r_ifname p) \<and>
     af_reads ({nr_af r, endpoint_get_af (nr_from r), endpoint_get_af (nr_to r)} \<union>
       (case nr_action r of NatRuleAction_Nat n \<Rightarrow> {endpoint_get_af (nat_endpoint_deref n)}
        | NatRuleAction_NoNat \<Rightarrow> {})) (r_af p) \<and>
     endpoint_reads (nr_from r) (r_src p) \<and> endpoint_reads (nr_to r) (r_dst p)"

definition nat_leaves :: "pf_rule \<Rightarrow> pf_rule \<Rightarrow> bool" where
  "nat_leaves d p \<longleftrightarrow>
     p\<lparr>r_action := r_action d, r_ifname := r_ifname d, r_af := r_af d, r_src := r_src d, r_dst := r_dst d\<rparr> = d"

definition redirect_reads :: "externals \<Rightarrow> redirect_rule \<Rightarrow> pf_rule \<Rightarrow> bool" where
  "redirect_reads X r p \<longleftrightarrow>
     unat (r_action p) =
       (case rr_action r of RedirectRuleAction_Redirect \<Rightarrow> 8 | RedirectRuleAction_NoRedirect \<Rightarrow> 9) \<and>
     direction_try_from (r_direction p) = Ok (rr_direction r) \<and>
     unat (r_quick p) = (if rr_quick r then 1 else 0) \<and>
     log_reads (rr_log r) (r_log p) \<and>
     interface_reads (rr_interface r) (r_ifname p) \<and>
     proto_try_from X (r_proto p) = Ok (rr_proto r) \<and>
     af_reads {rr_af r, endpoint_get_af (rr_from r), endpoint_get_af (rr_to r),
       endpoint_get_af (rr_redirect_to r)} (r_af p) \<and>
     endpoint_reads (rr_from r) (r_src p) \<and> endpoint_reads (rr_to r) (r_dst p) \<and>
     cstr_until_nul (r_label p) = Some (rr_label r) \<and>
     id_reads (rr_user r) (ru_uid (r_uid p)) (ru_op (r_uid p)) \<and>
     id_reads (rr_group r) (rg_gid (r_gid p)) (rg_op (r_gid p))"

definition redirect_leaves :: "pf_rule \<Rightarrow> pf_rule \<Rightarrow> bool" where
  "redirect_leaves d p \<longleftrightarrow>
     p\<lparr>r_action := r_action d, r_direction := r_direction d, r_quick := r_quick d, r_log := r_log d,
       r_ifname := r_ifname d, r_proto := r_proto d, r_af := r_af d, r_src := r_src d, r_dst := r_dst d,
       r_label := r_label d, r_uid := r_uid d, r_gid := r_gid d\<rparr> = d"

lemma label_copy_reads: "str_try_copy_to s d = Ok d' \<Longrightarrow> cstr_until_nul d' = Some s"
  by (auto simp: outcome_simps cstr_nul_terminated)

lemma af_copy_reads:
  "filter_rule_get_af f = Ok c \<Longrightarrow>
     af_reads {fr_af f, endpoint_get_af (fr_from f), endpoint_get_af (fr_to f)} (addr_family_to_u8 c)"
  "nat_rule_get_af n = Ok c \<Longrightarrow>
     af_reads ({nr_af n, endpoint_get_af (nr_from n), endpoint_get_af (nr_to n)} \<union>
       (case nr_action n of NatRuleAction_Nat e \<Rightarrow> {endpoint_get_af (nat_endpoint_deref e)}
        | NatRuleAction_NoNat \<Rightarrow> {})) (addr_family_to_u8 c)"
  "redirect_rule_get_af q = Ok c \<Longrightarrow>
     af_reads {rr_af q, endpoint_get_af (rr_from q), endpoint_get_af (rr_to q),
       endpoint_get_af (rr_redirect_to q)} (addr_family_to_u8 c)"
  by (auto simp: af_reads_def afam.dec_enc filter_rule_get_af_Ok_iff nat_rule_get_af_Ok_iff
      redirect_rule_get_af_Ok_iff resolves_to_lub get_nat_to_def split: nat_rule_action.splits)

lemma pf_rule_ids:
  assumes "pf_rule_wf d"
  shows "length (ru_uid (r_uid d)) = 2" "length (rg_gid (r_gid d)) = 2"
  using assms by (simp_all add: pf_rule_wf_def pf_rule_uid_wf_def pf_rule_gid_wf_def)

lemmas copy_reads =
  interface_copy_reads uid_copy_reads gid_copy_reads log_copy_reads tcp_flags_copy_read
  icmp_copy_reads label_copy_reads af_copy_reads dir.dec_enc

lemma filter_copy_reads:
  assumes L: "documented_libc X" and N: "documented_ipnetwork X" and wf: "pf_rule_wf d"
    and c: "filter_rule_copy_to X r d = Ok p"
  shows "filter_reads X r p" and "filter_leaves r d p"
proof -
  obtain ifname af src dst label where part: "interface_copy_to (fr_interface r) (r_ifname d) = Ok ifname"
      "filter_rule_get_af r = Ok af" "endpoint_copy_to X (fr_from r) (r_src d) = Ok src"
      "endpoint_copy_to X (fr_to r) (r_dst d) = Ok dst" "str_try_copy_to (fr_label r) (r_label d) = Ok label"
    and p: "p = d\<lparr>r_action := filter_rule_action_to_u8 (fr_action r),
               r_direction := direction_to_u8 (fr_direction r),
               r_quick := of_bool (fr_quick r),
               r_log := rule_log_set_to_u8 (fr_log r),
               r_rt := route_to_u8 (fr_route r),
               r_keep_state := state_policy_to_u8 (fr_keep_state r),
               r_flags := tcp_flag_set_to_u8 (tf_check (fr_tcp_flags r)),
               r_flagset := tcp_flag_set_to_u8 (tf_mask (fr_tcp_flags r)),
               r_rule_flag := rule_flags (fr_action r),
               r_ifname := ifname, r_proto := proto_to_u8 X (fr_proto r),
               r_af := addr_family_to_u8 af, r_src := src, r_dst := dst, r_label := label,
               r_uid := uid_copy_to (fr_user r) (r_uid d),
               r_gid := gid_copy_to (fr_group r) (r_gid d),
               r_type := (case fr_icmp_type r of Some t \<Rightarrow> raw_type t + 1 | None \<Rightarrow> r_type d),
               r_code := (case fr_icmp_type r of
                   Some t \<Rightarrow> (case raw_code t of Some c \<Rightarrow> c + 1 | None \<Rightarrow> 0)
                 | None \<Rightarrow> r_code d)\<rparr>"
    using c unfolding filter_rule_copy_Ok_iff by blast
  have "unat (filter_rule_action_to_u8 (fr_action r)) =
      (case fr_action r of FilterRuleAction_Pass \<Rightarrow> 0 | FilterRuleAction_Drop _ \<Rightarrow> 1)"
    by (cases "fr_action r") simp_all
  moreover have "unat (rule_flags (fr_action r)) = (case fr_action r of FilterRuleAction_Pass \<Rightarrow> 0
      | FilterRuleAction_Drop a \<Rightarrow> (case a of DropAction_Drop \<Rightarrow> 0 | DropAction_ReturnRst \<Rightarrow> 1
        | DropAction_ReturnIcmp \<Rightarrow> 4 | DropAction_Return \<Rightarrow> 8))"
    by (simp add: pf_constants split: filter_rule_action.split drop_action.split)
  moreover have "unat (route_to_u8 (fr_route r)) =
      (case fr_route r of NoRoute \<Rightarrow> 0 | RouteTo _ \<Rightarrow> 2 | DupTo _ \<Rightarrow> 3 | ReplyTo _ \<Rightarrow> 4)"
    by (cases "fr_route r") simp_all
  moreover have "unat (state_policy_to_u8 (fr_keep_state r)) = (case fr_keep_state r of StatePolicy_None \<Rightarrow> 0
      | StatePolicy_Keep \<Rightarrow> 1 | StatePolicy_Modulate \<Rightarrow> 2 | StatePolicy_SynProxy \<Rightarrow> 3)"
    by (cases "fr_keep_state r") (simp_all add: pf_constants)
  moreover have "proto_try_from X (proto_to_u8 X (fr_proto r)) = Ok (fr_proto r)"
    using proto_codec [OF L] by blast
  ultimately show "filter_reads X r p"
    unfolding filter_reads_def p
    using part pf_rule_ids [OF wf] endpoint_copy_reads [OF N pf_rule_wfD(1) [OF wf] part(3)]
      endpoint_copy_reads [OF N pf_rule_wfD(2) [OF wf] part(4)]
    by (simp add: copy_reads del: filter_rule_action_to_u8.simps rule_flags.simps route_to_u8.simps
        state_policy_to_u8.simps proto_to_u8.simps split: option.split)
  show "filter_leaves r d p"
    unfolding filter_leaves_def p by (cases "fr_icmp_type r") simp_all
qed

lemma nat_copy_reads:
  assumes N: "documented_ipnetwork X" and wf: "pf_rule_wf d" and c: "nat_rule_copy_to X r d = Ok p"
  shows "nat_reads r p" and "nat_leaves d p"
proof -
  obtain ifname af src dst where part: "interface_copy_to (nr_interface r) (r_ifname d) = Ok ifname"
      "nat_rule_get_af r = Ok af" "endpoint_copy_to X (nr_from r) (r_src d) = Ok src"
      "endpoint_copy_to X (nr_to r) (r_dst d) = Ok dst"
    and p: "p = d\<lparr>r_action := nat_rule_action_to_u8 (nr_action r),
               r_ifname := ifname, r_af := addr_family_to_u8 af, r_src := src, r_dst := dst\<rparr>"
    using c unfolding nat_rule_copy_Ok_iff by blast
  have "unat (nat_rule_action_to_u8 (nr_action r)) =
      (case nr_action r of NatRuleAction_Nat _ \<Rightarrow> 4 | NatRuleAction_NoNat \<Rightarrow> 5)"
    by (cases "nr_action r") simp_all
  then show "nat_reads r p"
    unfolding nat_reads_def p
    using part endpoint_copy_reads [OF N pf_rule_wfD(1) [OF wf] part(3)]
      endpoint_copy_reads [OF N pf_rule_wfD(2) [OF wf] part(4)]
      af_copy_reads(2) [OF part(2)]
    by (intro conjI) (simp_all add: interface_copy_reads del: nat_rule_action_to_u8.simps)
  show "nat_leaves d p" unfolding nat_leaves_def p by simp
qed

lemma redirect_copy_reads:
  assumes L: "documented_libc X" and N: "documented_ipnetwork X" and wf: "pf_rule_wf d"
    and c: "redirect_rule_copy_to X r d = Ok p"
  shows "redirect_reads X r p" and "redirect_leaves d p"
proof -
  obtain ifname af src dst label where part: "interface_copy_to (rr_interface r) (r_ifname d) = Ok ifname"
      "redirect_rule_get_af r = Ok af" "endpoint_copy_to X (rr_from r) (r_src d) = Ok src"
      "endpoint_copy_to X (rr_to r) (r_dst d) = Ok dst" "str_try_copy_to (rr_label r) (r_label d) = Ok label"
    and p: "p = d\<lparr>r_action := redirect_rule_action_to_u8 (rr_action r),
               r_direction := direction_to_u8 (rr_direction r),
               r_quick := of_bool (rr_quick r), r_log := rule_log_set_to_u8 (rr_log r),
               r_ifname := ifname, r_proto := proto_to_u8 X (rr_proto r),
               r_af := addr_family_to_u8 af, r_src := src, r_dst := dst, r_label := label,
               r_uid := uid_copy_to (rr_user r) (r_uid d),
               r_gid := gid_copy_to (rr_group r) (r_gid d)\<rparr>"
    using c unfolding redirect_rule_copy_Ok_iff by blast
  have "unat (redirect_rule_action_to_u8 (rr_action r)) =
      (case rr_action r of RedirectRuleAction_Redirect \<Rightarrow> 8 | RedirectRuleAction_NoRedirect \<Rightarrow> 9)"
    by (cases "rr_action r") simp_all
  moreover have "proto_try_from X (proto_to_u8 X (rr_proto r)) = Ok (rr_proto r)"
    using proto_codec [OF L] by blast
  ultimately show "redirect_reads X r p"
    unfolding redirect_reads_def p
    using part pf_rule_ids [OF wf] endpoint_copy_reads [OF N pf_rule_wfD(1) [OF wf] part(3)]
      endpoint_copy_reads [OF N pf_rule_wfD(2) [OF wf] part(4)]
    by (simp add: copy_reads del: redirect_rule_action_to_u8.simps proto_to_u8.simps)
  show "redirect_leaves d p" unfolding redirect_leaves_def p by simp
qed

section \<open>Properties\<close>

text \<open>
  C27. A filter rule can be read back from the struct that it is copied into: if the copy succeeds,
  the rule had no fault, every field of the rule is what a reader of the struct finds (its address
  family as the least upper bound of the families in it), and every field of the struct that
  does not stand for one of the rule is as it was; if it fails, the error is the first fault of
  the rule; and it never panics.
\<close>

theorem filter_rule_struct:
  assumes "documented_libc X" and "documented_ipnetwork X" and "pf_rule_wf d"
  shows "case filter_rule_copy_to X r d of
      Ok p \<Rightarrow> filter_faults r = [] \<and> filter_reads X r p \<and> filter_leaves r d p
    | Err e \<Rightarrow> (\<exists>rest. filter_faults r = e # rest)
    | Panic \<Rightarrow> False"
  using copies_fail_as(1) [OF assms(2) pf_rule_wfD(4,3) [OF assms(3)], of r] filter_copy_reads [OF assms, of r]
  by (cases "filter_rule_copy_to X r d") (simp_all add: fails_as_def)

definition sample_label_rule :: filter_rule where
  "sample_label_rule = (filter_rule_default (FilterRuleAction_Drop DropAction_ReturnIcmp))
     \<lparr>fr_label := [115, 115, 104], fr_quick := True, fr_user := Id_Range 500 600 IdRange_Except\<rparr>"

lemma filter_rule_struct_witness:
  "case filter_rule_copy_to macos sample_label_rule pf_rule_zeroed of
     Ok p \<Rightarrow> cstr_until_nul (r_label p) = Some [115, 115, 104] \<and> unat (r_rule_flag p) = 4 \<and>
       unat (ru_op (r_uid p)) = 8 \<and> ru_uid (r_uid p) = [500, 600]
   | _ \<Rightarrow> False"
proof -
  have none: "filter_faults sample_label_rule = []"
    by (simp add: sample_label_rule_def filter_rule_default_def filter_faults_def policy_faults_def
        state_policy_ok_def name_faults_def port_faults_def mismatch_def endpoint_new_def endpoint_get_af_def join_af_def)
  obtain p where p: "filter_rule_copy_to macos sample_label_rule pf_rule_zeroed = Ok p"
    using filter_rule_struct [OF macos_libc macos_ipnetwork pf_rule_zeroed_wf, of sample_label_rule] none
    by (auto split: outcome.splits)
  then have "filter_reads macos sample_label_rule p" "pf_rule_wf p"
    using filter_rule_struct [OF macos_libc macos_ipnetwork pf_rule_zeroed_wf, of sample_label_rule]
      filter_cp.copy_wf [OF pf_rule_zeroed_wf p] by simp_all
  then show ?thesis
    unfolding p outcome.case using pf_rule_ids(1) [of p]
    by (simp add: filter_reads_def sample_label_rule_def filter_rule_default_def id_reads_def)
qed

text \<open>
  C31. NAT and redirect rules can be read back from the structs that they are copied into as well:
  action, interface, address family, source and destination of both, and direction, flags,
  protocol, label and ids of a redirect rule; every other field of the struct, the pool of the
  translation among them, is as it was. A copy that fails reports the first fault of the rule.
\<close>

theorem translation_rule_structs:
  assumes "documented_libc X" and "documented_ipnetwork X" and "pf_rule_wf d"
  shows "(case nat_rule_copy_to X n d of
        Ok p \<Rightarrow> nat_faults n = [] \<and> nat_reads n p \<and> nat_leaves d p
      | Err e \<Rightarrow> (\<exists>rest. nat_faults n = e # rest)
      | Panic \<Rightarrow> False) \<and>
    (case redirect_rule_copy_to X r d of
        Ok p \<Rightarrow> redirect_faults r = [] \<and> redirect_reads X r p \<and> redirect_leaves d p
      | Err e \<Rightarrow> (\<exists>rest. redirect_faults r = e # rest)
      | Panic \<Rightarrow> False)"
proof
  note fails = copies_fail_as(2,3) [OF assms(2) pf_rule_wfD(4,3) [OF assms(3)]]
  show "case nat_rule_copy_to X n d of Ok p \<Rightarrow> nat_faults n = [] \<and> nat_reads n p \<and> nat_leaves d p
      | Err e \<Rightarrow> (\<exists>rest. nat_faults n = e # rest) | Panic \<Rightarrow> False"
    using fails(1) [of n] nat_copy_reads [OF assms(2,3), of n]
    by (cases "nat_rule_copy_to X n d") (simp_all add: fails_as_def)
  show "case redirect_rule_copy_to X r d of Ok p \<Rightarrow> redirect_faults r = [] \<and> redirect_reads X r p \<and> redirect_leaves d p
      | Err e \<Rightarrow> (\<exists>rest. redirect_faults r = e # rest) | Panic \<Rightarrow> False"
    using fails(2) [of r] redirect_copy_reads [OF assms, of r]
    by (cases "redirect_rule_copy_to X r d") (simp_all add: fails_as_def)
qed

definition sample_web_rule :: redirect_rule where
  "sample_web_rule = sample_redirect_rule\<lparr>rr_to := endpoint_new Ip_Any (Port_One 80 PortUnary_NotEqual)\<rparr>"

lemma translation_rule_structs_witness:
  "case redirect_rule_copy_to macos sample_web_rule pf_rule_zeroed of
     Ok p \<Rightarrow> cstr_until_nul (r_ifname p) = Some [101, 110, 48] \<and> proto_try_from macos (r_proto p) = Ok Proto_Tcp \<and>
       unat (pr_op (ra_xport (r_dst p))) = 3
   | _ \<Rightarrow> False"
proof -
  have none: "redirect_faults sample_web_rule = []"
    by (simp add: sample_web_rule_def sample_redirect_rule_def redirect_faults_def name_faults_def port_faults_def
        mismatch_def endpoint_new_def endpoint_get_af_def join_af_def)
  note t = translation_rule_structs [OF macos_libc macos_ipnetwork pf_rule_zeroed_wf,
      THEN conjunct2, of sample_web_rule]
  obtain p where p: "redirect_rule_copy_to macos sample_web_rule pf_rule_zeroed = Ok p"
    using t none by (auto split: outcome.splits)
  then have "redirect_reads macos sample_web_rule p" using t by simp
  then show ?thesis
    unfolding p outcome.case
    by (simp add: redirect_reads_def sample_web_rule_def sample_redirect_rule_def endpoint_new_def
        endpoint_reads_def Let_def)
qed

end
