(* ===== verification/Kernel.thy ===== *)
theory Kernel
  imports Rules LayoutTable
begin

text \<open>
  The boundary between the crate and the kernel: the device file (\<open>utils.rs\<close>), the ioctl
  functions of \<open>ffi/mod.rs\<close>, and the macro \<open>ioctl_guard\<close> of \<open>macros.rs\<close>. The kernel is a
  parameter: a record of functions that take the argument struct of a request and return the
  value and \<open>errno\<close> of the system call, the struct as the kernel left it, and the kernel's next
  state. The world also carries the sequence of calls made so far, in which the properties are
  stated. Programs are functions on the world with a result; \<open>io_bind\<close> is the question mark.
\<close>

named_theorems io_simps "running a program step by step"
named_theorems emits_intros "the calls a program can make"

section \<open>Requests\<close>

type_synonym fd = i32

datatype ioctl_cmd =
    PfStart | PfStop | PfAddRule | PfGetRules | PfGetRule | PfClearStates | PfGetStatus
  | PfGetStates | PfChangeRule | PfInsertRule | PfDeleteRule | PfKillStates | PfBeginAddrs
  | PfAddAddr | PfBeginTrans | PfCommitTrans | PfGetIfaces | PfSetIfaceFlag | PfClearIfaceFlag

text \<open>What a request number encodes: whether it passes an argument, the group, the number and
  the size of the argument.\<close>

record request =
  rq_readwrite :: bool
  rq_group :: char
  rq_nr :: nat
  rq_size :: nat

definition none_request :: "nat \<Rightarrow> request" where
  "none_request n = \<lparr>rq_readwrite = False, rq_group = CHR ''D'', rq_nr = n, rq_size = 0\<rparr>"

definition readwrite_request :: "nat \<Rightarrow> layout \<Rightarrow> request" where
  "readwrite_request n l =
     \<lparr>rq_readwrite = True, rq_group = CHR ''D'', rq_nr = n, rq_size = size_of l\<rparr>"

fun ioctl_request :: "ioctl_cmd \<Rightarrow> request" where
  "ioctl_request PfStart = none_request 1"
| "ioctl_request PfStop = none_request 2"
| "ioctl_request PfAddRule = readwrite_request 4 pfioc_rule_layout"
| "ioctl_request PfGetRules = readwrite_request 6 pfioc_rule_layout"
| "ioctl_request PfGetRule = readwrite_request 7 pfioc_rule_layout"
| "ioctl_request PfClearStates = readwrite_request 18 pfioc_state_kill_layout"
| "ioctl_request PfGetStatus = readwrite_request 21 pf_status_layout"
| "ioctl_request PfGetStates = readwrite_request 25 pfioc_states_layout"
| "ioctl_request PfChangeRule = readwrite_request 26 pfioc_rule_layout"
| "ioctl_request PfInsertRule = readwrite_request 27 pfioc_rule_layout"
| "ioctl_request PfDeleteRule = readwrite_request 28 pfioc_rule_layout"
| "ioctl_request PfKillStates = readwrite_request 41 pfioc_state_kill_layout"
| "ioctl_request PfBeginAddrs = readwrite_request 51 pfioc_pooladdr_layout"
| "ioctl_request PfAddAddr = readwrite_request 52 pfioc_pooladdr_layout"
| "ioctl_request PfBeginTrans = readwrite_request 81 pfioc_trans_layout"
| "ioctl_request PfCommitTrans = readwrite_request 82 pfioc_trans_layout"
| "ioctl_request PfGetIfaces = readwrite_request 87 pfioc_iface_layout"
| "ioctl_request PfSetIfaceFlag = readwrite_request 89 pfioc_iface_layout"
| "ioctl_request PfClearIfaceFlag = readwrite_request 90 pfioc_iface_layout"

lemma rq_nr_request [simp]:
  "rq_nr (none_request n) = n" "rq_nr (readwrite_request n l) = n"
  by (simp_all add: none_request_def readwrite_request_def)

lemma ioctl_nr_inject: "rq_nr (ioctl_request c) = rq_nr (ioctl_request d) \<Longrightarrow> c = d"
  by (cases c; cases d; simp)

lemma ioctl_request_inject: "ioctl_request c = ioctl_request d \<longleftrightarrow> c = d"
  using ioctl_nr_inject by metis

section \<open>The kernel and the world\<close>

text \<open>
  One function for each type of argument. A pointer to an array is the array: \<open>t_array\<close>,
  \<open>ps_u\<close> and \<open>pfiio_buffer\<close> hold the elements that the pointer leads to, and what the kernel
  returns there are the elements it wrote, from the first on.
\<close>

record 'k kernel =
  sys_open :: "string \<Rightarrow> 'k \<Rightarrow> (io_error + fd) \<times> 'k"
  sys_none :: "request \<Rightarrow> fd \<Rightarrow> 'k \<Rightarrow> i32 \<times> i32 \<times> unit \<times> 'k"
  sys_rule :: "request \<Rightarrow> fd \<Rightarrow> pfioc_rule \<Rightarrow> 'k \<Rightarrow> i32 \<times> i32 \<times> pfioc_rule \<times> 'k"
  sys_state_kill :: "request \<Rightarrow> fd \<Rightarrow> pfioc_state_kill \<Rightarrow> 'k \<Rightarrow> i32 \<times> i32 \<times> pfioc_state_kill \<times> 'k"
  sys_status :: "request \<Rightarrow> fd \<Rightarrow> pf_status \<Rightarrow> 'k \<Rightarrow> i32 \<times> i32 \<times> pf_status \<times> 'k"
  sys_states :: "request \<Rightarrow> fd \<Rightarrow> pfioc_states \<Rightarrow> 'k \<Rightarrow> i32 \<times> i32 \<times> pfioc_states \<times> 'k"
  sys_pooladdr :: "request \<Rightarrow> fd \<Rightarrow> pfioc_pooladdr \<Rightarrow> 'k \<Rightarrow> i32 \<times> i32 \<times> pfioc_pooladdr \<times> 'k"
  sys_trans :: "request \<Rightarrow> fd \<Rightarrow> pfioc_trans \<Rightarrow> 'k \<Rightarrow> i32 \<times> i32 \<times> pfioc_trans \<times> 'k"
  sys_iface :: "request \<Rightarrow> fd \<Rightarrow> pfioc_iface \<Rightarrow> 'k \<Rightarrow> i32 \<times> i32 \<times> pfioc_iface \<times> 'k"

text \<open>A call and the argument it was given.\<close>

datatype event =
    OpenDevice string
  | CallNone ioctl_cmd
  | CallRule ioctl_cmd pfioc_rule
  | CallStateKill ioctl_cmd pfioc_state_kill
  | CallStatus ioctl_cmd pf_status
  | CallStates ioctl_cmd pfioc_states
  | CallPoolAddr ioctl_cmd pfioc_pooladdr
  | CallTrans ioctl_cmd pfioc_trans
  | CallIface ioctl_cmd pfioc_iface

record 'k world =
  w_kernel :: 'k
  w_calls :: "event list"

type_synonym ('k, 'a) io = "'k world \<Rightarrow> 'a result \<times> 'k world"

definition io_return :: "'a \<Rightarrow> ('k, 'a) io" where
  "io_return x = (\<lambda>w. (Ok x, w))"

text \<open>A computation that makes no call.\<close>

definition io_lift :: "'a result \<Rightarrow> ('k, 'a) io" where
  "io_lift r = (\<lambda>w. (r, w))"

definition io_bind :: "('k, 'a) io \<Rightarrow> ('a \<Rightarrow> ('k, 'b) io) \<Rightarrow> ('k, 'b) io" where
  "io_bind m f = (\<lambda>w. case m w of (Ok x, w') \<Rightarrow> f x w' | (Err e, w') \<Rightarrow> (Err e, w') | (Panic, w') \<Rightarrow> (Panic, w'))"

text \<open>A loop over a list with an early return on an error.\<close>

fun io_for :: "'a list \<Rightarrow> ('a \<Rightarrow> ('k, unit) io) \<Rightarrow> ('k, unit) io" where
  "io_for [] f = io_return ()"
| "io_for (x # xs) f = io_bind (f x) (\<lambda>_. io_for xs f)"

text \<open>\<open>collect::<Result<Vec<_>>>()\<close> over a mapped iterator: stops at the first error.\<close>

fun io_collect :: "'a list \<Rightarrow> ('a \<Rightarrow> ('k, 'b) io) \<Rightarrow> ('k, 'b list) io" where
  "io_collect [] f = io_return []"
| "io_collect (x # xs) f = io_bind (f x) (\<lambda>y. io_bind (io_collect xs f) (\<lambda>ys. io_return (y # ys)))"

section \<open>The guard of a call\<close>

definition IOCTL_ERROR :: i32 where
  "IOCTL_ERROR = - 1"

definition ioctl_guard :: "i32 \<Rightarrow> i32 \<Rightarrow> i32 \<Rightarrow> unit result" where
  "ioctl_guard already_active ret errno =
     (if ret = IOCTL_ERROR then
        Err (if errno = already_active then StateAlreadyActive else Ioctl (OsError errno))
      else Ok ())"

text \<open>A call that is recorded, and the call under its guard.\<close>

definition call :: "event \<Rightarrow> ('k \<Rightarrow> i32 \<times> i32 \<times> 'a \<times> 'k) \<Rightarrow> 'k world \<Rightarrow> i32 \<times> i32 \<times> 'a \<times> 'k world" where
  "call ev f w = (case f (w_kernel w) of (ret, errno, x, k) \<Rightarrow>
     (ret, errno, x, \<lparr>w_kernel = k, w_calls = w_calls w @ [ev]\<rparr>))"

definition guarded :: "i32 \<Rightarrow> ('k world \<Rightarrow> i32 \<times> i32 \<times> 'a \<times> 'k world) \<Rightarrow> ('k, 'a) io" where
  "guarded already_active f = (\<lambda>w. case f w of (ret, errno, x, w') \<Rightarrow>
     (obind (ioctl_guard already_active ret errno) (\<lambda>_. Ok x), w'))"

section \<open>The ioctl functions\<close>

abbreviation call_none :: "'k kernel \<Rightarrow> ioctl_cmd \<Rightarrow> fd \<Rightarrow> 'k world \<Rightarrow> i32 \<times> i32 \<times> unit \<times> 'k world" where
  "call_none K c d \<equiv> call (CallNone c) (sys_none K (ioctl_request c) d)"

abbreviation call_rule ::
  "'k kernel \<Rightarrow> ioctl_cmd \<Rightarrow> fd \<Rightarrow> pfioc_rule \<Rightarrow> 'k world \<Rightarrow> i32 \<times> i32 \<times> pfioc_rule \<times> 'k world" where
  "call_rule K c d a \<equiv> call (CallRule c a) (sys_rule K (ioctl_request c) d a)"

abbreviation call_state_kill ::
  "'k kernel \<Rightarrow> ioctl_cmd \<Rightarrow> fd \<Rightarrow> pfioc_state_kill \<Rightarrow> 'k world \<Rightarrow> i32 \<times> i32 \<times> pfioc_state_kill \<times> 'k world" where
  "call_state_kill K c d a \<equiv> call (CallStateKill c a) (sys_state_kill K (ioctl_request c) d a)"

abbreviation call_pooladdr ::
  "'k kernel \<Rightarrow> ioctl_cmd \<Rightarrow> fd \<Rightarrow> pfioc_pooladdr \<Rightarrow> 'k world \<Rightarrow> i32 \<times> i32 \<times> pfioc_pooladdr \<times> 'k world" where
  "call_pooladdr K c d a \<equiv> call (CallPoolAddr c a) (sys_pooladdr K (ioctl_request c) d a)"

abbreviation call_trans ::
  "'k kernel \<Rightarrow> ioctl_cmd \<Rightarrow> fd \<Rightarrow> pfioc_trans \<Rightarrow> 'k world \<Rightarrow> i32 \<times> i32 \<times> pfioc_trans \<times> 'k world" where
  "call_trans K c d a \<equiv> call (CallTrans c a) (sys_trans K (ioctl_request c) d a)"

abbreviation call_iface ::
  "'k kernel \<Rightarrow> ioctl_cmd \<Rightarrow> fd \<Rightarrow> pfioc_iface \<Rightarrow> 'k world \<Rightarrow> i32 \<times> i32 \<times> pfioc_iface \<times> 'k world" where
  "call_iface K c d a \<equiv> call (CallIface c a) (sys_iface K (ioctl_request c) d a)"

definition pf_start where "pf_start K d = call_none K PfStart d"
definition pf_stop where "pf_stop K d = call_none K PfStop d"
definition pf_add_rule where "pf_add_rule K d a = call_rule K PfAddRule d a"
definition pf_get_rules where "pf_get_rules K d a = call_rule K PfGetRules d a"
definition pf_get_rule where "pf_get_rule K d a = call_rule K PfGetRule d a"
definition pf_clear_states where "pf_clear_states K d a = call_state_kill K PfClearStates d a"
definition pf_get_status where
  "pf_get_status K d a = call (CallStatus PfGetStatus a) (sys_status K (ioctl_request PfGetStatus) d a)"
definition pf_get_states where
  "pf_get_states K d a = call (CallStates PfGetStates a) (sys_states K (ioctl_request PfGetStates) d a)"
definition pf_change_rule where "pf_change_rule K d a = call_rule K PfChangeRule d a"
definition pf_insert_rule where "pf_insert_rule K d a = call_rule K PfInsertRule d a"
definition pf_delete_rule where "pf_delete_rule K d a = call_rule K PfDeleteRule d a"
definition pf_kill_states where "pf_kill_states K d a = call_state_kill K PfKillStates d a"
definition pf_begin_addrs where "pf_begin_addrs K d a = call_pooladdr K PfBeginAddrs d a"
definition pf_add_addr where "pf_add_addr K d a = call_pooladdr K PfAddAddr d a"
definition pf_begin_trans where "pf_begin_trans K d a = call_trans K PfBeginTrans d a"
definition pf_commit_trans where "pf_commit_trans K d a = call_trans K PfCommitTrans d a"
definition pf_get_ifaces where "pf_get_ifaces K d a = call_iface K PfGetIfaces d a"
definition pf_set_iface_flag where "pf_set_iface_flag K d a = call_iface K PfSetIfaceFlag d a"
definition pf_clear_iface_flag where "pf_clear_iface_flag K d a = call_iface K PfClearIfaceFlag d a"

lemmas ioctl_defs =
  pf_start_def pf_stop_def pf_add_rule_def pf_get_rules_def pf_get_rule_def pf_clear_states_def
  pf_get_status_def pf_get_states_def pf_change_rule_def pf_insert_rule_def pf_delete_rule_def
  pf_kill_states_def pf_begin_addrs_def pf_add_addr_def pf_begin_trans_def pf_commit_trans_def
  pf_get_ifaces_def pf_set_iface_flag_def pf_clear_iface_flag_def

section \<open>The helpers of \<open>utils.rs\<close>\<close>

definition PF_DEV_PATH :: string where
  "PF_DEV_PATH = ''/dev/pf''"

definition open_pf :: "'k kernel \<Rightarrow> ('k, fd) io" where
  "open_pf K = (\<lambda>w. case sys_open K PF_DEV_PATH (w_kernel w) of (r, k) \<Rightarrow>
     (case r of Inl e \<Rightarrow> Err (DeviceOpen PF_DEV_PATH e) | Inr d \<Rightarrow> Ok d,
      \<lparr>w_kernel = k, w_calls = w_calls w @ [OpenDevice PF_DEV_PATH]\<rparr>))"

definition add_pool_address ::
  "'k kernel \<Rightarrow> externals \<Rightarrow> fd \<Rightarrow> pool_addr \<Rightarrow> u32 \<Rightarrow> ('k, unit) io" where
  "add_pool_address K X d pool_addr pool_ticket =
    (let pfioc_pooladdr = pfioc_pooladdr_zeroed\<lparr>ipa_ticket := pool_ticket\<rparr> in
     io_bind (io_lift (pool_addr_copy_to X pool_addr (ipa_addr pfioc_pooladdr))) (\<lambda>addr.
     let pfioc_pooladdr = pfioc_pooladdr\<lparr>ipa_addr := addr\<rparr> in
     io_bind (guarded (EEXIST X) (pf_add_addr K d pfioc_pooladdr)) (\<lambda>_. io_return ())))"

definition get_pool_ticket :: "'k kernel \<Rightarrow> externals \<Rightarrow> fd \<Rightarrow> ('k, u32) io" where
  "get_pool_ticket K X d =
     io_bind (guarded (EEXIST X) (pf_begin_addrs K d pfioc_pooladdr_zeroed)) (\<lambda>pfioc_pooladdr.
     io_return (ipa_ticket pfioc_pooladdr))"

definition get_ticket :: "'k kernel \<Rightarrow> externals \<Rightarrow> fd \<Rightarrow> rstring \<Rightarrow> anchor_kind \<Rightarrow> ('k, u32) io" where
  "get_ticket K X d anchor akind =
    (let pfioc_rule = pfioc_rule_zeroed\<lparr>ir_action := bindgen_ty_11_as_u32 PF_CHANGE_GET_TICKET\<rparr>;
         pfioc_rule = pfioc_rule\<lparr>ir_rule := (ir_rule pfioc_rule)\<lparr>r_action := anchor_kind_to_u8 akind\<rparr>\<rparr> in
     io_bind (io_lift (copy_anchor_name anchor (ir_anchor pfioc_rule))) (\<lambda>anchor_buf.
     let pfioc_rule = pfioc_rule\<lparr>ir_anchor := anchor_buf\<rparr> in
     io_bind (guarded (EEXIST X) (pf_change_rule K d pfioc_rule)) (\<lambda>pfioc_rule.
     io_return (ir_ticket pfioc_rule))))"

section \<open>Running a program\<close>

lemma io_return_eq [io_simps]: "io_return x w = (r, w') \<longleftrightarrow> r = Ok x \<and> w' = w"
  by (auto simp: io_return_def)

lemma io_lift_eq [io_simps]: "io_lift x w = (r, w') \<longleftrightarrow> x = r \<and> w' = w"
  by (auto simp: io_lift_def)

lemma io_bind_Ok [io_simps]:
  "io_bind m f w = (Ok y, w'') \<longleftrightarrow> (\<exists>x w'. m w = (Ok x, w') \<and> f x w' = (Ok y, w''))"
  by (auto simp: io_bind_def split: prod.splits outcome.splits)

lemma io_bind_Err [io_simps]:
  "io_bind m f w = (Err e, w'') \<longleftrightarrow>
     m w = (Err e, w'') \<or> (\<exists>x w'. m w = (Ok x, w') \<and> f x w' = (Err e, w''))"
  by (auto simp: io_bind_def split: prod.splits outcome.splits)

lemma io_bind_Panic [io_simps]:
  "io_bind m f w = (Panic, w'') \<longleftrightarrow>
     m w = (Panic, w'') \<or> (\<exists>x w'. m w = (Ok x, w') \<and> f x w' = (Panic, w''))"
  by (auto simp: io_bind_def split: prod.splits outcome.splits)

lemma io_lift_Ok [simp]: "io_lift (Ok x) = io_return x"
  by (simp add: io_lift_def io_return_def)

lemma io_bind_lift: "io_bind (io_lift r) f w =
    (case r of Ok x \<Rightarrow> f x w | Err e \<Rightarrow> (Err e, w) | Panic \<Rightarrow> (Panic, w))"
  by (simp add: io_bind_def io_lift_def split: outcome.splits)

lemma io_bind_cong: "(\<And>x. f x = g x) \<Longrightarrow> io_bind m f = io_bind m g"
  by (rule arg_cong [where f = "io_bind m"]) (rule ext)

lemma io_bind_lift_cong: "(\<And>x. r = Ok x \<Longrightarrow> f x = g x) \<Longrightarrow> io_bind (io_lift r) f = io_bind (io_lift r) g"
  by (rule ext) (simp add: io_bind_lift split: outcome.split)

lemma io_bind_return [simp]: "io_bind (io_return x) f = f x"
  by (simp add: io_bind_def io_return_def)

lemma io_bind_return_right [simp]: "io_bind m io_return = m"
  by (rule ext) (auto simp: io_bind_def io_return_def split: prod.splits outcome.splits)

lemma io_bind_unit_right [simp]: "io_bind m (\<lambda>_. io_return ()) = m"
  using io_bind_return_right [of m] by simp

lemma io_bind_assoc: "io_bind (io_bind m f) g = io_bind m (\<lambda>x. io_bind (f x) g)"
  by (rule ext) (auto simp: io_bind_def split: prod.splits outcome.splits)

lemma io_for_append: "io_for (xs @ ys) f = io_bind (io_for xs f) (\<lambda>_. io_for ys f)"
  by (induction xs) (simp_all add: io_bind_assoc)

lemma io_for_concat: "io_for (concat xss) f = io_for xss (\<lambda>xs. io_for xs f)"
  by (induction xss) (simp_all add: io_for_append)

lemma io_for_map: "io_for (map g xs) f = io_for xs (\<lambda>x. f (g x))"
  by (induction xs) simp_all

lemma call_eq [io_simps]:
  "call ev f w = (ret, errno, x, w') \<longleftrightarrow>
     f (w_kernel w) = (ret, errno, x, w_kernel w') \<and> w_calls w' = w_calls w @ [ev]"
  by (cases w') (auto simp: call_def split: prod.splits)

lemma ioctl_guard_Ok_iff [outcome_simps]: "ioctl_guard a ret errno = Ok () \<longleftrightarrow> ret \<noteq> - 1"
  by (simp add: ioctl_guard_def IOCTL_ERROR_def)

lemma ioctl_guard_Err_iff [outcome_simps]:
  "ioctl_guard a ret errno = Err e \<longleftrightarrow>
     ret = - 1 \<and> e = (if errno = a then StateAlreadyActive else Ioctl (OsError errno))"
  by (auto simp: ioctl_guard_def IOCTL_ERROR_def)

lemma ioctl_guard_no_panic [simp]: "ioctl_guard a ret errno \<noteq> Panic"
  by (simp add: ioctl_guard_def)

lemma guarded_Ok [io_simps]:
  "guarded a f w = (Ok x, w') \<longleftrightarrow> (\<exists>ret errno. f w = (ret, errno, x, w') \<and> ret \<noteq> - 1)"
  by (auto simp: guarded_def outcome_simps split: prod.splits)

lemma guarded_Err [io_simps]:
  "guarded a f w = (Err e, w') \<longleftrightarrow>
     (\<exists>errno x. f w = (- 1, errno, x, w') \<and>
        e = (if errno = a then StateAlreadyActive else Ioctl (OsError errno)))"
  by (auto simp: guarded_def outcome_simps split: prod.splits)

lemma guarded_Panic [io_simps, simp]: "guarded a f w \<noteq> (Panic, w')"
  by (auto simp: guarded_def outcome_simps split: prod.splits)

section \<open>The calls of a program\<close>

text \<open>Every call that the program makes, in any run, satisfies the predicate.\<close>

definition emits :: "(event \<Rightarrow> bool) \<Rightarrow> ('k, 'a) io \<Rightarrow> bool" where
  "emits P m \<longleftrightarrow>
     (\<forall>w r w'. m w = (r, w') \<longrightarrow> (\<exists>evs. w_calls w' = w_calls w @ evs \<and> list_all P evs))"

lemma emitsD: "emits P m \<Longrightarrow> m w = (r, w') \<Longrightarrow> \<exists>evs. w_calls w' = w_calls w @ evs \<and> list_all P evs"
  by (simp add: emits_def)

lemma emits_return [emits_intros]: "emits P (io_return x)"
  by (simp add: emits_def io_return_def)

lemma emits_lift [emits_intros]: "emits P (io_lift r)"
  by (simp add: emits_def io_lift_def)

lemma emits_bind [emits_intros]:
  assumes m: "emits P m" and f: "\<And>x. emits P (f x)"
  shows "emits P (io_bind m f)"
  unfolding emits_def
proof (intro allI impI)
  fix w r w''
  assume run: "io_bind m f w = (r, w'')"
  obtain s w' where s: "m w = (s, w')" by (cases "m w")
  obtain evs where evs: "w_calls w' = w_calls w @ evs" "list_all P evs"
    using emitsD [OF m s] by blast
  show "\<exists>evs. w_calls w'' = w_calls w @ evs \<and> list_all P evs"
  proof (cases s)
    case (Ok x)
    then have "f x w' = (r, w'')" using run s by (simp add: io_bind_def)
    then obtain more where "w_calls w'' = w_calls w' @ more" "list_all P more"
      using emitsD [OF f] by blast
    with evs show ?thesis by auto
  qed (use run s evs in \<open>auto simp: io_bind_def\<close>)
qed

lemma emits_call [emits_intros]: "P ev \<Longrightarrow> emits P (guarded a (call ev f))"
  by (auto simp: emits_def guarded_def call_def split: prod.splits)

lemma emits_open_pf [emits_intros]: "P (OpenDevice PF_DEV_PATH) \<Longrightarrow> emits P (open_pf K)"
  by (auto simp: emits_def open_pf_def split: prod.splits)

lemma emits_for [emits_intros]: "(\<And>x. x \<in> set xs \<Longrightarrow> emits P (f x)) \<Longrightarrow> emits P (io_for xs f)"
  by (induction xs) (auto intro: emits_intros)

lemma emits_collect [emits_intros]:
  "(\<And>x. x \<in> set xs \<Longrightarrow> emits P (f x)) \<Longrightarrow> emits P (io_collect xs f)"
  by (induction xs) (auto intro: emits_intros)

lemma emits_mono: "emits P m \<Longrightarrow> (\<And>ev. P ev \<Longrightarrow> Q ev) \<Longrightarrow> emits Q m"
  unfolding emits_def list_all_iff by metis

section \<open>Programs that do not panic\<close>

definition no_panic :: "('k, 'a) io \<Rightarrow> bool" where
  "no_panic m \<longleftrightarrow> (\<forall>w w'. m w \<noteq> (Panic, w'))"

named_theorems no_panic_intros "programs that do not panic"

lemma no_panicD: "no_panic m \<Longrightarrow> m w \<noteq> (Panic, w')"
  by (simp add: no_panic_def)

lemma no_panic_return [no_panic_intros]: "no_panic (io_return x)"
  by (simp add: no_panic_def io_return_def)

lemma no_panic_lift [no_panic_intros]: "r \<noteq> Panic \<Longrightarrow> no_panic (io_lift r)"
  by (simp add: no_panic_def io_lift_def)

lemma no_panic_bind [no_panic_intros]:
  "no_panic m \<Longrightarrow> (\<And>x. no_panic (f x)) \<Longrightarrow> no_panic (io_bind m f)"
  by (simp add: no_panic_def io_bind_Panic)

lemma no_panic_guarded [no_panic_intros]: "no_panic (guarded a f)"
  by (simp add: no_panic_def)

lemma no_panic_open_pf [no_panic_intros]: "no_panic (open_pf K)"
  by (auto simp: no_panic_def open_pf_def split: prod.splits sum.splits)

lemma no_panic_for [no_panic_intros]: "(\<And>x. x \<in> set xs \<Longrightarrow> no_panic (f x)) \<Longrightarrow> no_panic (io_for xs f)"
  by (induction xs) (auto intro: no_panic_intros)

lemma no_panic_collect [no_panic_intros]:
  "(\<And>x. x \<in> set xs \<Longrightarrow> no_panic (f x)) \<Longrightarrow> no_panic (io_collect xs f)"
  by (induction xs) (auto intro: no_panic_intros)

section \<open>The helpers\<close>

lemma pool_addr_copy_ok:
  assumes "documented_ipnetwork X" "pf_pooladdr_wf d"
  shows "(\<exists>d'. pool_addr_copy_to X p d = Ok d') \<longleftrightarrow> interface_ok (po_interface p)"
  using ip_copy_documented [OF assms(1), of "po_ip p" "pa_addr d"]
    interface_copy_ok [of "pa_ifname d" "po_interface p"] assms(2)
  by (auto simp: pool_addr_copy_to_def pf_pooladdr_wf_def outcome_simps)

lemma pool_addr_copy_no_panic:
  assumes "documented_ipnetwork X"
  shows "pool_addr_copy_to X p d \<noteq> Panic"
  using ip_copy_documented [OF assms, of "po_ip p" "pa_addr d"]
  by (auto simp: pool_addr_copy_to_def outcome_simps)

lemma emits_add_pool_address [emits_intros]:
  "(\<And>a. P (CallPoolAddr PfAddAddr a)) \<Longrightarrow> emits P (add_pool_address K X d p t)"
  by (auto simp: add_pool_address_def Let_def pf_add_addr_def intro!: emits_intros)

lemma emits_get_pool_ticket [emits_intros]:
  "P (CallPoolAddr PfBeginAddrs pfioc_pooladdr_zeroed) \<Longrightarrow> emits P (get_pool_ticket K X d)"
  by (auto simp: get_pool_ticket_def pf_begin_addrs_def intro!: emits_intros)

lemma emits_get_ticket [emits_intros]:
  "(\<And>a. P (CallRule PfChangeRule a)) \<Longrightarrow> emits P (get_ticket K X d anchor k)"
  by (auto simp: get_ticket_def Let_def pf_change_rule_def intro!: emits_intros)

lemma no_panic_add_pool_address [no_panic_intros]:
  "documented_ipnetwork X \<Longrightarrow> no_panic (add_pool_address K X d p t)"
  by (auto simp: add_pool_address_def Let_def pool_addr_copy_no_panic intro!: no_panic_intros)

lemma no_panic_get_pool_ticket [no_panic_intros]: "no_panic (get_pool_ticket K X d)"
  by (auto simp: get_pool_ticket_def intro!: no_panic_intros)

lemma no_panic_get_ticket [no_panic_intros]: "no_panic (get_ticket K X d anchor k)"
  by (auto simp: get_ticket_def Let_def intro!: no_panic_intros)

section \<open>A kernel that refuses nothing\<close>

text \<open>No call fails; what the kernel answers is open.\<close>

definition obliging :: "'k kernel \<Rightarrow> bool" where
  "obliging K \<longleftrightarrow>
     (\<forall>p k. \<exists>d. fst (sys_open K p k) = Inr d) \<and>
     (\<forall>rq d k. fst (sys_none K rq d k) \<noteq> - 1) \<and>
     (\<forall>rq d a k. fst (sys_rule K rq d a k) \<noteq> - 1) \<and>
     (\<forall>rq d a k. fst (sys_state_kill K rq d a k) \<noteq> - 1) \<and>
     (\<forall>rq d a k. fst (sys_status K rq d a k) \<noteq> - 1) \<and>
     (\<forall>rq d a k. fst (sys_states K rq d a k) \<noteq> - 1) \<and>
     (\<forall>rq d a k. fst (sys_pooladdr K rq d a k) \<noteq> - 1) \<and>
     (\<forall>rq d a k. fst (sys_trans K rq d a k) \<noteq> - 1) \<and>
     (\<forall>rq d a k. fst (sys_iface K rq d a k) \<noteq> - 1)"

text \<open>A program that succeeds in every world.\<close>

definition succeeds :: "('k, 'a) io \<Rightarrow> bool" where
  "succeeds m \<longleftrightarrow> (\<forall>w. \<exists>x w'. m w = (Ok x, w'))"

named_theorems succeeds_intros "programs that succeed"

lemma succeedsD: "succeeds m \<Longrightarrow> \<exists>x w'. m w = (Ok x, w')"
  by (simp add: succeeds_def)

lemma succeeds_return [succeeds_intros]: "succeeds (io_return x)"
  by (simp add: succeeds_def io_return_def)

lemma succeeds_bind [succeeds_intros]:
  "succeeds m \<Longrightarrow> (\<And>x. succeeds (f x)) \<Longrightarrow> succeeds (io_bind m f)"
  unfolding succeeds_def io_bind_Ok by metis

lemma succeeds_for [succeeds_intros]:
  "(\<And>x. x \<in> set xs \<Longrightarrow> succeeds (f x)) \<Longrightarrow> succeeds (io_for xs f)"
  by (induction xs) (auto intro: succeeds_intros)

lemma succeeds_call: "(\<And>k. fst (f k) \<noteq> - 1) \<Longrightarrow> succeeds (guarded a (call ev f))"
  by (auto simp: succeeds_def guarded_def call_def ioctl_guard_def IOCTL_ERROR_def split: prod.split)
    (metis fst_conv)

lemma succeeds_calls [succeeds_intros]:
  assumes "obliging K"
  shows "succeeds (guarded a (call ev (sys_none K rq d)))"
    "succeeds (guarded a (call ev (sys_rule K rq d r)))"
    "succeeds (guarded a (call ev (sys_state_kill K rq d s)))"
    "succeeds (guarded a (call ev (sys_status K rq d st)))"
    "succeeds (guarded a (call ev (sys_states K rq d ss)))"
    "succeeds (guarded a (call ev (sys_pooladdr K rq d p)))"
    "succeeds (guarded a (call ev (sys_trans K rq d t)))"
    "succeeds (guarded a (call ev (sys_iface K rq d i)))"
  using assms by (auto simp: obliging_def intro!: succeeds_call)

lemma succeeds_open_pf [succeeds_intros]: "obliging K \<Longrightarrow> succeeds (open_pf K)"
  by (auto simp: succeeds_def open_pf_def obliging_def split: prod.split sum.split)
    (metis fst_conv sum.simps(4))+

section \<open>A kernel that grants every request\<close>

text \<open>It hands out tickets from a counter and leaves everything else as it was; the concrete runs
  of the development use it.\<close>

definition granting :: "u32 kernel" where
  "granting =
     \<lparr>sys_open = (\<lambda>path k. (Inr 3, k)),
      sys_none = (\<lambda>rq d k. (0, 0, (), k)),
      sys_rule = (\<lambda>rq d a k. (0, 0, a\<lparr>ir_ticket := k\<rparr>, k + 1)),
      sys_state_kill = (\<lambda>rq d a k. (0, 0, a, k)),
      sys_status = (\<lambda>rq d a k. (0, 0, a, k)),
      sys_states = (\<lambda>rq d a k. (0, 0, a, k)),
      sys_pooladdr = (\<lambda>rq d a k. (0, 0, a\<lparr>ipa_ticket := k\<rparr>, k + 1)),
      sys_trans = (\<lambda>rq d a k. (0, 0, a\<lparr>t_array := map (\<lambda>e. e\<lparr>te_ticket := k\<rparr>) (t_array a)\<rparr>, k + 1)),
      sys_iface = (\<lambda>rq d a k. (0, 0, a, k))\<rparr>"

definition fresh_world :: "u32 world" where
  "fresh_world = \<lparr>w_kernel = 1, w_calls = []\<rparr>"

text \<open>Running a program on it.\<close>

lemmas run_defs =
  io_bind_def io_return_def io_lift_def guarded_def call_def ioctl_guard_def IOCTL_ERROR_def
  ioctl_defs open_pf_def granting_def fresh_world_def get_pool_ticket_def add_pool_address_def
  get_ticket_def

lemma granting_obliging: "obliging granting"
  by (simp add: obliging_def granting_def)

section \<open>Properties\<close>

text \<open>
  The ioctl functions make pairwise different requests, even by number alone, and the size of
  every argument, as the layouts of the bindings give it, fits the thirteen bits that an ioctl
  number has for it.
\<close>

lemma ioctl_requests_distinct:
  "(rq_nr (ioctl_request c) = rq_nr (ioctl_request d) \<longleftrightarrow> c = d) \<and>
   rq_size (ioctl_request c) < 2 ^ 13"
proof
  show "rq_nr (ioctl_request c) = rq_nr (ioctl_request d) \<longleftrightarrow> c = d"
    using ioctl_nr_inject by blast
  show "rq_size (ioctl_request c) < 2 ^ 13"
    by (cases c) (simp_all add: none_request_def readwrite_request_def layout_checks)
qed

text \<open>
  Every call goes through the guard: it is made exactly once; a return value other than -1 gives
  what the kernel wrote, and -1 becomes \<open>StateAlreadyActive\<close> for the one error number that the
  caller named and an ioctl error with the number otherwise. It never panics.
\<close>

lemma ioctl_guard_classifies:
  "guarded a (call ev f) w =
     (case f (w_kernel w) of (ret, errno, x, k) \<Rightarrow>
        (if ret \<noteq> - 1 then Ok x
         else if errno = a then Err StateAlreadyActive
         else Err (Ioctl (OsError errno)),
         \<lparr>w_kernel = k, w_calls = w_calls w @ [ev]\<rparr>))"
  by (simp add: guarded_def call_def ioctl_guard_def IOCTL_ERROR_def split: prod.split)

end
