(* ===== verification/Transaction.thy ===== *)
theory Transaction
  imports Kernel
begin

text \<open>
  Transactions (\<open>transaction.rs\<close>): the changes requested for each anchor, the elements and
  tickets of the kernel's transaction, the rules added under these tickets, and the commit. The
  iteration order of the \<open>HashMap\<close> is an argument of \<open>commit\<close>; the values that
  \<open>Option::take\<close> leaves behind are not, as the transaction is consumed. The helpers that add a
  rule of one of the four kinds share the contract \<open>rule_adder\<close>.
\<close>

section \<open>Changes\<close>

record anchor_change =
  filter_rules :: "filter_rule list option"
  nat_rules :: "nat_rule list option"
  redirect_rules :: "redirect_rule list option"
  scrub_rules :: "scrub_rule list option"

definition anchor_change_new :: anchor_change where
  "anchor_change_new =
     \<lparr>filter_rules = None, nat_rules = None, redirect_rules = None, scrub_rules = None\<rparr>"

definition set_filter_rules :: "filter_rule list \<Rightarrow> anchor_change \<Rightarrow> anchor_change" where
  "set_filter_rules rules c = c\<lparr>filter_rules := Some rules\<rparr>"

definition set_nat_rules :: "nat_rule list \<Rightarrow> anchor_change \<Rightarrow> anchor_change" where
  "set_nat_rules rules c = c\<lparr>nat_rules := Some rules\<rparr>"

definition set_redirect_rules :: "redirect_rule list \<Rightarrow> anchor_change \<Rightarrow> anchor_change" where
  "set_redirect_rules rules c = c\<lparr>redirect_rules := Some rules\<rparr>"

definition set_scrub_rules :: "scrub_rule list \<Rightarrow> anchor_change \<Rightarrow> anchor_change" where
  "set_scrub_rules rules c = c\<lparr>scrub_rules := Some rules\<rparr>"

record transaction =
  change_by_anchor :: "rstring \<Rightarrow> anchor_change option"

definition transaction_new :: transaction where
  "transaction_new = \<lparr>change_by_anchor = Map.empty\<rparr>"

definition add_change :: "rstring \<Rightarrow> anchor_change \<Rightarrow> transaction \<Rightarrow> transaction" where
  "add_change anchor_name anchor_change t =
     t\<lparr>change_by_anchor := (change_by_anchor t)(anchor_name \<mapsto> anchor_change)\<rparr>"

text \<open>The changes of one kind, in the order of iteration.\<close>

definition partition_changes ::
  "(anchor_change \<Rightarrow> 'r list option) \<Rightarrow> rstring list \<Rightarrow> transaction \<Rightarrow> (rstring \<times> 'r list) list" where
  "partition_changes rules order t = List.map_filter (\<lambda>anchor.
     case change_by_anchor t anchor of
       Some change \<Rightarrow> map_option (Pair anchor) (rules change)
     | None \<Rightarrow> None) order"

section \<open>Adding a rule under a ticket\<close>

text \<open>The pool address of a route is registered and the list head stored in the rule.\<close>

definition add_filter_rule ::
  "'k kernel \<Rightarrow> externals \<Rightarrow> fd \<Rightarrow> rstring \<Rightarrow> filter_rule \<Rightarrow> u32 \<Rightarrow> ('k, unit) io" where
  "add_filter_rule K X d anchor rule ticket =
    (let pfioc_rule = pfioc_rule_zeroed\<lparr>ir_action := bindgen_ty_11_as_u32 PF_CHANGE_NONE\<rparr> in
     io_bind (io_lift (copy_anchor_name anchor (ir_anchor pfioc_rule))) (\<lambda>anchor_buf.
     let pfioc_rule = pfioc_rule\<lparr>ir_anchor := anchor_buf\<rparr> in
     io_bind (io_lift (filter_rule_copy_to X rule (ir_rule pfioc_rule))) (\<lambda>pf_rule.
     let pfioc_rule = pfioc_rule\<lparr>ir_rule := pf_rule\<rparr> in
     io_bind (get_pool_ticket K X d) (\<lambda>pool_ticket.
     io_bind (case get_pool_addr (get_route rule) of
         Some pool_addr \<Rightarrow>
           io_bind (add_pool_address K X d pool_addr pool_ticket) (\<lambda>_.
           io_bind (io_lift (pool_addr_list_new X [pool_addr])) (\<lambda>pool_addr_list.
           io_return (pfioc_rule\<lparr>ir_rule := (ir_rule pfioc_rule)
             \<lparr>r_rpool := (r_rpool (ir_rule pfioc_rule))\<lparr>pp_list := to_palist pool_addr_list\<rparr>\<rparr>\<rparr>)))
       | None \<Rightarrow> io_return pfioc_rule) (\<lambda>pfioc_rule.
     let pfioc_rule = pfioc_rule\<lparr>ir_ticket := ticket, ir_pool_ticket := pool_ticket\<rparr> in
     io_bind (guarded (EEXIST X) (pf_add_rule K d pfioc_rule)) (\<lambda>_. io_return ()))))))"

text \<open>Storing a pool in a rule, shared by NAT and redirect rules: the list head of an address
  and the proxy ports.\<close>

definition set_rpool :: "externals \<Rightarrow> endpoint \<Rightarrow> pfioc_rule \<Rightarrow> pfioc_rule result" where
  "set_rpool X e pfioc_rule =
     obind (to_pool_addr_list X (ep_ip e)) (\<lambda>pool.
     let rpool = (r_rpool (ir_rule pfioc_rule))\<lparr>pp_list := to_palist pool\<rparr> in
     obind (port_copy_to_pool (ep_port e) rpool) (\<lambda>rpool.
     Ok (pfioc_rule\<lparr>ir_rule := (ir_rule pfioc_rule)\<lparr>r_rpool := rpool\<rparr>\<rparr>)))"

definition add_nat_rule ::
  "'k kernel \<Rightarrow> externals \<Rightarrow> fd \<Rightarrow> rstring \<Rightarrow> nat_rule \<Rightarrow> u32 \<Rightarrow> ('k, unit) io" where
  "add_nat_rule K X d anchor rule ticket =
    (let pfioc_rule = pfioc_rule_zeroed in
     io_bind (io_lift (copy_anchor_name anchor (ir_anchor pfioc_rule))) (\<lambda>anchor_buf.
     let pfioc_rule = pfioc_rule\<lparr>ir_anchor := anchor_buf\<rparr> in
     io_bind (io_lift (nat_rule_copy_to X rule (ir_rule pfioc_rule))) (\<lambda>pf_rule.
     let pfioc_rule = pfioc_rule\<lparr>ir_rule := pf_rule\<rparr> in
     io_bind (get_pool_ticket K X d) (\<lambda>pool_ticket.
     io_bind (case get_nat_to rule of
         Some nat_to \<Rightarrow>
           io_bind (add_pool_address K X d
             (pool_addr_from_ip (ep_ip (nat_endpoint_deref nat_to))) pool_ticket) (\<lambda>_.
           io_lift (set_rpool X (nat_endpoint_deref nat_to) pfioc_rule))
       | None \<Rightarrow> io_return pfioc_rule) (\<lambda>pfioc_rule.
     let pfioc_rule = pfioc_rule\<lparr>ir_pool_ticket := pool_ticket, ir_ticket := ticket\<rparr> in
     io_bind (guarded (EEXIST X) (pf_add_rule K d pfioc_rule)) (\<lambda>_. io_return ()))))))"

definition add_redirect_rule ::
  "'k kernel \<Rightarrow> externals \<Rightarrow> fd \<Rightarrow> rstring \<Rightarrow> redirect_rule \<Rightarrow> u32 \<Rightarrow> ('k, unit) io" where
  "add_redirect_rule K X d anchor rule ticket =
    (let pfioc_rule = pfioc_rule_zeroed in
     io_bind (io_lift (copy_anchor_name anchor (ir_anchor pfioc_rule))) (\<lambda>anchor_buf.
     let pfioc_rule = pfioc_rule\<lparr>ir_anchor := anchor_buf\<rparr> in
     io_bind (io_lift (redirect_rule_copy_to X rule (ir_rule pfioc_rule))) (\<lambda>pf_rule.
     let pfioc_rule = pfioc_rule\<lparr>ir_rule := pf_rule\<rparr>; redirect_to = get_redirect_to rule in
     io_bind (get_pool_ticket K X d) (\<lambda>pool_ticket.
     io_bind (add_pool_address K X d (pool_addr_from_ip (ep_ip redirect_to)) pool_ticket) (\<lambda>_.
     io_bind (io_lift (set_rpool X redirect_to pfioc_rule)) (\<lambda>pfioc_rule.
     let pfioc_rule = pfioc_rule\<lparr>ir_pool_ticket := pool_ticket, ir_ticket := ticket\<rparr> in
     io_bind (guarded (EEXIST X) (pf_add_rule K d pfioc_rule)) (\<lambda>_. io_return ())))))))"

definition add_scrub_rule ::
  "'k kernel \<Rightarrow> externals \<Rightarrow> fd \<Rightarrow> rstring \<Rightarrow> scrub_rule \<Rightarrow> u32 \<Rightarrow> ('k, unit) io" where
  "add_scrub_rule K X d anchor rule ticket =
    (let pfioc_rule = pfioc_rule_zeroed in
     io_bind (io_lift (copy_anchor_name anchor (ir_anchor pfioc_rule))) (\<lambda>anchor_buf.
     let pfioc_rule = pfioc_rule\<lparr>ir_anchor := anchor_buf\<rparr> in
     io_bind (io_lift (scrub_rule_copy_to rule (ir_rule pfioc_rule))) (\<lambda>pf_rule.
     let pfioc_rule = pfioc_rule\<lparr>ir_rule := pf_rule\<rparr> in
     io_bind (get_pool_ticket K X d) (\<lambda>pool_ticket.
     let pfioc_rule = pfioc_rule\<lparr>ir_ticket := ticket, ir_pool_ticket := pool_ticket\<rparr> in
     io_bind (guarded (EEXIST X) (pf_add_rule K d pfioc_rule)) (\<lambda>_. io_return ())))))"

section \<open>The transaction of the kernel\<close>

definition new_trans_element :: "rstring \<Rightarrow> ruleset_kind \<Rightarrow> pfioc_trans_e result" where
  "new_trans_element anchor rkind =
    (let pfioc_trans_e = pfioc_trans_e_zeroed\<lparr>te_rs_num := ruleset_kind_to_i32 rkind\<rparr> in
     obind (copy_anchor_name anchor (te_anchor pfioc_trans_e)) (\<lambda>anchor_buf.
     Ok (pfioc_trans_e\<lparr>te_anchor := anchor_buf\<rparr>)))"

definition setup_trans :: "pfioc_trans \<Rightarrow> pfioc_trans_e list \<Rightarrow> pfioc_trans" where
  "setup_trans pfioc_trans elements =
     pfioc_trans\<lparr>t_size := of_nat (length elements),
                 t_esize := of_nat (size_of pfioc_trans_pfioc_trans_e_layout),
                 t_array := elements\<rparr>"

text \<open>\<open>collect\<close> into a \<open>Result\<close>: the first error is the result.\<close>

fun collect_results :: "'a result list \<Rightarrow> 'a list result" where
  "collect_results [] = Ok []"
| "collect_results (r # rs) = obind r (\<lambda>x. obind (collect_results rs) (\<lambda>xs. Ok (x # xs)))"

text \<open>
  One of the four loops of \<open>commit\<close>: the changes are zipped with the iterator of tickets,
  which is borrowed, so the loop returns what is left of it. The zip asks for a change first
  and for a ticket only if there is one.
\<close>

fun add_rules_loop ::
  "(rstring \<Rightarrow> 'r \<Rightarrow> u32 \<Rightarrow> ('k, unit) io) \<Rightarrow> (rstring \<times> 'r list) list \<Rightarrow> u32 list \<Rightarrow> ('k, u32 list) io" where
  "add_rules_loop add [] tickets = io_return tickets"
| "add_rules_loop add (change # changes) [] = io_return []"
| "add_rules_loop add ((anchor_name, rules) # changes) (ticket # tickets) =
     io_bind (io_for rules (\<lambda>rule. add anchor_name rule ticket)) (\<lambda>_.
     add_rules_loop add changes tickets)"

definition commit ::
  "'k kernel \<Rightarrow> externals \<Rightarrow> rstring list \<Rightarrow> transaction \<Rightarrow> ('k, unit) io" where
  "commit K X order t =
     io_bind (open_pf K) (\<lambda>d.
     let filter_changes = partition_changes filter_rules order t;
         nat_changes = partition_changes nat_rules order t;
         redirect_changes = partition_changes redirect_rules order t;
         scrub_changes = partition_changes scrub_rules order t in
     io_bind (io_lift (collect_results
       (map (\<lambda>(anchor, _). new_trans_element anchor RulesetKind_Filter) filter_changes @
        map (\<lambda>(anchor, _). new_trans_element anchor RulesetKind_Nat) nat_changes @
        map (\<lambda>(anchor, _). new_trans_element anchor RulesetKind_Redirect) redirect_changes @
        map (\<lambda>(anchor, _). new_trans_element anchor RulesetKind_Scrub) scrub_changes))) (\<lambda>pfioc_elements.
     let pfioc_trans = setup_trans pfioc_trans_zeroed pfioc_elements in
     io_bind (guarded (EEXIST X) (pf_begin_trans K d pfioc_trans)) (\<lambda>pfioc_trans.
     let pfioc_elements = overwrite (t_array pfioc_trans) pfioc_elements;
         pfioc_trans = pfioc_trans\<lparr>t_array := pfioc_elements\<rparr>;
         ticket_iterator = map te_ticket pfioc_elements in
     io_bind (add_rules_loop (add_filter_rule K X d) filter_changes ticket_iterator) (\<lambda>ticket_iterator.
     io_bind (add_rules_loop (add_nat_rule K X d) nat_changes ticket_iterator) (\<lambda>ticket_iterator.
     io_bind (add_rules_loop (add_redirect_rule K X d) redirect_changes ticket_iterator) (\<lambda>ticket_iterator.
     io_bind (add_rules_loop (add_scrub_rule K X d) scrub_changes ticket_iterator) (\<lambda>ticket_iterator.
     io_bind (guarded (EEXIST X) (pf_commit_trans K d pfioc_trans)) (\<lambda>_. io_return ()))))))))"

end
