(* ===== verification/TransactionSpec.thy ===== *)
theory TransactionSpec
  imports Transaction
begin

text \<open>
  What a transaction promises. \<open>install\<close> functions give the struct that a rule becomes, as
  pure functions of the rule; \<open>rule_adder\<close> is the contract of the helpers that add one rule:
  only staging calls, and after success exactly one rule added, with the given ticket and
  anchor, its content the installed struct, and its pool addresses registered under the pool
  ticket that the rule carries. \<open>commit\<close> is refined from \<open>commit_spec\<close>, which pairs each
  change with the ticket of its own element.
\<close>

section \<open>Calls of a transaction\<close>

text \<open>Calls that stage rules without touching the active ruleset.\<close>

fun staging :: "event \<Rightarrow> bool" where
  "staging (CallPoolAddr c a) \<longleftrightarrow> c = PfBeginAddrs \<or> c = PfAddAddr"
| "staging (CallRule c x) \<longleftrightarrow> c = PfAddRule"
| "staging _ \<longleftrightarrow> False"

text \<open>The rules added and the pool addresses registered by a sequence of calls.\<close>

fun added :: "event list \<Rightarrow> pfioc_rule list" where
  "added [] = []"
| "added (CallRule c x # evs) = (if c = PfAddRule then x # added evs else added evs)"
| "added (_ # evs) = added evs"

fun registered :: "event list \<Rightarrow> pfioc_pooladdr list" where
  "registered [] = []"
| "registered (CallPoolAddr c p # evs) = (if c = PfAddAddr then p # registered evs else registered evs)"
| "registered (_ # evs) = registered evs"

lemma added_append [simp]: "added (xs @ ys) = added xs @ added ys"
  by (induction xs rule: added.induct) simp_all

lemma registered_append [simp]: "registered (xs @ ys) = registered xs @ registered ys"
  by (induction xs rule: registered.induct) simp_all

section \<open>The struct of a rule\<close>

definition install_pool :: "pf_palist \<Rightarrow> pf_rule \<Rightarrow> pf_rule" where
  "install_pool l p = p\<lparr>r_rpool := (r_rpool p)\<lparr>pp_list := l\<rparr>\<rparr>"

definition install_endpoint :: "externals \<Rightarrow> endpoint \<Rightarrow> pf_rule \<Rightarrow> pf_rule result" where
  "install_endpoint X e p =
     obind (to_pool_addr_list X (ep_ip e)) (\<lambda>l.
     obind (port_copy_to_pool (ep_port e) (r_rpool (install_pool (to_palist l) p))) (\<lambda>pool.
     Ok (p\<lparr>r_rpool := pool\<rparr>)))"

definition install_filter :: "externals \<Rightarrow> filter_rule \<Rightarrow> pf_rule result" where
  "install_filter X r =
     obind (filter_rule_copy_to X r pf_rule_zeroed) (\<lambda>p.
     case get_pool_addr (get_route r) of
       None \<Rightarrow> Ok p
     | Some a \<Rightarrow> obind (pool_addr_list_new X [a]) (\<lambda>l. Ok (install_pool (to_palist l) p)))"

definition install_nat :: "externals \<Rightarrow> nat_rule \<Rightarrow> pf_rule result" where
  "install_nat X r =
     obind (nat_rule_copy_to X r pf_rule_zeroed) (\<lambda>p.
     case get_nat_to r of
       None \<Rightarrow> Ok p
     | Some n \<Rightarrow> install_endpoint X (nat_endpoint_deref n) p)"

definition install_redirect :: "externals \<Rightarrow> redirect_rule \<Rightarrow> pf_rule result" where
  "install_redirect X r =
     obind (redirect_rule_copy_to X r pf_rule_zeroed) (install_endpoint X (get_redirect_to r))"

definition install_scrub :: "scrub_rule \<Rightarrow> pf_rule result" where
  "install_scrub r = scrub_rule_copy_to r pf_rule_zeroed"

text \<open>The pool addresses of a rule.\<close>

definition filter_pools :: "filter_rule \<Rightarrow> pool_addr list" where
  "filter_pools r = (case get_pool_addr (get_route r) of None \<Rightarrow> [] | Some a \<Rightarrow> [a])"

definition nat_pools :: "nat_rule \<Rightarrow> pool_addr list" where
  "nat_pools r = (case get_nat_to r of
     None \<Rightarrow> [] | Some n \<Rightarrow> [pool_addr_from_ip (ep_ip (nat_endpoint_deref n))])"

definition redirect_pools :: "redirect_rule \<Rightarrow> pool_addr list" where
  "redirect_pools r = [pool_addr_from_ip (ep_ip (get_redirect_to r))]"

section \<open>The contract of adding a rule\<close>

definition is_entry ::
  "('r \<Rightarrow> pf_rule result) \<Rightarrow> u32 \<Rightarrow> rstring \<Rightarrow> 'r \<Rightarrow> pfioc_rule \<Rightarrow> bool" where
  "is_entry install ticket anchor r x \<longleftrightarrow>
     ir_action x = 0 \<and> ir_ticket x = ticket \<and> name_fits 1024 anchor \<and>
     ir_anchor x = nul_terminated anchor (zeros 1024) \<and> install r = Ok (ir_rule x)"

definition pools_registered ::
  "externals \<Rightarrow> pool_addr list \<Rightarrow> u32 \<Rightarrow> pfioc_pooladdr list \<Rightarrow> bool" where
  "pools_registered X as pool_ticket ps \<longleftrightarrow>
     list_all2 (\<lambda>a p. pool_addr_copy_to X a pf_pooladdr_zeroed = Ok (ipa_addr p) \<and>
       ipa_ticket p = pool_ticket) as ps"

text \<open>The calls that add a rule: a pool ticket is asked for, the addresses are registered, and the
  rule comes last. The pool ticket is the one that the kernel answers.\<close>

definition adding_calls :: "pfioc_pooladdr list \<Rightarrow> pfioc_rule \<Rightarrow> event list" where
  "adding_calls ps x =
     CallPoolAddr PfBeginAddrs pfioc_pooladdr_zeroed # map (CallPoolAddr PfAddAddr) ps @ [CallRule PfAddRule x]"

definition answered_ticket :: "'k kernel \<Rightarrow> fd \<Rightarrow> 'k \<Rightarrow> u32" where
  "answered_ticket K d k =
     (case sys_pooladdr K (ioctl_request PfBeginAddrs) d pfioc_pooladdr_zeroed k of
        (ret, errno, a, k') \<Rightarrow> ipa_ticket a)"

locale rule_adder =
  fixes X :: externals
    and add :: "rstring \<Rightarrow> 'r \<Rightarrow> u32 \<Rightarrow> ('k, unit) io"
    and install :: "'r \<Rightarrow> pf_rule result"
    and pools :: "'r \<Rightarrow> pool_addr list"
    and pool_ticket :: "'k \<Rightarrow> u32"
  assumes add_staging: "emits staging (add anchor r ticket)"
    and add_Ok: "add anchor r ticket w = (Ok (), w') \<Longrightarrow> w_calls w' = w_calls w @ evs \<Longrightarrow>
      \<exists>x. added evs = [x] \<and> evs = adding_calls (registered evs) x \<and>
        is_entry install ticket anchor r x \<and> ir_pool_ticket x = pool_ticket (w_kernel w) \<and>
        pools_registered X (pools r) (ir_pool_ticket x) (registered evs)"
begin

text \<open>All rules of a change are added, in order, under its ticket.\<close>

lemma add_all_staging: "emits staging (io_for rules (\<lambda>r. add anchor r ticket))"
  by (intro emits_intros add_staging)

lemma add_all_Ok:
  assumes "io_for rules (\<lambda>r. add anchor r ticket) w = (Ok (), w')"
    and "w_calls w' = w_calls w @ evs"
  shows "list_all2 (is_entry install ticket anchor) rules (added evs)"
  using assms
proof (induction rules arbitrary: w evs)
  case Nil
  then show ?case by (simp add: io_simps)
next
  case (Cons r rules)
  then obtain w1 where one: "add anchor r ticket w = (Ok (), w1)"
    and rest: "io_for rules (\<lambda>r. add anchor r ticket) w1 = (Ok (), w')"
    by (auto simp: io_simps)
  obtain evs1 where e1: "w_calls w1 = w_calls w @ evs1"
    using emitsD [OF add_staging one] by blast
  obtain evs2 where e2: "w_calls w' = w_calls w1 @ evs2"
    using emitsD [OF add_all_staging rest] by blast
  have "evs = evs1 @ evs2" using Cons.prems(2) e1 e2 by simp
  then show ?case using add_Ok [OF one e1] Cons.IH [OF rest e2] by auto
qed

text \<open>The loop over changes paired with tickets.\<close>

lemma add_changes_staging:
  "emits staging (io_for cs (\<lambda>((anchor, rules), ticket). io_for rules (\<lambda>r. add anchor r ticket)))"
  by (auto intro!: emits_intros add_staging split: prod.split)

lemma add_changes_Ok:
  assumes "io_for cs (\<lambda>((anchor, rules), ticket). io_for rules (\<lambda>r. add anchor r ticket)) w = (Ok (), w')"
    and "w_calls w' = w_calls w @ evs"
  shows "list_all2 (\<lambda>(ticket, anchor, r) x. is_entry install ticket anchor r x)
    (concat (map (\<lambda>((anchor, rules), ticket). map (\<lambda>r. (ticket, anchor, r)) rules) cs)) (added evs)"
  using assms
proof (induction cs arbitrary: w evs)
  case Nil
  then show ?case by (simp add: io_simps)
next
  case (Cons c cs)
  obtain anchor rules ticket where c: "c = ((anchor, rules), ticket)" by (metis surj_pair)
  with Cons.prems(1) obtain w1
    where one: "io_for rules (\<lambda>r. add anchor r ticket) w = (Ok (), w1)"
    and rest: "io_for cs (\<lambda>((anchor, rules), ticket). io_for rules (\<lambda>r. add anchor r ticket)) w1 = (Ok (), w')"
    by (auto simp: io_simps)
  obtain evs1 where e1: "w_calls w1 = w_calls w @ evs1"
    using emitsD [OF add_all_staging one] by blast
  obtain evs2 where e2: "w_calls w' = w_calls w1 @ evs2"
    using emitsD [OF add_changes_staging rest] by blast
  have "evs = evs1 @ evs2" using Cons.prems(2) e1 e2 by simp
  then show ?case
    using add_all_Ok [OF one e1] Cons.IH [OF rest e2]
    by (auto simp: c list_all2_map1 intro!: list_all2_appendI)
qed

end

section \<open>The four helpers obey the contract\<close>

lemmas adder_simps =
  io_simps Let_def get_pool_ticket_def add_pool_address_def
  pf_begin_addrs_def pf_add_addr_def pf_add_rule_def is_entry_def pools_registered_def
  copy_anchor_name_Ok_iff name_fits_def outcome_simps adding_calls_def answered_ticket_def

lemma pfioc_rule_zeroed_sel [simp]:
  "ir_action pfioc_rule_zeroed = 0" "ir_anchor pfioc_rule_zeroed = zeros 1024"
  "ir_anchor_call pfioc_rule_zeroed = zeros 1024" "ir_rule pfioc_rule_zeroed = pf_rule_zeroed"
  by (simp_all add: pfioc_rule_zeroed_def)

lemma pfioc_pooladdr_zeroed_sel [simp]: "ipa_addr pfioc_pooladdr_zeroed = pf_pooladdr_zeroed"
  by (simp add: pfioc_pooladdr_zeroed_def)

lemma set_rpool_Ok_iff:
  "set_rpool X e x = Ok y \<longleftrightarrow>
     (\<exists>p. install_endpoint X e (ir_rule x) = Ok p \<and> y = x\<lparr>ir_rule := p\<rparr>)"
  by (auto simp: set_rpool_def install_endpoint_def install_pool_def outcome_simps Let_def)

interpretation filter_adder:
  rule_adder X "add_filter_rule K X d" "install_filter X" filter_pools "answered_ticket K d" for X K d
proof unfold_locales
  show "emits staging (add_filter_rule K X d anchor r ticket)" for anchor r ticket
    by (auto simp: add_filter_rule_def Let_def pf_add_rule_def intro!: emits_intros split: option.split)
next
  fix anchor r ticket w w' evs
  assume run: "add_filter_rule K X d anchor r ticket w = (Ok (), w')" "w_calls w' = w_calls w @ evs"
  then show "\<exists>x. added evs = [x] \<and> evs = adding_calls (registered evs) x \<and>
      is_entry (install_filter X) ticket anchor r x \<and> ir_pool_ticket x = answered_ticket K d (w_kernel w) \<and>
      pools_registered X (filter_pools r) (ir_pool_ticket x) (registered evs)"
    by (cases "get_pool_addr (get_route r)")
      (auto simp: add_filter_rule_def adder_simps install_filter_def filter_pools_def install_pool_def)
qed

interpretation nat_adder:
  rule_adder X "add_nat_rule K X d" "install_nat X" nat_pools "answered_ticket K d" for X K d
proof unfold_locales
  show "emits staging (add_nat_rule K X d anchor r ticket)" for anchor r ticket
    by (auto simp: add_nat_rule_def Let_def pf_add_rule_def intro!: emits_intros split: option.split)
next
  fix anchor r ticket w w' evs
  assume "add_nat_rule K X d anchor r ticket w = (Ok (), w')" "w_calls w' = w_calls w @ evs"
  then show "\<exists>x. added evs = [x] \<and> evs = adding_calls (registered evs) x \<and>
      is_entry (install_nat X) ticket anchor r x \<and> ir_pool_ticket x = answered_ticket K d (w_kernel w) \<and>
      pools_registered X (nat_pools r) (ir_pool_ticket x) (registered evs)"
    by (cases "get_nat_to r")
      (auto simp: add_nat_rule_def adder_simps install_nat_def nat_pools_def set_rpool_Ok_iff)
qed

interpretation redirect_adder:
  rule_adder X "add_redirect_rule K X d" "install_redirect X" redirect_pools "answered_ticket K d" for X K d
proof unfold_locales
  show "emits staging (add_redirect_rule K X d anchor r ticket)" for anchor r ticket
    by (auto simp: add_redirect_rule_def Let_def pf_add_rule_def intro!: emits_intros)
next
  fix anchor r ticket w w' evs
  assume "add_redirect_rule K X d anchor r ticket w = (Ok (), w')" "w_calls w' = w_calls w @ evs"
  then show "\<exists>x. added evs = [x] \<and> evs = adding_calls (registered evs) x \<and>
      is_entry (install_redirect X) ticket anchor r x \<and> ir_pool_ticket x = answered_ticket K d (w_kernel w) \<and>
      pools_registered X (redirect_pools r) (ir_pool_ticket x) (registered evs)"
    by (auto simp: add_redirect_rule_def adder_simps install_redirect_def redirect_pools_def set_rpool_Ok_iff)
qed

interpretation scrub_adder:
  rule_adder X "add_scrub_rule K X d" install_scrub "\<lambda>_. []" "answered_ticket K d" for X K d
proof unfold_locales
  show "emits staging (add_scrub_rule K X d anchor r ticket)" for anchor r ticket
    by (auto simp: add_scrub_rule_def Let_def pf_add_rule_def intro!: emits_intros)
next
  fix anchor r ticket w w' evs
  assume "add_scrub_rule K X d anchor r ticket w = (Ok (), w')" "w_calls w' = w_calls w @ evs"
  then show "\<exists>x. added evs = [x] \<and> evs = adding_calls (registered evs) x \<and>
      is_entry install_scrub ticket anchor r x \<and> ir_pool_ticket x = answered_ticket K d (w_kernel w) \<and>
      pools_registered X [] (ir_pool_ticket x) (registered evs)"
    by (auto simp: add_scrub_rule_def adder_simps install_scrub_def)
qed

section \<open>The plan of a transaction\<close>

datatype any_rule =
    AnyFilter filter_rule
  | AnyNat nat_rule
  | AnyRedirect redirect_rule
  | AnyScrub scrub_rule

fun add_any ::
  "'k kernel \<Rightarrow> externals \<Rightarrow> fd \<Rightarrow> rstring \<Rightarrow> any_rule \<Rightarrow> u32 \<Rightarrow> ('k, unit) io" where
  "add_any K X d anchor (AnyFilter r) ticket = add_filter_rule K X d anchor r ticket"
| "add_any K X d anchor (AnyNat r) ticket = add_nat_rule K X d anchor r ticket"
| "add_any K X d anchor (AnyRedirect r) ticket = add_redirect_rule K X d anchor r ticket"
| "add_any K X d anchor (AnyScrub r) ticket = add_scrub_rule K X d anchor r ticket"

fun install_any :: "externals \<Rightarrow> any_rule \<Rightarrow> pf_rule result" where
  "install_any X (AnyFilter r) = install_filter X r"
| "install_any X (AnyNat r) = install_nat X r"
| "install_any X (AnyRedirect r) = install_redirect X r"
| "install_any X (AnyScrub r) = install_scrub r"

fun any_pools :: "any_rule \<Rightarrow> pool_addr list" where
  "any_pools (AnyFilter r) = filter_pools r"
| "any_pools (AnyNat r) = nat_pools r"
| "any_pools (AnyRedirect r) = redirect_pools r"
| "any_pools (AnyScrub r) = []"

interpretation any_adder:
  rule_adder X "add_any K X d" "install_any X" any_pools "answered_ticket K d" for X K d
proof unfold_locales
  show "emits staging (add_any K X d anchor r ticket)" for anchor r ticket
    by (cases r) (simp_all add: filter_adder.add_staging nat_adder.add_staging
      redirect_adder.add_staging scrub_adder.add_staging)
next
  fix anchor r ticket w w' evs
  assume "add_any K X d anchor r ticket w = (Ok (), w')" "w_calls w' = w_calls w @ evs"
  then show "\<exists>x. added evs = [x] \<and> evs = adding_calls (registered evs) x \<and>
      is_entry (install_any X) ticket anchor r x \<and> ir_pool_ticket x = answered_ticket K d (w_kernel w) \<and>
      pools_registered X (any_pools r) (ir_pool_ticket x) (registered evs)"
    using filter_adder.add_Ok [of K X d anchor _ ticket w w' evs]
      nat_adder.add_Ok [of K X d anchor _ ticket w w' evs]
      redirect_adder.add_Ok [of K X d anchor _ ticket w w' evs]
      scrub_adder.add_Ok [of K X d anchor _ ticket w w' evs]
    by (cases r) (fastforce simp: is_entry_def)+
qed

text \<open>The changes of a transaction, the elements of its kinds in the order of \<open>commit\<close>.\<close>

definition plan :: "rstring list \<Rightarrow> transaction \<Rightarrow> (ruleset_kind \<times> rstring \<times> any_rule list) list" where
  "plan order t =
     map (\<lambda>(a, rs). (RulesetKind_Filter, a, map AnyFilter rs)) (partition_changes filter_rules order t) @
     map (\<lambda>(a, rs). (RulesetKind_Nat, a, map AnyNat rs)) (partition_changes nat_rules order t) @
     map (\<lambda>(a, rs). (RulesetKind_Redirect, a, map AnyRedirect rs)) (partition_changes redirect_rules order t) @
     map (\<lambda>(a, rs). (RulesetKind_Scrub, a, map AnyScrub rs)) (partition_changes scrub_rules order t)"

definition plan_elements :: "(ruleset_kind \<times> rstring \<times> any_rule list) list \<Rightarrow> pfioc_trans_e list result" where
  "plan_elements p = collect_results (map (\<lambda>(rkind, anchor, _). new_trans_element anchor rkind) p)"

text \<open>Each planned change with the ticket of the element at the same position.\<close>

definition ticketed ::
  "(ruleset_kind \<times> rstring \<times> any_rule list) list \<Rightarrow> pfioc_trans_e list \<Rightarrow> ((rstring \<times> any_rule list) \<times> u32) list" where
  "ticketed p es = zip (map snd p) (map te_ticket es)"

definition commit_spec ::
  "'k kernel \<Rightarrow> externals \<Rightarrow> rstring list \<Rightarrow> transaction \<Rightarrow> ('k, unit) io" where
  "commit_spec K X order t =
     io_bind (open_pf K) (\<lambda>d.
     io_bind (io_lift (plan_elements (plan order t))) (\<lambda>es.
     io_bind (guarded (EEXIST X) (pf_begin_trans K d (setup_trans pfioc_trans_zeroed es))) (\<lambda>tr.
     let es' = overwrite (t_array tr) es in
     io_bind (io_for (ticketed (plan order t) es')
       (\<lambda>((anchor, rules), ticket). io_for rules (\<lambda>r. add_any K X d anchor r ticket))) (\<lambda>_.
     io_bind (guarded (EEXIST X) (pf_commit_trans K d (tr\<lparr>t_array := es'\<rparr>))) (\<lambda>_. io_return ())))))"

lemma collect_results_length: "collect_results rs = Ok xs \<Longrightarrow> length xs = length rs"
  by (induction rs arbitrary: xs) (auto simp: outcome_simps)

lemma collect_results_Ok_iff: "collect_results rs = Ok xs \<longleftrightarrow> list_all2 (\<lambda>r x. r = Ok x) rs xs"
  by (induction rs arbitrary: xs) (auto simp: outcome_simps list_all2_Cons1)

text \<open>A loop with enough tickets is a loop over pairs, and leaves the other tickets.\<close>

lemma add_rules_loop_eq:
  assumes "length changes \<le> length tickets"
  shows "add_rules_loop add changes tickets =
    io_bind (io_for (zip changes tickets)
      (\<lambda>((anchor, rules), ticket). io_for rules (\<lambda>r. add anchor r ticket)))
    (\<lambda>_. io_return (drop (length changes) tickets))"
  using assms
proof (induction add changes tickets rule: add_rules_loop.induct)
  case (3 add anchor_name rules changes ticket tickets)
  then show ?case by (simp add: io_bind_assoc)
qed simp_all

lemma zip_take_self [simp]: "zip xs (take (length xs) ys) = zip xs ys"
  by (induction xs arbitrary: ys) (auto simp: zip_Cons1 split: list.split)

lemma length_plan_elements: "plan_elements p = Ok es \<Longrightarrow> length es = length p"
  by (auto simp: plan_elements_def dest: collect_results_length)

text \<open>The same loop over the planned changes of a kind.\<close>

lemma io_for_planned:
  "io_for (zip (map (\<lambda>(a, rs). (a, map C rs)) changes) tickets)
     (\<lambda>((anchor, rules), ticket). io_for rules (\<lambda>r. add anchor r ticket)) =
   io_for (zip changes tickets)
     (\<lambda>((anchor, rules), ticket). io_for rules (\<lambda>r. add anchor (C r) ticket))"
proof (induction changes arbitrary: tickets)
  case (Cons c changes)
  then show ?case by (cases tickets; cases c) (simp_all add: io_for_map)
qed simp

lemma snd_planned: "map snd (map (\<lambda>(a, rs). (k, a, map C rs)) cs) = map (\<lambda>(a, rs). (a, map C rs)) cs"
  by (induction cs) auto

lemma commit_eq_spec: "commit K X order t = commit_spec K X order t"
proof -
  let ?f = "partition_changes filter_rules order t" and ?n = "partition_changes nat_rules order t"
    and ?r = "partition_changes redirect_rules order t" and ?s = "partition_changes scrub_rules order t"
  have elements: "collect_results
       (map (\<lambda>(anchor, _). new_trans_element anchor RulesetKind_Filter) ?f @
        map (\<lambda>(anchor, _). new_trans_element anchor RulesetKind_Nat) ?n @
        map (\<lambda>(anchor, _). new_trans_element anchor RulesetKind_Redirect) ?r @
        map (\<lambda>(anchor, _). new_trans_element anchor RulesetKind_Scrub) ?s) = plan_elements (plan order t)"
    by (simp add: plan_elements_def plan_def case_prod_beta' comp_def)
  have loops: "io_bind (add_rules_loop (add_filter_rule K X d) ?f ts) (\<lambda>ts.
      io_bind (add_rules_loop (add_nat_rule K X d) ?n ts) (\<lambda>ts.
      io_bind (add_rules_loop (add_redirect_rule K X d) ?r ts) (\<lambda>ts.
      io_bind (add_rules_loop (add_scrub_rule K X d) ?s ts) (\<lambda>_. c)))) =
    io_bind (io_for (ticketed (plan order t) es)
      (\<lambda>((anchor, rules), ticket). io_for rules (\<lambda>r. add_any K X d anchor r ticket))) (\<lambda>_. c)"
    if "ts = map te_ticket es" "length es = length (plan order t)" for d es ts c
  proof -
    have n: "length ts = length ?f + (length ?n + (length ?r + length ?s))"
      using that by (simp add: plan_def)
    show ?thesis
      unfolding ticketed_def plan_def map_append snd_planned that(1) [symmetric]
      using n by (simp add: zip_append1 io_for_append io_for_planned io_bind_assoc add_rules_loop_eq
          ac_simps)
  qed
  show ?thesis
    unfolding commit_def commit_spec_def Let_def elements
    by (intro io_bind_cong refl io_bind_lift_cong loops) (simp_all add: length_plan_elements)
qed

section \<open>The calls of a commit\<close>

text \<open>Everything before the last call: the transaction that is then committed.\<close>

definition stage_changes ::
  "'k kernel \<Rightarrow> externals \<Rightarrow> rstring list \<Rightarrow> transaction \<Rightarrow> ('k, fd \<times> pfioc_trans) io" where
  "stage_changes K X order t =
     io_bind (open_pf K) (\<lambda>d.
     io_bind (io_lift (plan_elements (plan order t))) (\<lambda>es.
     io_bind (guarded (EEXIST X) (pf_begin_trans K d (setup_trans pfioc_trans_zeroed es))) (\<lambda>tr.
     let es' = overwrite (t_array tr) es in
     io_bind (io_for (ticketed (plan order t) es')
       (\<lambda>((anchor, rules), ticket). io_for rules (\<lambda>r. add_any K X d anchor r ticket))) (\<lambda>_.
     io_return (d, tr\<lparr>t_array := es'\<rparr>)))))"

lemma commit_eq_staged:
  "commit K X order t =
     io_bind (stage_changes K X order t) (\<lambda>(d, tr).
     io_bind (guarded (EEXIST X) (pf_commit_trans K d tr)) (\<lambda>_. io_return ()))"
  by (simp add: commit_eq_spec commit_spec_def stage_changes_def io_bind_assoc Let_def)

text \<open>The rules that a transaction adds, each with its anchor and its ticket.\<close>

definition jobs :: "((rstring \<times> any_rule list) \<times> u32) list \<Rightarrow> (u32 \<times> rstring \<times> any_rule) list" where
  "jobs cs = concat (map (\<lambda>((anchor, rules), ticket). map (\<lambda>r. (ticket, anchor, r)) rules) cs)"

definition jobs_added ::
  "externals \<Rightarrow> (ruleset_kind \<times> rstring \<times> any_rule list) list \<Rightarrow> pfioc_trans_e list \<Rightarrow> event list \<Rightarrow> bool" where
  "jobs_added X p es evs \<longleftrightarrow>
     list_all2 (\<lambda>(ticket, anchor, r) x. is_entry (install_any X) ticket anchor r x)
       (jobs (ticketed p es)) (added evs)"

lemma emits_stage_changes:
  assumes "P (OpenDevice PF_DEV_PATH)" "\<And>tr. P (CallTrans PfBeginTrans tr)" "\<And>ev. staging ev \<Longrightarrow> P ev"
  shows "emits P (stage_changes K X order t)"
  unfolding stage_changes_def Let_def pf_begin_trans_def
  by (intro emits_intros assms emits_mono [OF any_adder.add_changes_staging]) auto

lemma stage_changes_Ok:
  assumes "stage_changes K X order t w = (Ok (d, tr), w')"
  obtains es staged where "plan_elements (plan order t) = Ok es"
    "w_calls w' = w_calls w @
       [OpenDevice PF_DEV_PATH, CallTrans PfBeginTrans (setup_trans pfioc_trans_zeroed es)] @ staged"
    "list_all staging staged" "length (t_array tr) = length es"
    "jobs_added X (plan order t) (t_array tr) staged"
proof -
  let ?adds = "\<lambda>d ts. io_for ts (\<lambda>((anchor, rules), ticket). io_for rules (\<lambda>r. add_any K X d anchor r ticket))"
  obtain w1 w2 es where 1: "open_pf K w = (Ok d, w1)" "plan_elements (plan order t) = Ok es"
      "w_calls w2 = w_calls w1 @ [CallTrans PfBeginTrans (setup_trans pfioc_trans_zeroed es)]"
      "?adds d (ticketed (plan order t) (t_array tr)) w2 = (Ok (), w')"
      "length (t_array tr) = length es"
    using assms by (auto simp: stage_changes_def Let_def io_simps pf_begin_trans_def)
  have "w_calls w1 = w_calls w @ [OpenDevice PF_DEV_PATH]"
    using 1(1) by (auto simp: open_pf_def split: prod.splits sum.splits)
  moreover obtain staged where s: "w_calls w' = w_calls w2 @ staged" "list_all staging staged"
    using emitsD [OF any_adder.add_changes_staging 1(4)] by blast
  moreover have "jobs_added X (plan order t) (t_array tr) staged"
    unfolding jobs_added_def jobs_def by (rule any_adder.add_changes_Ok [OF 1(4) s(1)])
  ultimately show ?thesis using that [OF 1(2), of staged] 1(3,5) by simp
qed

lemma guarded_call_calls:
  "guarded a (call ev f) w = (r, w') \<Longrightarrow> w_calls w' = w_calls w @ [ev]"
  by (auto simp: guarded_def call_def split: prod.splits)

lemma commit_calls:
  assumes run: "commit K X order t w = (r, w')"
  obtains (unstaged) pre where "w_calls w' = w_calls w @ pre" "r \<noteq> Ok ()"
      "\<And>tr. CallTrans PfCommitTrans tr \<notin> set pre"
  | (staged) es staged tr where "plan_elements (plan order t) = Ok es"
      "w_calls w' = w_calls w @
        [OpenDevice PF_DEV_PATH, CallTrans PfBeginTrans (setup_trans pfioc_trans_zeroed es)] @
        staged @ [CallTrans PfCommitTrans tr]"
      "list_all staging staged" "length (t_array tr) = length es"
      "jobs_added X (plan order t) (t_array tr) staged"
proof -
  obtain s w1 where s: "stage_changes K X order t w = (s, w1)" by fastforce
  let ?P = "\<lambda>ev. \<forall>tr. ev \<noteq> CallTrans PfCommitTrans tr"
  have quiet: "emits ?P (stage_changes K X order t)"
    by (rule emits_stage_changes) (auto elim: staging.elims)
  obtain pre where pre: "w_calls w1 = w_calls w @ pre" "list_all ?P pre"
    using emitsD [OF quiet s] by blast
  show ?thesis
  proof (cases s)
    case (Ok x)
    obtain d tr where x: "x = (d, tr)" by fastforce
    obtain q w2 where q: "guarded (EEXIST X) (pf_commit_trans K d tr) w1 = (q, w2)" by fastforce
    then have "w' = w2"
      using run s Ok x by (cases q) (auto simp: commit_eq_staged io_bind_def io_return_def)
    then have last: "w_calls w' = w_calls w1 @ [CallTrans PfCommitTrans tr]"
      using q unfolding pf_commit_trans_def by (auto dest: guarded_call_calls)
    obtain es st where "plan_elements (plan order t) = Ok es"
      "w_calls w1 = w_calls w @
         [OpenDevice PF_DEV_PATH, CallTrans PfBeginTrans (setup_trans pfioc_trans_zeroed es)] @ st"
      "list_all staging st" "length (t_array tr) = length es"
      "jobs_added X (plan order t) (t_array tr) st"
      using s Ok x by (auto elim: stage_changes_Ok)
    then show ?thesis using staged [of es st tr] last by simp
  next
    case (Err e)
    then have "r = Err e" "w' = w1" using run s by (simp_all add: commit_eq_staged io_bind_def)
    then show ?thesis using unstaged [of pre] pre by (auto simp: list_all_iff)
  next
    case Panic
    then have "r = Panic" "w' = w1" using run s by (simp_all add: commit_eq_staged io_bind_def)
    then show ?thesis using unstaged [of pre] pre by (auto simp: list_all_iff)
  qed
qed

section \<open>The plan\<close>

lemma new_trans_element_Ok_iff:
  "new_trans_element a k = Ok e \<longleftrightarrow>
     name_fits 1024 a \<and>
     e = \<lparr>te_rs_num = ruleset_kind_to_i32 k, te_anchor = nul_terminated a (zeros 1024), te_ticket = 0\<rparr>"
  by (auto simp: new_trans_element_def pfioc_trans_e_zeroed_def Let_def outcome_simps name_fits_def)

lemma new_trans_element_no_panic [simp]: "new_trans_element a k \<noteq> Panic"
  by (simp add: new_trans_element_def Let_def outcome_simps)

lemma in_partition_changes:
  "(a, rs) \<in> set (partition_changes rules order t) \<longleftrightarrow>
     a \<in> set order \<and> (\<exists>c. change_by_anchor t a = Some c \<and> rules c = Some rs)"
  by (induction order) (auto simp: partition_changes_def List.map_filter_simps split: option.splits)

lemma partition_changes_anchors:
  "map fst (partition_changes rules order t) =
     filter (\<lambda>a. \<exists>c. change_by_anchor t a = Some c \<and> rules c \<noteq> None) order"
  by (induction order) (auto simp: partition_changes_def List.map_filter_simps split: option.splits)

text \<open>The rules that a change requests for a kind.\<close>

fun requested :: "ruleset_kind \<Rightarrow> anchor_change \<Rightarrow> any_rule list option" where
  "requested RulesetKind_Filter c = map_option (map AnyFilter) (filter_rules c)"
| "requested RulesetKind_Nat c = map_option (map AnyNat) (nat_rules c)"
| "requested RulesetKind_Redirect c = map_option (map AnyRedirect) (redirect_rules c)"
| "requested RulesetKind_Scrub c = map_option (map AnyScrub) (scrub_rules c)"

lemma in_planned:
  "(k', a, rs') \<in> set (map (\<lambda>(a, rs). (k, a, map C rs)) cs) \<longleftrightarrow>
     k' = k \<and> (\<exists>rs. (a, rs) \<in> set cs \<and> rs' = map C rs)"
  by (induction cs) auto

lemma in_plan_iff:
  "(k, a, rs) \<in> set (plan order t) \<longleftrightarrow>
     a \<in> set order \<and> (\<exists>c. change_by_anchor t a = Some c \<and> requested k c = Some rs)"
  by (cases k) (auto simp: plan_def in_planned in_partition_changes simp del: set_map)

lemma distinct_plan:
  assumes "distinct order"
  shows "distinct (map (\<lambda>(k, a, rs). (k, a)) (plan order t))"
proof -
  have keys: "map (\<lambda>(k, a, rs). (k, a)) (map (\<lambda>(a, rs). (K, a, map C rs)) cs) = map (Pair K) (map fst cs)"
    for K :: ruleset_kind and C :: "'r \<Rightarrow> any_rule" and cs
    by (induction cs) auto
  show ?thesis
    unfolding plan_def map_append keys partition_changes_anchors
    using assms by (auto simp: distinct_map inj_on_def)
qed

lemma plan_elements_Ok_iff:
  "(\<exists>es. plan_elements p = Ok es) \<longleftrightarrow> (\<forall>(k, a, rs) \<in> set p. name_fits 1024 a)"
proof (induction p)
  case Nil
  then show ?case by (simp add: plan_elements_def)
next
  case (Cons x p)
  then show ?case
    by (cases x) (auto simp: plan_elements_def outcome_simps new_trans_element_Ok_iff)
qed

lemma plan_elements_error:
  "plan_elements p = Err e \<Longrightarrow> \<exists>reason. e = InvalidAnchorName reason"
  "plan_elements p \<noteq> Panic"
proof (induction p)
  case Nil
  {
    case 1
    then show ?case by (simp add: plan_elements_def)
  next
    case 2
    then show ?case by (simp add: plan_elements_def)
  }
next
  case (Cons x p)
  {
    case 1
    then show ?case
      using Cons.IH(1)
      by (cases x) (auto simp: plan_elements_def outcome_simps new_trans_element_def Let_def
          copy_anchor_name_Err_iff split: if_splits)
  next
    case 2
    then show ?case
      using Cons.IH(2) by (cases x) (auto simp: plan_elements_def outcome_simps)
  }
qed

section \<open>When a rule can be added\<close>

fun any_rule_ok :: "any_rule \<Rightarrow> bool" where
  "any_rule_ok (AnyFilter r) \<longleftrightarrow> filter_rule_ok r \<and>
     (case get_pool_addr (get_route r) of None \<Rightarrow> True | Some p \<Rightarrow> interface_ok (po_interface p))"
| "any_rule_ok (AnyNat r) \<longleftrightarrow> nat_rule_ok r \<and>
     (case get_nat_to r of None \<Rightarrow> True | Some n \<Rightarrow> port_ok (ep_port (nat_endpoint_deref n)))"
| "any_rule_ok (AnyRedirect r) \<longleftrightarrow> redirect_rule_ok r \<and> port_ok (ep_port (get_redirect_to r))"
| "any_rule_ok (AnyScrub r) \<longleftrightarrow> True"

lemma pf_rule_zeroed_buffers [simp]:
  "length (r_ifname pf_rule_zeroed) = 16" "length (r_label pf_rule_zeroed) = 64"
  using pf_rule_wfD [OF pf_rule_zeroed_wf] by simp_all

lemma pool_addr_list_new_ok:
  assumes "documented_ipnetwork X"
  shows "(\<exists>l. pool_addr_list_new X [p] = Ok l) \<longleftrightarrow> interface_ok (po_interface p)"
proof
  assume "\<exists>l. pool_addr_list_new X [p] = Ok l"
  then show "interface_ok (po_interface p)"
    using pool_addr_copy_ok [OF assms pf_pooladdr_zeroed_wf, of p]
    by (auto simp: pool_addr_list_new_Ok_iff list_all2_Cons1)
next
  assume "interface_ok (po_interface p)"
  then obtain q where q: "pool_addr_copy_to X p pf_pooladdr_zeroed = Ok q"
    using pool_addr_copy_ok [OF assms pf_pooladdr_zeroed_wf, of p] by blast
  have "pool_addr_list_new X [p] = Ok \<lparr>pal_list = create_palist [q], pal_pool = [q]\<rparr>"
    using q by (simp add: pool_addr_list_new_Ok_iff)
  then show "\<exists>l. pool_addr_list_new X [p] = Ok l" by blast
qed

lemma pool_addr_list_new_okD:
  "documented_ipnetwork X \<Longrightarrow> pool_addr_list_new X [p] = Ok l \<Longrightarrow> interface_ok (po_interface p)"
  using pool_addr_list_new_ok by blast

lemma install_endpoint_ok:
  assumes "documented_ipnetwork X"
  shows "(\<exists>q. install_endpoint X e p = Ok q) \<longleftrightarrow> port_ok (ep_port e)"
  using to_pool_addr_list_ok [OF assms, of "ep_ip e"] port_pool_copy_ok
  by (auto simp: install_endpoint_def outcome_simps)

lemma install_any_ok:
  assumes X: "documented_ipnetwork X"
  shows "(\<exists>p. install_any X r = Ok p) \<longleftrightarrow> any_rule_ok r"
proof (cases r)
  case (AnyFilter f)
  then show ?thesis
    using filter_rule_copy_ok [OF X, of pf_rule_zeroed f] pool_addr_list_new_ok [OF X]
    by (auto simp: install_filter_def outcome_simps split: option.splits)
next
  case (AnyNat n)
  then show ?thesis
    using nat_rule_copy_ok [OF X, of pf_rule_zeroed n] install_endpoint_ok [OF X]
    by (auto simp: install_nat_def outcome_simps split: option.splits)
next
  case (AnyRedirect d)
  then show ?thesis
    using redirect_rule_copy_ok [OF X, of pf_rule_zeroed d] install_endpoint_ok [OF X]
    by (auto simp: install_redirect_def outcome_simps)
next
  case (AnyScrub s)
  then show ?thesis by (simp add: install_scrub_def scrub_rule_copy_to_def)
qed

lemma copy_anchor_name_zeros:
  "name_fits 1024 a \<Longrightarrow> copy_anchor_name a (zeros 1024) = Ok (nul_terminated a (zeros 1024))"
  by (simp add: copy_anchor_name_cases)

lemma succeeds_add_pool_address:
  assumes "obliging K" "documented_ipnetwork X" "interface_ok (po_interface p)"
  shows "succeeds (add_pool_address K X d p t)"
proof -
  obtain q where "pool_addr_copy_to X p pf_pooladdr_zeroed = Ok q"
    using pool_addr_copy_ok [OF assms(2) pf_pooladdr_zeroed_wf, of p] assms(3) by blast
  then show ?thesis
    using assms(1) by (auto simp: add_pool_address_def Let_def pf_add_addr_def intro!: succeeds_intros)
qed

lemma succeeds_get_pool_ticket: "obliging K \<Longrightarrow> succeeds (get_pool_ticket K X d)"
  by (auto simp: get_pool_ticket_def pf_begin_addrs_def intro!: succeeds_intros)

lemma succeeds_set_rpool:
  "install_endpoint X e (ir_rule x) = Ok p \<Longrightarrow> succeeds (io_lift (set_rpool X e x))"
  using set_rpool_Ok_iff [of X e x "x\<lparr>ir_rule := p\<rparr>"] by (simp add: succeeds_return)

lemma interface_ok_from_ip [simp]: "interface_ok (po_interface (pool_addr_from_ip i))"
  by (simp add: pool_addr_from_ip_def)

lemmas succeeds_adder =
  succeeds_intros succeeds_add_pool_address succeeds_get_pool_ticket succeeds_set_rpool

lemma add_any_succeeds:
  assumes K: "obliging K" and X: "documented_ipnetwork X"
    and a: "name_fits 1024 anchor" and r: "install_any X r = Ok p"
  shows "succeeds (add_any K X d anchor r ticket)"
proof (cases r)
  case (AnyFilter f)
  have route: "succeeds (case get_pool_addr (get_route f) of
      Some q \<Rightarrow> io_bind (add_pool_address K X d q t) (\<lambda>_.
        io_bind (io_lift (pool_addr_list_new X [q])) (\<lambda>l. io_return (g l)))
    | None \<Rightarrow> io_return x)" for t g and x :: pfioc_rule
    using r K X AnyFilter
    by (auto simp: install_filter_def outcome_simps dest: pool_addr_list_new_okD [OF X]
        intro!: succeeds_adder split: option.splits)
  show ?thesis
    using r K AnyFilter
    by (auto simp: add_filter_rule_def install_filter_def Let_def copy_anchor_name_zeros a outcome_simps
        pf_add_rule_def intro!: succeeds_adder route)
next
  case (AnyNat n)
  from r AnyNat obtain q where q: "nat_rule_copy_to X n pf_rule_zeroed = Ok q"
    by (auto simp: install_nat_def outcome_simps)
  show ?thesis
    using r K X AnyNat q
    by (cases "get_nat_to n") (auto simp: add_nat_rule_def install_nat_def Let_def copy_anchor_name_zeros a
        pf_add_rule_def intro!: succeeds_adder)
next
  case (AnyRedirect q)
  from r AnyRedirect obtain q' where q': "redirect_rule_copy_to X q pf_rule_zeroed = Ok q'"
    by (auto simp: install_redirect_def outcome_simps)
  show ?thesis
    using r K X AnyRedirect q'
    by (auto simp: add_redirect_rule_def install_redirect_def Let_def copy_anchor_name_zeros a
        pf_add_rule_def intro!: succeeds_adder)
next
  case (AnyScrub s)
  show ?thesis
    using K AnyScrub
    by (auto simp: add_scrub_rule_def Let_def copy_anchor_name_zeros a scrub_rule_copy_to_def
        pf_add_rule_def intro!: succeeds_adder)
qed

lemma add_ok_succeeds:
  "obliging K \<Longrightarrow> documented_ipnetwork X \<Longrightarrow> name_fits 1024 a \<Longrightarrow> any_rule_ok r \<Longrightarrow>
     succeeds (add_any K X d a r ticket)"
  using install_any_ok add_any_succeeds by metis

lemma add_any_Ok_iff:
  assumes K: "obliging K" and X: "documented_ipnetwork X"
  shows "fst (add_any K X d anchor r ticket w) = Ok () \<longleftrightarrow> name_fits 1024 anchor \<and> any_rule_ok r"
proof
  assume ok: "fst (add_any K X d anchor r ticket w) = Ok ()"
  obtain w' where run: "add_any K X d anchor r ticket w = (Ok (), w')"
    using ok by (metis prod.collapse)
  obtain evs where "w_calls w' = w_calls w @ evs"
    using emitsD [OF any_adder.add_staging run] by blast
  from any_adder.add_Ok [OF run this] show "name_fits 1024 anchor \<and> any_rule_ok r"
    using install_any_ok [OF X, of r] by (auto simp: is_entry_def)
next
  assume "name_fits 1024 anchor \<and> any_rule_ok r"
  then have "succeeds (add_any K X d anchor r ticket)"
    using install_any_ok [OF X, of r] add_any_succeeds [OF K X] by blast
  then show "fst (add_any K X d anchor r ticket w) = Ok ()"
    using succeedsD [of _ w] by fastforce
qed

lemma in_jobs:
  assumes "(k, a, rs) \<in> set p" "r \<in> set rs" "length es = length p"
  shows "\<exists>ticket. (ticket, a, r) \<in> set (jobs (ticketed p es))"
proof -
  obtain i where i: "i < length p" "p ! i = (k, a, rs)" using assms(1) by (auto simp: in_set_conv_nth)
  then have "((a, rs), te_ticket (es ! i)) \<in> set (ticketed p es)"
    using assms(3) by (auto simp: ticketed_def in_set_zip intro!: exI [of _ i])
  then show ?thesis using assms(2) by (force simp: jobs_def)
qed

definition change_ok :: "ruleset_kind \<times> rstring \<times> any_rule list \<Rightarrow> bool" where
  "change_ok c = (case c of (k, a, rs) \<Rightarrow> name_fits 1024 a \<and> list_all any_rule_ok rs)"

lemma commit_Ok_imp:
  assumes X: "documented_ipnetwork X" and run: "commit K X order t w = (Ok (), w')"
  shows "list_all change_ok (plan order t)"
proof -
  obtain es es' evs where es: "plan_elements (plan order t) = Ok es" and len: "length es' = length es"
    and jobs: "jobs_added X (plan order t) es' evs"
  proof (cases rule: commit_calls [OF run])
    case 1
    then show ?thesis by simp
  next
    case (2 es staged tr)
    then show ?thesis using that by blast
  qed
  then have es': "length es' = length (plan order t)" by (simp add: length_plan_elements [OF es])
  have rules: "any_rule_ok r" if m: "(k, a, rs) \<in> set (plan order t)" "r \<in> set rs" for k a rs r
  proof -
    obtain ticket where "(ticket, a, r) \<in> set (jobs (ticketed (plan order t) es'))"
      using in_jobs [OF m es'] by blast
    then have "\<exists>p. install_any X r = Ok p"
      using jobs by (fastforce simp: jobs_added_def list_all2_conv_all_nth in_set_conv_nth is_entry_def)
    then show ?thesis by (simp add: install_any_ok [OF X])
  qed
  moreover have "\<forall>(k, a, rs) \<in> set (plan order t). name_fits 1024 a"
    using es plan_elements_Ok_iff [of "plan order t"] by blast
  ultimately show ?thesis by (auto simp: change_ok_def list_all_iff)
qed

lemma set_ticketed: "((a, rs), ticket) \<in> set (ticketed p es) \<Longrightarrow> \<exists>k. (k, a, rs) \<in> set p"
  unfolding ticketed_def by (drule set_zip_leftD) (metis (no_types) imageE list.set_map prod.collapse)

lemma commit_succeeds:
  assumes K: "obliging K" and X: "documented_ipnetwork X" and ok: "list_all change_ok (plan order t)"
  shows "succeeds (commit K X order t)"
proof -
  obtain es where es: "plan_elements (plan order t) = Ok es"
    using plan_elements_Ok_iff [of "plan order t"] ok
    by (fastforce simp: change_ok_def list_all_iff)
  have adds: "succeeds (io_for (ticketed (plan order t) es')
      (\<lambda>((anchor, rules), ticket). io_for rules (\<lambda>r. add_any K X d anchor r ticket)))" for es' d
  proof (intro succeeds_intros, clarify)
    fix a rs ticket
    assume "((a, rs), ticket) \<in> set (ticketed (plan order t) es')"
    then obtain k where "(k, a, rs) \<in> set (plan order t)" using set_ticketed by blast
    then have "name_fits 1024 a" "list_all any_rule_ok rs"
      using ok by (auto simp: change_ok_def list_all_iff)
    then show "succeeds (io_for rs (\<lambda>r. add_any K X d a r ticket))"
      by (auto simp: list_all_iff intro!: succeeds_intros add_ok_succeeds [OF K X])
  qed
  show ?thesis
    unfolding commit_eq_spec commit_spec_def Let_def es io_lift_Ok io_bind_return
      pf_begin_trans_def pf_commit_trans_def
    by (intro succeeds_intros K adds)
qed

lemma commit_Ok_iff:
  assumes "obliging K" and "documented_ipnetwork X"
  shows "fst (commit K X order t w) = Ok () \<longleftrightarrow> list_all change_ok (plan order t)"
proof
  assume "fst (commit K X order t w) = Ok ()"
  then obtain w' where "commit K X order t w = (Ok (), w')" by (metis prod.collapse)
  then show "list_all change_ok (plan order t)" by (rule commit_Ok_imp [OF assms(2)])
next
  assume "list_all change_ok (plan order t)"
  then have "succeeds (commit K X order t)" by (rule commit_succeeds [OF assms])
  then show "fst (commit K X order t w) = Ok ()" using succeedsD [of _ w] by fastforce
qed

section \<open>No panics\<close>

lemma pool_addr_list_new_no_panic:
  "documented_ipnetwork X \<Longrightarrow> pool_addr_list_new X [p] \<noteq> Panic"
  by (auto simp: pool_addr_list_new_def init_pool_def outcome_simps pool_addr_copy_no_panic Let_def)

lemma set_rpool_no_panic:
  assumes "documented_ipnetwork X"
  shows "set_rpool X e x \<noteq> Panic"
  using to_pool_addr_list_ok [OF assms, of "ep_ip e"]
  by (auto simp: set_rpool_def outcome_simps Let_def)

lemma add_any_never_panics:
  assumes X: "documented_ipnetwork X"
  shows "no_panic (add_any K X d anchor r ticket)"
proof (cases r)
  case (AnyFilter f)
  then show ?thesis
    by (auto simp: add_filter_rule_def Let_def filter_rule_copy_no_panic [OF X] pool_addr_list_new_no_panic [OF X]
        intro!: no_panic_intros X split: option.split)
next
  case (AnyNat n)
  then show ?thesis
    by (auto simp: add_nat_rule_def Let_def nat_rule_copy_no_panic [OF X] set_rpool_no_panic [OF X]
        intro!: no_panic_intros X split: option.split)
next
  case (AnyRedirect q)
  then show ?thesis
    by (auto simp: add_redirect_rule_def Let_def redirect_rule_copy_no_panic [OF X] set_rpool_no_panic [OF X]
        intro!: no_panic_intros X)
next
  case (AnyScrub s)
  then show ?thesis
    by (auto simp: add_scrub_rule_def Let_def scrub_rule_copy_to_def intro!: no_panic_intros)
qed

lemma commit_never_panics:
  assumes "documented_ipnetwork X"
  shows "no_panic (commit K X order t)"
  unfolding commit_eq_spec commit_spec_def Let_def
  by (intro no_panic_intros plan_elements_error(2)) (auto intro!: no_panic_intros add_any_never_panics assms)

section \<open>Properties\<close>

text \<open>
  C8. Committing a transaction is what its specification says: one element per requested change,
  filter, NAT, redirect and scrub changes in this order, and the rules of every change added
  under the ticket that the kernel gave to the element of that same change, although the code
  runs four loops over one shared iterator of tickets.
\<close>

theorem commit_refines: "commit K X order t = commit_spec K X order t"
  by (rule commit_eq_spec)

definition sample_transaction :: transaction where
  "sample_transaction =
     add_change [97] (set_scrub_rules [\<lparr>sr_action = ScrubRuleAction_Scrub, sr_direction = Direction_In\<rparr>]
       (set_filter_rules [] anchor_change_new)) transaction_new"



text \<open>
  C25. Adding one rule of any kind under a ticket makes staging calls only; if it succeeds, its calls
  are exactly these, in this order: a pool ticket is asked for, the pool addresses of the rule (its
  route, its translation target) are registered one by one under the ticket that the kernel
  answered, and then one request adds the rule, with the given ticket and anchor, the struct
  that the rule installs, and that same pool ticket.
\<close>

theorem add_rule_contract:
  "\<exists>evs. w_calls (snd (add_any K X d anchor r ticket w)) = w_calls w @ evs \<and> list_all staging evs \<and>
     (fst (add_any K X d anchor r ticket w) = Ok () \<longrightarrow>
       (\<exists>x ps. evs = CallPoolAddr PfBeginAddrs pfioc_pooladdr_zeroed #
           map (CallPoolAddr PfAddAddr) ps @ [CallRule PfAddRule x] \<and>
         is_entry (install_any X) ticket anchor r x \<and>
         ir_pool_ticket x = answered_ticket K d (w_kernel w) \<and>
         pools_registered X (any_pools r) (answered_ticket K d (w_kernel w)) ps))"
proof -
  obtain q w' where run: "add_any K X d anchor r ticket w = (q, w')" by fastforce
  obtain evs where evs: "w_calls w' = w_calls w @ evs" "list_all staging evs"
    using emitsD [OF any_adder.add_staging run] by blast
  show ?thesis
    using any_adder.add_Ok [of K X d anchor r ticket w w' evs] run evs
    by (auto simp: adding_calls_def) metis
qed

definition sample_nat_rule :: nat_rule where
  "sample_nat_rule =
     \<lparr>nr_action = NatRuleAction_Nat nat_endpoint_default, nr_interface = Interface_Any,
      nr_af = AddrFamily_Ipv4, nr_from = endpoint_new Ip_Any Port_Any,
      nr_to = endpoint_new Ip_Any Port_Any\<rparr>"

lemma sample_nat_rule_ok: "any_rule_ok (AnyNat sample_nat_rule)"
  by (simp add: sample_nat_rule_def nat_rule_ok_def nat_rule_get_af_def get_nat_to_def
      nat_endpoint_default_def nat_endpoint_from_ip_def endpoint_new_def endpoint_get_af_def
      compatible_af.simps)

lemma add_rule_contract_witness:
  "\<exists>x p. w_calls (snd (add_any granting macos 3 [97] (AnyNat sample_nat_rule) 5 fresh_world)) =
       [CallPoolAddr PfBeginAddrs pfioc_pooladdr_zeroed, CallPoolAddr PfAddAddr p, CallRule PfAddRule x] \<and>
     is_entry (install_any macos) 5 [97] (AnyNat sample_nat_rule) x \<and> ir_pool_ticket x = 1 \<and> ipa_ticket p = 1"
proof -
  have "name_fits 1024 [97 :: u8]" by (simp add: name_fits_def)
  then have ok: "fst (add_any granting macos 3 [97] (AnyNat sample_nat_rule) 5 fresh_world) = Ok ()"
    using add_any_Ok_iff [OF granting_obliging macos_ipnetwork] sample_nat_rule_ok by blast
  have pools: "any_pools (AnyNat sample_nat_rule) = [pool_addr_from_ip Ip_Any]"
    by (simp add: sample_nat_rule_def nat_pools_def get_nat_to_def nat_endpoint_default_def
        nat_endpoint_from_ip_def endpoint_new_def)
  have one: "answered_ticket granting 3 (w_kernel fresh_world) = 1" and none: "w_calls fresh_world = []"
    by (simp_all add: answered_ticket_def granting_def fresh_world_def)
  obtain evs where evs: "w_calls (snd (add_any granting macos 3 [97] (AnyNat sample_nat_rule) 5 fresh_world)) = evs"
    and "\<exists>x ps. evs = CallPoolAddr PfBeginAddrs pfioc_pooladdr_zeroed #
          map (CallPoolAddr PfAddAddr) ps @ [CallRule PfAddRule x] \<and>
        is_entry (install_any macos) 5 [97] (AnyNat sample_nat_rule) x \<and> ir_pool_ticket x = 1 \<and>
        pools_registered macos [pool_addr_from_ip Ip_Any] 1 ps"
    using add_rule_contract [of granting macos 3 "[97]" "AnyNat sample_nat_rule" 5 fresh_world] ok
    unfolding none pools one append_Nil by blast
  then show ?thesis unfolding evs by (auto simp: pools_registered_def list_all2_Cons1)
qed

text \<open>
  C16. With a kernel that refuses no call, a transaction succeeds exactly when every anchor that it
  changes has a name that fits and every rule is well formed: state policies that fit the
  protocol, interfaces and labels that fit, address families that agree, and port ranges in
  order, also for the addresses of routes and translations. No valid transaction is rejected and
  no invalid one is accepted.
\<close>

theorem commit_complete:
  assumes "obliging K" and "documented_ipnetwork X"
  shows "fst (commit K X order t w) = Ok () \<longleftrightarrow> list_all change_ok (plan order t)"
  by (rule commit_Ok_iff [OF assms])

lemma commit_complete_witness:
  "fst (commit granting macos [[97]] sample_transaction fresh_world) = Ok ()"
proof -
  have "plan [[97]] sample_transaction =
      [(RulesetKind_Filter, [97], []),
       (RulesetKind_Scrub, [97], [AnyScrub \<lparr>sr_action = ScrubRuleAction_Scrub, sr_direction = Direction_In\<rparr>])]"
    by (simp add: plan_def partition_changes_def List.map_filter_simps sample_transaction_def
        add_change_def transaction_new_def set_scrub_rules_def set_filter_rules_def anchor_change_new_def)
  then have "list_all change_ok (plan [[97]] sample_transaction)"
    by (simp add: change_ok_def name_fits_def)
  then show ?thesis
    by (rule iffD2 [OF commit_complete [OF granting_obliging macos_ipnetwork]])
qed

text \<open>
  No transaction panics: every fault of its rules and every refusal of the kernel is an error
  that is returned.
\<close>

lemma commit_no_panic:
  assumes "documented_ipnetwork X"
  shows "fst (commit K X order t w) \<noteq> Panic"
  using no_panicD [OF commit_never_panics [OF assms]] by (metis prod.collapse)

lemma commit_no_panic_witness:
  "fst (commit granting macos [[0]] (add_change [0] (set_nat_rules [sample_nat_rule] anchor_change_new)
     transaction_new) fresh_world) \<noteq> Panic"
  by (rule commit_no_panic [OF macos_ipnetwork])

end
