(* ===== verification/CommitCalls.thy ===== *)
theory CommitCalls
  imports TransactionSpec
begin

text \<open>
  The calls of a commit and what the kernel answered to each. Replaying the calls of a run on the
  kernel tells which of them succeeded: nothing is called after a failure, and a commit is
  requested only when all calls before it succeeded. The requests cover exactly the changes
  of the transaction.
\<close>

section \<open>Replaying calls\<close>

text \<open>The outcomes of a sequence of calls, from a state of the kernel on, with the device and the
  state after it. Every call but opening is made on the device.\<close>

definition replied :: "fd \<Rightarrow> i32 \<times> i32 \<times> 'a \<times> 'k \<Rightarrow> bool \<times> fd \<times> 'k" where
  "replied d r = (case r of (ret, errno, x, k) \<Rightarrow> (ret \<noteq> - 1, d, k))"

fun reply :: "'k kernel \<Rightarrow> event \<Rightarrow> fd \<Rightarrow> 'k \<Rightarrow> bool \<times> fd \<times> 'k" where
  "reply K (OpenDevice p) d k = (case sys_open K p k of (Inl e, k') \<Rightarrow> (False, d, k') | (Inr d', k') \<Rightarrow> (True, d', k'))"
| "reply K (CallNone c) d k = replied d (sys_none K (ioctl_request c) d k)"
| "reply K (CallRule c a) d k = replied d (sys_rule K (ioctl_request c) d a k)"
| "reply K (CallStateKill c a) d k = replied d (sys_state_kill K (ioctl_request c) d a k)"
| "reply K (CallStatus c a) d k = replied d (sys_status K (ioctl_request c) d a k)"
| "reply K (CallStates c a) d k = replied d (sys_states K (ioctl_request c) d a k)"
| "reply K (CallPoolAddr c a) d k = replied d (sys_pooladdr K (ioctl_request c) d a k)"
| "reply K (CallTrans c a) d k = replied d (sys_trans K (ioctl_request c) d a k)"
| "reply K (CallIface c a) d k = replied d (sys_iface K (ioctl_request c) d a k)"

fun replay :: "'k kernel \<Rightarrow> event list \<Rightarrow> fd \<Rightarrow> 'k \<Rightarrow> bool list \<times> fd \<times> 'k" where
  "replay K [] d k = ([], d, k)"
| "replay K (ev # evs) d k = (case reply K ev d k of (ok, d1, k1) \<Rightarrow>
     (case replay K evs d1 k1 of (oks, d2, k2) \<Rightarrow> (ok # oks, d2, k2)))"

lemma length_replay: "replay K evs d k = (oks, d', k') \<Longrightarrow> length oks = length evs"
  by (induction evs arbitrary: d k oks) (auto split: prod.splits)

lemma replay_append:
  "replay K xs d k = (oks, d1, k1) \<Longrightarrow> replay K ys d1 k1 = (oks2, d2, k2) \<Longrightarrow>
     replay K (xs @ ys) d k = (oks @ oks2, d2, k2)"
  by (induction xs arbitrary: d k oks) (auto split: prod.splits)

section \<open>Programs that stop at the first failure\<close>

text \<open>Every call that a run made succeeded, except that the last may have failed if the run did.\<close>

definition stops :: "'k kernel \<Rightarrow> fd \<Rightarrow> ('k, 'a) io \<Rightarrow> bool" where
  "stops K d m \<longleftrightarrow> (\<forall>w q w'. m w = (q, w') \<longrightarrow> (\<exists>evs oks. w_calls w' = w_calls w @ evs \<and>
     replay K evs d (w_kernel w) = (oks, d, w_kernel w') \<and>
     list_all (\<lambda>ok. ok) (if is_ok q then oks else butlast oks)))"

named_theorems stops_intros "programs that stop at the first failing call"

lemma stopsD:
  "stops K d m \<Longrightarrow> m w = (q, w') \<Longrightarrow> \<exists>evs oks. w_calls w' = w_calls w @ evs \<and>
     replay K evs d (w_kernel w) = (oks, d, w_kernel w') \<and>
     list_all (\<lambda>ok. ok) (if is_ok q then oks else butlast oks)"
  by (simp add: stops_def)

lemma stops_return [stops_intros]: "stops K d (io_return x)"
  by (auto simp: stops_def io_return_def)

lemma stops_lift [stops_intros]: "stops K d (io_lift r)"
  by (auto simp: stops_def io_lift_def)

lemma all_butlast_append:
  "list_all (\<lambda>ok. ok) xs \<Longrightarrow> list_all (\<lambda>ok. ok) (butlast ys) \<Longrightarrow> list_all (\<lambda>ok. ok) (butlast (xs @ ys))"
  by (cases "ys = []") (auto simp: butlast_append list_all_iff dest: in_set_butlastD)

lemma stops_bind [stops_intros]:
  assumes m: "stops K d m" and f: "\<And>x. stops K d (f x)"
  shows "stops K d (io_bind m f)"
  unfolding stops_def
proof (intro allI impI)
  fix w q w''
  assume run: "io_bind m f w = (q, w'')"
  obtain s w1 where s: "m w = (s, w1)" by fastforce
  obtain evs oks where e: "w_calls w1 = w_calls w @ evs" "replay K evs d (w_kernel w) = (oks, d, w_kernel w1)"
    "list_all (\<lambda>ok. ok) (if is_ok s then oks else butlast oks)"
    using stopsD [OF m s] by blast
  show "\<exists>evs oks. w_calls w'' = w_calls w @ evs \<and> replay K evs d (w_kernel w) = (oks, d, w_kernel w'') \<and>
      list_all (\<lambda>ok. ok) (if is_ok q then oks else butlast oks)"
  proof (cases s)
    case (Ok x)
    then have "f x w1 = (q, w'')" using run s by (simp add: io_bind_def)
    then obtain evs' oks' where "w_calls w'' = w_calls w1 @ evs'"
      "replay K evs' d (w_kernel w1) = (oks', d, w_kernel w'')"
      "list_all (\<lambda>ok. ok) (if is_ok q then oks' else butlast oks')"
      using stopsD [OF f] by blast
    then show ?thesis
      using e Ok replay_append [OF e(2)] all_butlast_append [of oks oks']
      by (intro exI [of _ "evs @ evs'"] exI [of _ "oks @ oks'"]) auto
  qed (use run s e in \<open>auto simp: io_bind_def\<close>)
qed

lemma stops_for [stops_intros]: "(\<And>x. x \<in> set xs \<Longrightarrow> stops K d (f x)) \<Longrightarrow> stops K d (io_for xs f)"
  by (induction xs) (auto intro: stops_intros)

lemma stops_call:
  assumes "\<And>k. reply K ev d k = replied d (g k)"
  shows "stops K d (guarded a (call ev g))"
  unfolding stops_def
proof (intro allI impI)
  fix w q w'
  assume run: "guarded a (call ev g) w = (q, w')"
  obtain ret errno x k where g: "g (w_kernel w) = (ret, errno, x, k)" by (metis surj_pair)
  have "replay K [ev] d (w_kernel w) = ([ret \<noteq> - 1], d, w_kernel w')"
    using run g by (auto simp: assms replied_def guarded_def call_def)
  moreover have "is_ok q \<longleftrightarrow> ret \<noteq> - 1" "w_calls w' = w_calls w @ [ev]"
    using run g by (auto simp: guarded_def call_def ioctl_guard_def IOCTL_ERROR_def)
  ultimately show "\<exists>evs oks. w_calls w' = w_calls w @ evs \<and> replay K evs d (w_kernel w) = (oks, d, w_kernel w') \<and>
      list_all (\<lambda>ok. ok) (if is_ok q then oks else butlast oks)"
    by (intro exI [of _ "[ev]"] exI [of _ "[ret \<noteq> - 1]"]) auto
qed

lemma stops_calls [stops_intros]:
  "stops K d (guarded a (pf_add_rule K d x))" "stops K d (guarded a (pf_begin_addrs K d p))"
  "stops K d (guarded a (pf_add_addr K d p))" "stops K d (guarded a (pf_begin_trans K d t))"
  "stops K d (guarded a (pf_commit_trans K d t))"
  unfolding ioctl_defs by (rule stops_call, simp only: reply.simps)+

lemma stops_helpers [stops_intros]:
  "stops K d (get_pool_ticket K X d)" "stops K d (add_pool_address K X d p t)"
  unfolding get_pool_ticket_def add_pool_address_def Let_def by (intro stops_intros)+

lemma stops_add_any [stops_intros]: "stops K d (add_any K X d anchor r ticket)"
  by (cases r)
    (auto simp: add_filter_rule_def add_nat_rule_def add_redirect_rule_def add_scrub_rule_def Let_def
      intro!: stops_intros split: option.split)

section \<open>The outcomes of a commit\<close>

text \<open>What is staged after the device was opened.\<close>

definition stage_on ::
  "'k kernel \<Rightarrow> externals \<Rightarrow> fd \<Rightarrow> rstring list \<Rightarrow> transaction \<Rightarrow> ('k, fd \<times> pfioc_trans) io" where
  "stage_on K X d order t =
     io_bind (io_lift (plan_elements (plan order t))) (\<lambda>es.
     io_bind (guarded (EEXIST X) (pf_begin_trans K d (setup_trans pfioc_trans_zeroed es))) (\<lambda>tr.
     let es' = overwrite (t_array tr) es in
     io_bind (io_for (ticketed (plan order t) es')
       (\<lambda>((anchor, rules), ticket). io_for rules (\<lambda>r. add_any K X d anchor r ticket))) (\<lambda>_.
     io_return (d, tr\<lparr>t_array := es'\<rparr>))))"

lemma stage_opens: "stage_changes K X order t = io_bind (open_pf K) (\<lambda>d. stage_on K X d order t)"
  by (simp add: stage_changes_def stage_on_def)

lemma stops_stage_on: "stops K d (stage_on K X d order t)"
  unfolding stage_on_def Let_def by (intro stops_intros) (auto intro!: stops_intros)

lemma stage_on_device: "stage_on K X d order t w = (Ok (d', tr), w') \<Longrightarrow> d' = d"
  by (auto simp: stage_on_def Let_def io_bind_Ok io_return_eq)

lemma open_replay:
  assumes "open_pf K w = (q, w')"
  shows "replay K [OpenDevice PF_DEV_PATH] d (w_kernel w) =
      ([is_ok q], (case q of Ok d' \<Rightarrow> d' | _ \<Rightarrow> d), w_kernel w')"
    and "w_calls w' = w_calls w @ [OpenDevice PF_DEV_PATH]"
  using assms by (auto simp: open_pf_def split: prod.splits sum.splits)

lemma stage_replay:
  assumes "stage_changes K X order t w = (q, w')"
  obtains evs oks d' where "w_calls w' = w_calls w @ evs"
    and "replay K evs d (w_kernel w) = (oks, d', w_kernel w')"
    and "list_all (\<lambda>ok. ok) (if is_ok q then oks else butlast oks)"
    and "\<And>d1 tr. q = Ok (d1, tr) \<Longrightarrow> d' = d1"
proof -
  obtain s w1 where s: "open_pf K w = (s, w1)" by fastforce
  note o = open_replay(1) [OF s, of d] open_replay(2) [OF s]
  show ?thesis
  proof (cases s)
    case (Ok d1)
    then have on: "stage_on K X d1 order t w1 = (q, w')"
      using assms s by (simp add: stage_opens io_bind_def)
    then obtain evs oks where "w_calls w' = w_calls w1 @ evs"
      "replay K evs d1 (w_kernel w1) = (oks, d1, w_kernel w')"
      "list_all (\<lambda>ok. ok) (if is_ok q then oks else butlast oks)"
      using stopsD [OF stops_stage_on] by blast
    moreover have "replay K ([OpenDevice PF_DEV_PATH] @ evs) d (w_kernel w) = ([True] @ oks, d1, w_kernel w')"
      using o(1) Ok calculation(2) by (intro replay_append) simp_all
    moreover have "list_all (\<lambda>ok. ok) (if is_ok q then [True] @ oks else butlast ([True] @ oks))"
      using calculation(3) all_butlast_append [of "[True]" oks] by (auto split: if_splits)
    moreover have "w_calls w' = w_calls w @ [OpenDevice PF_DEV_PATH] @ evs" using calculation(1) o(2) by simp
    moreover have "d1 = d2" if "q = Ok (d2, tr)" for d2 tr
      using on that stage_on_device by metis
    ultimately show ?thesis by (intro that) 
  next
    case (Err e)
    then show ?thesis
      using assms s o that [of "[OpenDevice PF_DEV_PATH]" "[False]" d] by (auto simp: stage_opens io_bind_def)
  next
    case Panic
    then show ?thesis using s by (auto simp: open_pf_def split: prod.splits sum.splits)
  qed
qed

lemma commit_outcomes:
  assumes run: "commit K X order t w = (q, w')"
  shows "\<exists>evs oks d'. w_calls w' = w_calls w @ evs \<and> replay K evs d (w_kernel w) = (oks, d', w_kernel w') \<and>
    list_all (\<lambda>ok. ok) (butlast oks) \<and>
    (q = Ok () \<longleftrightarrow> list_all (\<lambda>ok. ok) oks \<and> (\<exists>tr. CallTrans PfCommitTrans tr \<in> set evs))"
proof -
  obtain s w1 where s: "stage_changes K X order t w = (s, w1)" by fastforce
  obtain evs oks d1 where e: "w_calls w1 = w_calls w @ evs" "replay K evs d (w_kernel w) = (oks, d1, w_kernel w1)"
    "list_all (\<lambda>ok. ok) (if is_ok s then oks else butlast oks)" "\<And>d2 tr. s = Ok (d2, tr) \<Longrightarrow> d1 = d2"
    using stage_replay [OF s] by blast
  have quietE: "emits (\<lambda>ev. \<forall>tr. ev \<noteq> CallTrans PfCommitTrans tr) (stage_changes K X order t)"
    by (rule emits_stage_changes) (auto elim: staging.elims)
  have quiet: "CallTrans PfCommitTrans tr \<notin> set evs" for tr
    using emitsD [OF quietE s] e(1) by (fastforce simp: list_all_iff)
  show ?thesis
  proof (cases s)
    case (Ok x)
    then obtain tr where x: "x = (d1, tr)" using e(4) by (cases x) auto
    obtain p w2 where p: "guarded (EEXIST X) (pf_commit_trans K d1 tr) w1 = (p, w2)" by fastforce
    obtain ret errno y k where g: "sys_trans K (ioctl_request PfCommitTrans) d1 tr (w_kernel w1) = (ret, errno, y, k)"
      by (metis surj_pair)
    have r: "replay K [CallTrans PfCommitTrans tr] d1 (w_kernel w1) = ([ret \<noteq> - 1], d1, k)"
      using g by (simp add: replied_def del: ioctl_request.simps)
    have "q = Ok () \<longleftrightarrow> ret \<noteq> - 1" "w_calls w' = w_calls w1 @ [CallTrans PfCommitTrans tr]" "w_kernel w' = k"
      using run s Ok x p g by (auto simp: commit_eq_staged io_bind_def io_return_def pf_commit_trans_def
          guarded_def call_def ioctl_guard_def IOCTL_ERROR_def simp del: ioctl_request.simps split: if_splits)
    then show ?thesis
      using e Ok replay_append [OF e(2) r]
      by (intro exI [of _ "evs @ [CallTrans PfCommitTrans tr]"] exI [of _ "oks @ [ret \<noteq> - 1]"]) auto
  next
    case (Err x)
    then have "q = Err x" "w' = w1" using run s by (simp_all add: commit_eq_staged io_bind_def)
    then show ?thesis using e Err quiet by (intro exI [of _ evs] exI [of _ oks]) auto
  next
    case Panic
    then have "q = Panic" "w' = w1" using run s by (simp_all add: commit_eq_staged io_bind_def)
    then show ?thesis using e Panic quiet by (intro exI [of _ evs] exI [of _ oks]) auto
  qed
qed

section \<open>The requests of a commit\<close>

text \<open>The rules added are split by the changes they belong to.\<close>

lemma list_all2_concat:
  "list_all2 P (concat yss) zs \<Longrightarrow> \<exists>zss. zs = concat zss \<and> list_all2 (list_all2 P) yss zss"
proof (induction yss arbitrary: zs)
  case (Cons ys yss)
  then obtain us vs where zs: "zs = us @ vs" "list_all2 P ys us" "list_all2 P (concat yss) vs"
    by (auto simp: list_all2_append1)
  then obtain zss where "vs = concat zss" "list_all2 (list_all2 P) yss zss" using Cons.IH by blast
  then show ?case using zs by (intro exI [of _ "us # zss"]) simp
qed simp

text \<open>The element for a kind and an anchor, and that a position of the request carries a change:
  its element, and the rules that were added for it under the ticket that the kernel wrote there.\<close>

definition element_for :: "ruleset_kind \<Rightarrow> rstring \<Rightarrow> pfioc_trans_e" where
  "element_for k a = \<lparr>te_rs_num = ruleset_kind_to_i32 k, te_anchor = nul_terminated a (zeros 1024), te_ticket = 0\<rparr>"

definition carries ::
  "externals \<Rightarrow> pfioc_trans_e list \<Rightarrow> pfioc_trans_e list \<Rightarrow> pfioc_rule list list \<Rightarrow> nat \<Rightarrow>
   ruleset_kind \<Rightarrow> rstring \<Rightarrow> any_rule list \<Rightarrow> bool" where
  "carries X es written rules i k a rs \<longleftrightarrow>
     i < length es \<and> es ! i = element_for k a \<and>
     list_all2 (is_entry (install_any X) (te_ticket (written ! i)) a) rs (rules ! i)"

lemma element_name:
  assumes "name_fits 1024 a"
  shows "cstr_until_nul (nul_terminated a (zeros 1024)) = Some a"
  using assms by (intro cstr_nul_terminated) (simp_all add: name_fits_def)

lemma element_for_inject:
  assumes "element_for k a = element_for l b" and "name_fits 1024 a" and "name_fits 1024 b"
  shows "k = l \<and> a = b"
proof
  have "ruleset_kind_to_i32 k = ruleset_kind_to_i32 l"
    using arg_cong [OF assms(1), of te_rs_num] by (simp only: element_for_def pfioc_trans_e.simps)
  then show "k = l" by (cases k; cases l) simp_all
  have "nul_terminated a (zeros 1024) = nul_terminated b (zeros 1024)"
    using arg_cong [OF assms(1), of te_anchor] by (simp only: element_for_def pfioc_trans_e.simps)
  then show "a = b" using element_name [OF assms(2)] element_name [OF assms(3)] by (metis option.inject)
qed

lemma plan_elements_are:
  assumes "plan_elements p = Ok es"
  shows "es = map (\<lambda>(k, a, rs). element_for k a) p" and "\<forall>(k, a, rs) \<in> set p. name_fits 1024 a"
proof -
  have "list_all2 (\<lambda>r e. r = Ok e) (map (\<lambda>(k, a, _). new_trans_element a k) p) es"
    using assms by (simp add: plan_elements_def collect_results_Ok_iff)
  then have each: "list_all2 (\<lambda>(k, a, rs) e. new_trans_element a k = Ok e) p es"
    by (simp add: list_all2_map1 case_prod_unfold)
  have "list_all2 (\<lambda>(k, a, rs) e. name_fits 1024 a \<and> e = element_for k a) p es"
    using each by (rule list_all2_mono) (simp only: split_paired_all prod.case new_trans_element_Ok_iff element_for_def)
  then show "es = map (\<lambda>(k, a, rs). element_for k a) p" "\<forall>(k, a, rs) \<in> set p. name_fits 1024 a"
    by (induction rule: list_all2_induct) auto
qed

lemma distinct_elements:
  assumes "distinct (map (\<lambda>(k, a, rs). (k, a)) p)" and "\<forall>(k, a, rs) \<in> set p. name_fits 1024 a"
  shows "distinct (map (\<lambda>(k, a, rs). element_for k a) p)"
  using assms
proof (induction p)
  case (Cons x p)
  obtain k a rs where x: "x = (k, a, rs)" by (metis surj_pair)
  have "element_for k a \<noteq> element_for l b" if "(l, b, rs') \<in> set p" for l b rs'
  proof
    assume "element_for k a = element_for l b"
    then have "k = l \<and> a = b" using that Cons.prems(2) x by (intro element_for_inject) auto
    then show False using that Cons.prems(1) x by (force simp: image_iff)
  qed
  then show ?case using Cons x by auto
qed simp

lemma commit_carries:
  assumes es: "plan_elements (plan order t) = Ok es" and len: "length written = length es"
    and added: "jobs_added X (plan order t) written staged"
  obtains rules where "added staged = concat rules" and "length rules = length es"
    and "\<And>i. i < length es \<Longrightarrow> case plan order t ! i of (k, a, rs) \<Rightarrow> carries X es written rules i k a rs"
proof -
  let ?p = "plan order t"
  let ?jobs = "map (\<lambda>((anchor, rules), ticket). map (\<lambda>r. (ticket, anchor, r)) rules) (ticketed ?p written)"
  have n: "length es = length ?p" by (rule length_plan_elements [OF es])
  let ?P = "\<lambda>(ticket, anchor, r) x. is_entry (install_any X) ticket anchor r x"
  have "\<exists>rules. added staged = concat rules \<and> list_all2 (list_all2 ?P) ?jobs rules"
    using added unfolding jobs_added_def jobs_def by (rule list_all2_concat)
  then obtain rules where rules: "added staged = concat rules" "list_all2 (list_all2 ?P) ?jobs rules"
    by (elim exE conjE)
  have l: "length ?jobs = length es" using n len by (simp add: ticketed_def)
  have "case ?p ! i of (k, a, rs) \<Rightarrow> carries X es written rules i k a rs" if i: "i < length es" for i
  proof -
    obtain k a rs where p: "?p ! i = (k, a, rs)" by (metis surj_pair)
    have "?jobs ! i = map (\<lambda>r. (te_ticket (written ! i), a, r)) rs"
      using i n len p by (simp add: ticketed_def)
    then have "list_all2 (\<lambda>(ticket, anchor, r) x. is_entry (install_any X) ticket anchor r x)
        (map (\<lambda>r. (te_ticket (written ! i), a, r)) rs) (rules ! i)"
      using list_all2_nthD [OF rules(2), of i] i l by simp
    moreover have "es ! i = element_for k a"
      using plan_elements_are(1) [OF es] i n p by simp
    ultimately show ?thesis using i p by (simp add: carries_def list_all2_map1)
  qed
  then show ?thesis using that [OF rules(1)] list_all2_lengthD [OF rules(2)] l by simp
qed

section \<open>Properties\<close>

text \<open>
  C9. A commit is atomic in its calls, on every kernel. Whatever the kernel answers: all calls but the
  last succeeded, so that nothing is called after a call that failed; a commit is requested at most
  once and as the last call, and then the calls before it are the opening of the device, the
  beginning of the transaction, and the staging, which touches no active ruleset, of every rule
  of every change in order, each as the struct it installs and under its own ticket and anchor;
  and the result is a success exactly when a commit was requested and every call succeeded.
\<close>

theorem commit_atomic:
  "\<exists>evs oks d'. w_calls (snd (commit K X order t w)) = w_calls w @ evs \<and>
     replay K evs d (w_kernel w) = (oks, d', w_kernel (snd (commit K X order t w))) \<and> list_all (\<lambda>ok. ok) (butlast oks) \<and>
     (fst (commit K X order t w) = Ok () \<longleftrightarrow>
        list_all (\<lambda>ok. ok) oks \<and> (\<exists>tr. CallTrans PfCommitTrans tr \<in> set evs)) \<and>
     (if \<exists>tr. CallTrans PfCommitTrans tr \<in> set evs then
        \<exists>es staged tr. plan_elements (plan order t) = Ok es \<and>
          evs = [OpenDevice PF_DEV_PATH, CallTrans PfBeginTrans (setup_trans pfioc_trans_zeroed es)] @
            staged @ [CallTrans PfCommitTrans tr] \<and>
          list_all staging staged \<and> length (t_array tr) = length es \<and>
          jobs_added X (plan order t) (t_array tr) staged
      else fst (commit K X order t w) \<noteq> Ok ())"
proof -
  obtain r w' where run: "commit K X order t w = (r, w')" by fastforce
  obtain evs oks d' where o: "w_calls w' = w_calls w @ evs" "replay K evs d (w_kernel w) = (oks, d', w_kernel w')"
    "list_all (\<lambda>ok. ok) (butlast oks)"
    "r = Ok () \<longleftrightarrow> list_all (\<lambda>ok. ok) oks \<and> (\<exists>tr. CallTrans PfCommitTrans tr \<in> set evs)"
    using commit_outcomes [OF run] by blast
  have "if \<exists>tr. CallTrans PfCommitTrans tr \<in> set evs then
      \<exists>es staged tr. plan_elements (plan order t) = Ok es \<and>
        evs = [OpenDevice PF_DEV_PATH, CallTrans PfBeginTrans (setup_trans pfioc_trans_zeroed es)] @
          staged @ [CallTrans PfCommitTrans tr] \<and>
        list_all staging staged \<and> length (t_array tr) = length es \<and>
        jobs_added X (plan order t) (t_array tr) staged
    else r \<noteq> Ok ()"
  proof (cases rule: commit_calls [OF run])
    case (1 pre)
    then show ?thesis using o(1) by auto
  next
    case (2 es staged tr)
    then show ?thesis using o(1) by (auto intro!: exI [of _ es] exI [of _ staged] exI [of _ tr])
  qed
  then show ?thesis using o unfolding run fst_conv snd_conv by blast
qed

text \<open>
  C26. A successful commit requests exactly what the transaction holds. Its begin request has pairwise
  different elements, one for each kind of rules that a change of an anchor sets, also when it
  sets none, and no other; and the rules that were added are, element by element, the rules
  of that change for that kind, in order, under the ticket of the element.
\<close>

theorem commit_covers_changes:
  assumes "distinct order" and "set order = dom (change_by_anchor t)"
    and "commit K X order t w = (Ok (), w')"
  shows "\<exists>es tr staged rules.
    w_calls w' = w_calls w @
      [OpenDevice PF_DEV_PATH, CallTrans PfBeginTrans (setup_trans pfioc_trans_zeroed es)] @
      staged @ [CallTrans PfCommitTrans tr] \<and>
    distinct es \<and> length (t_array tr) = length es \<and> length rules = length es \<and> added staged = concat rules \<and>
    (\<forall>k a c rs. change_by_anchor t a = Some c \<and> requested k c = Some rs \<longrightarrow>
       (\<exists>i. carries X es (t_array tr) rules i k a rs)) \<and>
    (\<forall>i < length es. \<exists>k a c rs. change_by_anchor t a = Some c \<and> requested k c = Some rs \<and>
       carries X es (t_array tr) rules i k a rs)"
proof -
  let ?p = "plan order t"
  obtain es staged tr where es: "plan_elements ?p = Ok es"
    and calls: "w_calls w' = w_calls w @
        [OpenDevice PF_DEV_PATH, CallTrans PfBeginTrans (setup_trans pfioc_trans_zeroed es)] @
        staged @ [CallTrans PfCommitTrans tr]"
    and len: "length (t_array tr) = length es" and jobs: "jobs_added X ?p (t_array tr) staged"
    by (cases rule: commit_calls [OF assms(3)]) auto
  obtain rules where rules: "added staged = concat rules" "length rules = length es"
    "\<And>i. i < length es \<Longrightarrow> case ?p ! i of (k, a, rs) \<Rightarrow> carries X es (t_array tr) rules i k a rs"
    using commit_carries [OF es len jobs] by blast
  have n: "length es = length ?p" by (rule length_plan_elements [OF es])
  have "distinct es"
    using distinct_elements [OF distinct_plan [OF assms(1)] plan_elements_are(2) [OF es]]
    by (simp add: plan_elements_are(1) [OF es])
  moreover have "\<exists>i. carries X es (t_array tr) rules i k a rs"
    if "change_by_anchor t a = Some c \<and> requested k c = Some rs" for k a c rs
  proof -
    have "(k, a, rs) \<in> set ?p" using that assms(2) by (auto simp: in_plan_iff)
    then obtain i where "i < length es" "?p ! i = (k, a, rs)" using n by (auto simp: in_set_conv_nth)
    then show ?thesis using rules(3) [of i] by auto
  qed
  moreover have "\<exists>k a c rs. change_by_anchor t a = Some c \<and> requested k c = Some rs \<and>
      carries X es (t_array tr) rules i k a rs" if "i < length es" for i
  proof -
    obtain k a rs where p: "?p ! i = (k, a, rs)" by (metis surj_pair)
    then have "(k, a, rs) \<in> set ?p" using that n nth_mem by metis
    then show ?thesis using rules(3) [OF that] p by (auto simp: in_plan_iff)
  qed
  ultimately show ?thesis using calls len rules(1,2) by blast
qed

lemma commit_covers_changes_witness:
  "\<exists>es tr staged. w_calls (snd (commit granting macos [[97]] sample_transaction fresh_world)) =
      [OpenDevice PF_DEV_PATH, CallTrans PfBeginTrans (setup_trans pfioc_trans_zeroed es)] @
      staged @ [CallTrans PfCommitTrans tr] \<and>
    element_for RulesetKind_Filter [97] \<in> set es \<and> element_for RulesetKind_Nat [97] \<notin> set es"
proof -
  have p: "plan [[97]] sample_transaction =
      [(RulesetKind_Filter, [97], []),
       (RulesetKind_Scrub, [97], [AnyScrub \<lparr>sr_action = ScrubRuleAction_Scrub, sr_direction = Direction_In\<rparr>])]"
    by (simp add: plan_def partition_changes_def List.map_filter_simps sample_transaction_def
        add_change_def transaction_new_def set_scrub_rules_def set_filter_rules_def anchor_change_new_def)
  have f: "name_fits 1024 [97 :: u8]" by (simp add: name_fits_def)
  have "list_all change_ok (plan [[97]] sample_transaction)" by (simp add: p change_ok_def f)
  then obtain w' where run: "commit granting macos [[97]] sample_transaction fresh_world = (Ok (), w')"
    using commit_Ok_iff [OF granting_obliging macos_ipnetwork] by (metis prod.collapse)
  have dom: "set [[97]] = dom (change_by_anchor sample_transaction)"
    by (simp add: sample_transaction_def add_change_def transaction_new_def)
  define c where "c = set_scrub_rules [\<lparr>sr_action = ScrubRuleAction_Scrub, sr_direction = Direction_In\<rparr>]
    (set_filter_rules [] anchor_change_new)"
  have change: "change_by_anchor sample_transaction = [[97] \<mapsto> c]"
    by (simp add: sample_transaction_def add_change_def transaction_new_def c_def)
  have req: "requested RulesetKind_Filter c = Some []" "requested RulesetKind_Nat c = None"
    by (simp_all add: c_def set_scrub_rules_def set_filter_rules_def anchor_change_new_def)
  obtain es tr staged rules where calls: "w_calls w' = w_calls fresh_world @
      [OpenDevice PF_DEV_PATH, CallTrans PfBeginTrans (setup_trans pfioc_trans_zeroed es)] @
      staged @ [CallTrans PfCommitTrans tr]"
    and all: "\<forall>k a c rs. change_by_anchor sample_transaction a = Some c \<and> requested k c = Some rs \<longrightarrow>
      (\<exists>i. carries macos es (t_array tr) rules i k a rs)"
    and only: "\<forall>i < length es. \<exists>k a c rs. change_by_anchor sample_transaction a = Some c \<and>
      requested k c = Some rs \<and> carries macos es (t_array tr) rules i k a rs"
    using commit_covers_changes [OF _ dom run] by auto
  have "element_for RulesetKind_Filter [97] \<in> set es"
    using all req(1) change nth_mem [of _ es] unfolding carries_def by (metis fun_upd_same)
  moreover have "element_for RulesetKind_Nat [97] \<notin> set es"
  proof
    assume "element_for RulesetKind_Nat [97] \<in> set es"
    then obtain i where i: "i < length es" "es ! i = element_for RulesetKind_Nat [97]" by (auto simp: in_set_conv_nth)
    then obtain k a rs where k: "a = [97]" "requested k c = Some rs" "es ! i = element_for k a"
      using only change unfolding carries_def by (auto split: if_splits)
    then have "k = RulesetKind_Nat" using i(2) element_for_inject [OF _ f f, of k RulesetKind_Nat] by simp
    then show False using k(2) req(2) by simp
  qed
  moreover have "w_calls fresh_world = []" by (simp add: fresh_world_def)
  ultimately show ?thesis using calls unfolding run snd_conv by (metis append_Nil)
qed

end
