(* ===== verification/PfCtl.thy ===== *)
theory PfCtl
  imports Transaction States
begin

text \<open>
  The operations of \<open>PfCtl\<close> (\<open>lib.rs\<close>) on the firewall as a whole, on anchors and on rules: enabling
  and disabling it, adding and removing anchors, appending single rules, setting and flushing
  the rules of an anchor. Those on states and interfaces are in the theory \<open>PfStates\<close>. \<open>u32\<close>
  arithmetic that overflows is a panic. The search for an anchor rule is the client of a kernel
  that lists its rules; what it relies on is \<open>lists_rules\<close> in the theory \<open>PfCtlSpec\<close>.
\<close>

record pfctl =
  ctl_file :: fd

definition pfctl_new :: "'k kernel \<Rightarrow> ('k, pfctl) io" where
  "pfctl_new K = io_bind (open_pf K) (\<lambda>f. io_return \<lparr>ctl_file = f\<rparr>)"

text \<open>The macro \<open>ignore_error_kind\<close> around a call.\<close>

definition ignoring :: "('k, unit) io \<Rightarrow> error_kind \<Rightarrow> ('k, unit) io" where
  "ignoring m k = (\<lambda>w. case m w of (r, w') \<Rightarrow> (ignore_error_kind r k, w'))"

section \<open>Enabling and disabling\<close>

definition enable :: "'k kernel \<Rightarrow> externals \<Rightarrow> pfctl \<Rightarrow> ('k, unit) io" where
  "enable K X self = guarded (EEXIST X) (pf_start K (ctl_file self))"

definition try_enable :: "'k kernel \<Rightarrow> externals \<Rightarrow> pfctl \<Rightarrow> ('k, unit) io" where
  "try_enable K X self = ignoring (enable K X self) Kind_StateAlreadyActive"

definition disable :: "'k kernel \<Rightarrow> externals \<Rightarrow> pfctl \<Rightarrow> ('k, unit) io" where
  "disable K X self = guarded (ENOENT X) (pf_stop K (ctl_file self))"

definition try_disable :: "'k kernel \<Rightarrow> externals \<Rightarrow> pfctl \<Rightarrow> ('k, unit) io" where
  "try_disable K X self = ignoring (disable K X self) Kind_StateAlreadyActive"

definition is_enabled :: "'k kernel \<Rightarrow> externals \<Rightarrow> pfctl \<Rightarrow> ('k, bool) io" where
  "is_enabled K X self =
     io_bind (guarded (EEXIST X) (pf_get_status K (ctl_file self) pf_status_zeroed)) (\<lambda>pf_status.
     io_return (st_running pf_status = 1))"

section \<open>Anchors\<close>

definition add_anchor ::
  "'k kernel \<Rightarrow> externals \<Rightarrow> pfctl \<Rightarrow> rstring \<Rightarrow> anchor_kind \<Rightarrow> ('k, unit) io" where
  "add_anchor K X self name akind =
    (let pfioc_rule = pfioc_rule_zeroed
           \<lparr>ir_rule := (ir_rule pfioc_rule_zeroed)\<lparr>r_action := anchor_kind_to_u8 akind\<rparr>\<rparr> in
     io_bind (io_lift (copy_anchor_name name (ir_anchor_call pfioc_rule))) (\<lambda>anchor_call.
     let pfioc_rule = pfioc_rule\<lparr>ir_anchor_call := anchor_call\<rparr> in
     io_bind (guarded (EEXIST X) (pf_insert_rule K (ctl_file self) pfioc_rule)) (\<lambda>_. io_return ())))"

definition try_add_anchor ::
  "'k kernel \<Rightarrow> externals \<Rightarrow> pfctl \<Rightarrow> rstring \<Rightarrow> anchor_kind \<Rightarrow> ('k, unit) io" where
  "try_add_anchor K X self name akind =
     ignoring (add_anchor K X self name akind) Kind_StateAlreadyActive"

text \<open>The indices \<open>0..nr\<close>.\<close>

definition rule_indices :: "u32 \<Rightarrow> u32 list" where
  "rule_indices nr = map of_nat [0..<unat nr]"

text \<open>The loop of \<open>with_anchor_rule\<close>; the struct is reused, so it is what the last call left.\<close>

fun anchor_rule_loop ::
  "'k kernel \<Rightarrow> externals \<Rightarrow> fd \<Rightarrow> rstring \<Rightarrow> u32 list \<Rightarrow> pfioc_rule \<Rightarrow> (pfioc_rule \<Rightarrow> ('k, 'r) io) \<Rightarrow> ('k, 'r) io" where
  "anchor_rule_loop K X d name [] pfioc_rule f = io_lift (Err AnchorDoesNotExist)"
| "anchor_rule_loop K X d name (i # ix) pfioc_rule f =
     io_bind (guarded (EEXIST X) (pf_get_rule K d (pfioc_rule\<lparr>ir_nr := i\<rparr>))) (\<lambda>pfioc_rule.
     io_bind (io_lift (compare_cstr_safe name (ir_anchor_call pfioc_rule))) (\<lambda>found.
     if found then f pfioc_rule else anchor_rule_loop K X d name ix pfioc_rule f))"

definition with_anchor_rule ::
  "'k kernel \<Rightarrow> externals \<Rightarrow> pfctl \<Rightarrow> rstring \<Rightarrow> anchor_kind \<Rightarrow> (pfioc_rule \<Rightarrow> ('k, 'r) io) \<Rightarrow> ('k, 'r) io" where
  "with_anchor_rule K X self name akind f =
    (let pfioc_rule = pfioc_rule_zeroed
           \<lparr>ir_rule := (ir_rule pfioc_rule_zeroed)\<lparr>r_action := anchor_kind_to_u8 akind\<rparr>\<rparr> in
     io_bind (guarded (EEXIST X) (pf_get_rules K (ctl_file self) pfioc_rule)) (\<lambda>pfioc_rule.
     let pfioc_rule = pfioc_rule\<lparr>ir_action := bindgen_ty_12_as_u32 PF_GET_NONE\<rparr> in
     anchor_rule_loop K X (ctl_file self) name (rule_indices (ir_nr pfioc_rule)) pfioc_rule f))"

definition remove_anchor ::
  "'k kernel \<Rightarrow> externals \<Rightarrow> pfctl \<Rightarrow> rstring \<Rightarrow> anchor_kind \<Rightarrow> ('k, unit) io" where
  "remove_anchor K X self name akind =
     with_anchor_rule K X self name akind (\<lambda>anchor_rule.
       io_bind (guarded (EEXIST X) (pf_delete_rule K (ctl_file self) anchor_rule)) (\<lambda>_. io_return ()))"

definition try_remove_anchor ::
  "'k kernel \<Rightarrow> externals \<Rightarrow> pfctl \<Rightarrow> rstring \<Rightarrow> anchor_kind \<Rightarrow> ('k, unit) io" where
  "try_remove_anchor K X self name akind =
     ignoring (remove_anchor K X self name akind) Kind_AnchorDoesNotExist"

section \<open>Single rules\<close>

definition PF_CHANGE_ADD_TAIL_u32 :: u32 where
  "PF_CHANGE_ADD_TAIL_u32 = bindgen_ty_11_as_u32 PF_CHANGE_ADD_TAIL"

definition add_rule ::
  "'k kernel \<Rightarrow> externals \<Rightarrow> pfctl \<Rightarrow> rstring \<Rightarrow> filter_rule \<Rightarrow> ('k, unit) io" where
  "add_rule K X self anchor rule =
     io_bind (get_pool_ticket K X (ctl_file self)) (\<lambda>pool_ticket.
     let pfioc_rule = pfioc_rule_zeroed\<lparr>ir_pool_ticket := pool_ticket\<rparr> in
     io_bind (get_ticket K X (ctl_file self) anchor AnchorKind_Filter) (\<lambda>ticket.
     let pfioc_rule = pfioc_rule\<lparr>ir_ticket := ticket\<rparr> in
     io_bind (io_lift (copy_anchor_name anchor (ir_anchor pfioc_rule))) (\<lambda>anchor_buf.
     let pfioc_rule = pfioc_rule\<lparr>ir_anchor := anchor_buf\<rparr> in
     io_bind (io_lift (filter_rule_copy_to X rule (ir_rule pfioc_rule))) (\<lambda>pf_rule.
     let pfioc_rule = pfioc_rule\<lparr>ir_rule := pf_rule, ir_action := PF_CHANGE_ADD_TAIL_u32\<rparr> in
     io_bind (guarded (EEXIST X) (pf_change_rule K (ctl_file self) pfioc_rule)) (\<lambda>_. io_return ())))))"

definition set_rules ::
  "'k kernel \<Rightarrow> externals \<Rightarrow> rstring \<Rightarrow> anchor_change \<Rightarrow> ('k, unit) io" where
  "set_rules K X anchor change = commit K X [anchor] (add_change anchor change transaction_new)"

definition add_nat_rule_now ::
  "'k kernel \<Rightarrow> externals \<Rightarrow> pfctl \<Rightarrow> rstring \<Rightarrow> nat_rule \<Rightarrow> ('k, unit) io" where
  "add_nat_rule_now K X self anchor rule =
    (let pfioc_rule = pfioc_rule_zeroed in
     io_bind (io_lift (copy_anchor_name anchor (ir_anchor pfioc_rule))) (\<lambda>anchor_buf.
     let pfioc_rule = pfioc_rule\<lparr>ir_anchor := anchor_buf\<rparr> in
     io_bind (io_lift (nat_rule_copy_to X rule (ir_rule pfioc_rule))) (\<lambda>pf_rule.
     let pfioc_rule = pfioc_rule\<lparr>ir_rule := pf_rule\<rparr> in
     io_bind (get_pool_ticket K X (ctl_file self)) (\<lambda>pool_ticket.
     io_bind (case get_nat_to rule of
         Some nat_to \<Rightarrow>
           io_bind (add_pool_address K X (ctl_file self)
             (pool_addr_from_ip (ep_ip (nat_endpoint_deref nat_to))) pool_ticket) (\<lambda>_.
           io_lift (set_rpool X (nat_endpoint_deref nat_to) pfioc_rule))
       | None \<Rightarrow> io_return pfioc_rule) (\<lambda>pfioc_rule.
     let pfioc_rule = pfioc_rule\<lparr>ir_pool_ticket := pool_ticket\<rparr> in
     io_bind (get_ticket K X (ctl_file self) anchor AnchorKind_Nat) (\<lambda>ticket.
     let pfioc_rule = pfioc_rule\<lparr>ir_ticket := ticket, ir_action := PF_CHANGE_ADD_TAIL_u32\<rparr> in
     io_bind (guarded (EEXIST X) (pf_change_rule K (ctl_file self) pfioc_rule)) (\<lambda>_. io_return ())))))))"

definition add_redirect_rule_now ::
  "'k kernel \<Rightarrow> externals \<Rightarrow> pfctl \<Rightarrow> rstring \<Rightarrow> redirect_rule \<Rightarrow> ('k, unit) io" where
  "add_redirect_rule_now K X self anchor rule =
    (let pfioc_rule = pfioc_rule_zeroed in
     io_bind (io_lift (copy_anchor_name anchor (ir_anchor pfioc_rule))) (\<lambda>anchor_buf.
     let pfioc_rule = pfioc_rule\<lparr>ir_anchor := anchor_buf\<rparr> in
     io_bind (io_lift (redirect_rule_copy_to X rule (ir_rule pfioc_rule))) (\<lambda>pf_rule.
     let pfioc_rule = pfioc_rule\<lparr>ir_rule := pf_rule\<rparr>; redirect_to = get_redirect_to rule in
     io_bind (get_pool_ticket K X (ctl_file self)) (\<lambda>pool_ticket.
     io_bind (add_pool_address K X (ctl_file self) (pool_addr_from_ip (ep_ip redirect_to)) pool_ticket) (\<lambda>_.
     io_bind (io_lift (set_rpool X redirect_to pfioc_rule)) (\<lambda>pfioc_rule.
     let pfioc_rule = pfioc_rule\<lparr>ir_pool_ticket := pool_ticket\<rparr> in
     io_bind (get_ticket K X (ctl_file self) anchor AnchorKind_Redirect) (\<lambda>ticket.
     let pfioc_rule = pfioc_rule\<lparr>ir_ticket := ticket, ir_action := PF_CHANGE_ADD_TAIL_u32\<rparr> in
     io_bind (guarded (EEXIST X) (pf_change_rule K (ctl_file self) pfioc_rule)) (\<lambda>_. io_return ()))))))))"

definition add_scrub_rule_now ::
  "'k kernel \<Rightarrow> externals \<Rightarrow> pfctl \<Rightarrow> rstring \<Rightarrow> scrub_rule \<Rightarrow> ('k, unit) io" where
  "add_scrub_rule_now K X self anchor rule =
     io_bind (get_pool_ticket K X (ctl_file self)) (\<lambda>pool_ticket.
     let pfioc_rule = pfioc_rule_zeroed\<lparr>ir_pool_ticket := pool_ticket\<rparr> in
     io_bind (get_ticket K X (ctl_file self) anchor AnchorKind_Scrub) (\<lambda>ticket.
     let pfioc_rule = pfioc_rule\<lparr>ir_ticket := ticket\<rparr> in
     io_bind (io_lift (copy_anchor_name anchor (ir_anchor pfioc_rule))) (\<lambda>anchor_buf.
     let pfioc_rule = pfioc_rule\<lparr>ir_anchor := anchor_buf\<rparr> in
     io_bind (io_lift (scrub_rule_copy_to rule (ir_rule pfioc_rule))) (\<lambda>pf_rule.
     let pfioc_rule = pfioc_rule\<lparr>ir_rule := pf_rule, ir_action := PF_CHANGE_ADD_TAIL_u32\<rparr> in
     io_bind (guarded (EEXIST X) (pf_change_rule K (ctl_file self) pfioc_rule)) (\<lambda>_. io_return ())))))"

definition flush_rules ::
  "'k kernel \<Rightarrow> externals \<Rightarrow> rstring \<Rightarrow> ruleset_kind \<Rightarrow> ('k, unit) io" where
  "flush_rules K X anchor rkind =
    (let anchor_change = (case rkind of
           RulesetKind_Filter \<Rightarrow> set_filter_rules [] anchor_change_new
         | RulesetKind_Nat \<Rightarrow> set_nat_rules [] anchor_change_new
         | RulesetKind_Redirect \<Rightarrow> set_redirect_rules [] anchor_change_new
         | RulesetKind_Scrub \<Rightarrow> set_scrub_rules [] anchor_change_new)
     in commit K X [anchor] (add_change anchor anchor_change transaction_new))"

end
