(* ===== verification/PfStates.thy ===== *)
theory PfStates
  imports PfCtl
begin

text \<open>
  The operations of \<open>PfCtl\<close> on connection states and interfaces (\<open>lib.rs\<close>). The buffers that
  the kernel fills keep their length; the size of a state and of an interface are those of the
  layouts that the crate asserts. The retry loop of \<open>get_interfaces\<close> ends after \<open>MAX_RETRIES\<close>
  calls.
\<close>

section \<open>States\<close>

definition pfsync_state_size_u32 :: u32 where
  "pfsync_state_size_u32 = of_nat (size_of pfsync_state_layout)"

text \<open>Multiplication of signed integers, which panics on overflow.\<close>

definition checked_smul :: "i32 \<Rightarrow> i32 \<Rightarrow> i32 result" where
  "checked_smul a b =
     (if - (2 ^ 31) \<le> sint a * sint b \<and> sint a * sint b < 2 ^ 31 then Ok (a * b) else Panic)"

definition get_num_states :: "'k kernel \<Rightarrow> externals \<Rightarrow> pfctl \<Rightarrow> ('k, u32) io" where
  "get_num_states K X self =
     io_bind (guarded (EEXIST X) (pf_get_states K (ctl_file self) pfioc_states_zeroed)) (\<lambda>pfioc_states.
     let element_size = pfsync_state_size_u32;
         buffer_size = ps_len pfioc_states
     in io_return (buffer_size div element_size))"

definition setup_pfioc_states :: "u32 \<Rightarrow> (pfioc_states \<times> pfsync_state list) result" where
  "setup_pfioc_states num_states =
    (let element_size = (pfsync_state_size_u32 :: i32) in
     obind (checked_smul element_size num_states) (\<lambda>ps_len.
     let pfsync_states = replicate (unat num_states) pfsync_state_zeroed in
     Ok (pfioc_states_zeroed\<lparr>ps_len := ps_len, ps_u := pfsync_states\<rparr>, pfsync_states)))"

definition setup_pfioc_state_kill :: "pfsync_state \<Rightarrow> pfioc_state_kill \<Rightarrow> pfioc_state_kill" where
  "setup_pfioc_state_kill s k =
    (let with_addr = (\<lambda>(e :: pfioc_state_addr_kill) a.
           e\<lparr>sak_addr := (sak_addr e)\<lparr>aw_v := (aw_v (sak_addr e))\<lparr>am_addr := a\<rparr>\<rparr>\<rparr>)
     in k\<lparr>psk_af := s_af_lan s, psk_proto := s_proto s, psk_proto_variant := s_proto_variant s,
          psk_ifname := s_ifname s,
          psk_src := with_addr (psk_src k) (h_addr (s_lan s)),
          psk_dst := with_addr (psk_dst k) (h_addr (s_ext_lan s))\<rparr>)"

definition get_states_inner :: "'k kernel \<Rightarrow> externals \<Rightarrow> pfctl \<Rightarrow> ('k, pfsync_state list) io" where
  "get_states_inner K X self =
     io_bind (get_num_states K X self) (\<lambda>num_states.
     if num_states > 0 then
       io_bind (io_lift (setup_pfioc_states num_states)) (\<lambda>(pfioc_states, pfsync_states).
       io_bind (guarded (EEXIST X) (pf_get_states K (ctl_file self) pfioc_states)) (\<lambda>pfioc_states.
       io_return (overwrite (ps_u pfioc_states) pfsync_states)))
     else io_return [])"

definition get_states :: "'k kernel \<Rightarrow> externals \<Rightarrow> pfctl \<Rightarrow> ('k, state list) io" where
  "get_states K X self =
     io_bind (get_states_inner K X self) (\<lambda>pfsync_states. io_return (map state_new pfsync_states))"

text \<open>One request to kill a state: the number of states that it killed.\<close>

definition kill_matching :: "'k kernel \<Rightarrow> externals \<Rightarrow> pfctl \<Rightarrow> pfsync_state \<Rightarrow> ('k, u32) io" where
  "kill_matching K X self s =
     io_bind (guarded (EEXIST X)
       (pf_kill_states K (ctl_file self) (setup_pfioc_state_kill s pfioc_state_kill_zeroed))) (\<lambda>kill.
     io_return (ucast (psk_af kill)))"

fun checked_sum :: "u32 list \<Rightarrow> u32 \<Rightarrow> u32 result" where
  "checked_sum [] acc = Ok acc"
| "checked_sum (x # xs) acc = obind (checked_add acc x) (checked_sum xs)"

definition clear_states ::
  "'k kernel \<Rightarrow> externals \<Rightarrow> pfctl \<Rightarrow> rstring \<Rightarrow> anchor_kind \<Rightarrow> ('k, u32) io" where
  "clear_states K X self anchor_name akind =
     io_bind (get_states_inner K X self) (\<lambda>pfsync_states.
     if pfsync_states \<noteq> [] then
       with_anchor_rule K X self anchor_name akind (\<lambda>anchor_rule.
         io_bind (io_collect (filter (\<lambda>s. s_anchor s = ir_nr anchor_rule) pfsync_states)
           (kill_matching K X self)) (\<lambda>counts.
         io_lift (checked_sum counts 0)))
     else io_return 0)"

definition clear_interface_states ::
  "'k kernel \<Rightarrow> externals \<Rightarrow> pfctl \<Rightarrow> interface \<Rightarrow> ('k, u32) io" where
  "clear_interface_states K X self iface =
     io_bind (io_lift (interface_copy_to iface (psk_ifname pfioc_state_kill_zeroed))) (\<lambda>ifname.
     let kill = pfioc_state_kill_zeroed\<lparr>psk_ifname := ifname\<rparr> in
     io_bind (guarded (EEXIST X) (pf_clear_states K (ctl_file self) kill)) (\<lambda>kill.
     io_return (ucast (psk_af kill))))"

definition kill_state :: "'k kernel \<Rightarrow> externals \<Rightarrow> pfctl \<Rightarrow> state \<Rightarrow> ('k, unit) io" where
  "kill_state K X self s =
     io_bind (guarded (EEXIST X)
       (pf_kill_states K (ctl_file self) (setup_pfioc_state_kill (as_raw s) pfioc_state_kill_zeroed))) (\<lambda>_.
     io_return ())"

section \<open>Interfaces\<close>

definition set_interface_flag ::
  "'k kernel \<Rightarrow> externals \<Rightarrow> pfctl \<Rightarrow> interface \<Rightarrow> interface_flags \<Rightarrow> ('k, unit) io" where
  "set_interface_flag K X self i flags =
     io_bind (io_lift (interface_copy_to i (pfiio_name pfioc_iface_zeroed))) (\<lambda>name.
     let iface = pfioc_iface_zeroed\<lparr>pfiio_name := name, pfiio_flags := bits flags\<rparr> in
     io_bind (guarded (EEXIST X) (pf_set_iface_flag K (ctl_file self) iface)) (\<lambda>_. io_return ()))"

definition clear_interface_flag ::
  "'k kernel \<Rightarrow> externals \<Rightarrow> pfctl \<Rightarrow> interface \<Rightarrow> interface_flags \<Rightarrow> ('k, unit) io" where
  "clear_interface_flag K X self i flags =
     io_bind (io_lift (interface_copy_to i (pfiio_name pfioc_iface_zeroed))) (\<lambda>name.
     let iface = pfioc_iface_zeroed\<lparr>pfiio_name := name, pfiio_flags := bits flags\<rparr> in
     io_bind (guarded (EEXIST X) (pf_clear_iface_flag K (ctl_file self) iface)) (\<lambda>_. io_return ()))"

definition INITIAL_CAPACITY :: nat where
  "INITIAL_CAPACITY = 30"

definition MAX_RETRIES :: nat where
  "MAX_RETRIES = 2"

text \<open>\<open>new_vec_zeroed(n).expect(..)\<close>\<close>

definition pfi_kif_new_vec_zeroed :: "externals \<Rightarrow> nat \<Rightarrow> pfi_kif list result" where
  "pfi_kif_new_vec_zeroed X n = (if vec_zeroed_fits X n then Ok (replicate n pfi_kif_zeroed) else Panic)"

text \<open>\<open>usize::try_from(i32).unwrap_or_default()\<close>\<close>

definition usize_or_default :: "i32 \<Rightarrow> nat" where
  "usize_or_default n = (if sint n < 0 then 0 else nat (sint n))"

function get_interfaces_loop ::
  "'k kernel \<Rightarrow> externals \<Rightarrow> fd \<Rightarrow> nat \<Rightarrow> pfi_kif list \<Rightarrow> pfioc_iface \<Rightarrow> ('k, pfi_kif list) io" where
  "get_interfaces_loop K X d retry buf iface =
    (let iface = iface\<lparr>pfiio_buffer := buf, pfiio_size := of_nat (length buf)\<rparr> in
     io_bind (guarded (EEXIST X) (pf_get_ifaces K d iface)) (\<lambda>iface.
     let buf = overwrite (pfiio_buffer iface) buf;
         num_system_interfaces = usize_or_default (pfiio_size iface) in
     if retry + 1 < MAX_RETRIES \<and> num_system_interfaces > length buf then
       io_bind (io_lift (pfi_kif_new_vec_zeroed X num_system_interfaces)) (\<lambda>buf.
       get_interfaces_loop K X d (retry + 1) buf iface)
     else io_return (take num_system_interfaces buf)))"
  by pat_completeness auto

termination
  by (relation "measure (\<lambda>(K, X, d, retry, buf, iface). MAX_RETRIES - retry)") auto

declare get_interfaces_loop.simps [simp del]

definition get_interfaces ::
  "'k kernel \<Rightarrow> externals \<Rightarrow> pfctl \<Rightarrow> interface \<Rightarrow> ('k, interface_description list) io" where
  "get_interfaces K X self i =
     io_bind (io_lift (pfi_kif_new_vec_zeroed X INITIAL_CAPACITY)) (\<lambda>buf.
     io_bind (io_lift (interface_copy_to i (pfiio_name pfioc_iface_zeroed))) (\<lambda>name.
     let iface = pfioc_iface_zeroed\<lparr>pfiio_name := name, pfiio_esize := of_nat (size_of pfi_kif_layout)\<rparr> in
     io_bind (get_interfaces_loop K X (ctl_file self) 0 buf iface) (\<lambda>buf.
     io_lift (collect_results (map interface_description_try_from buf)))))"

end
