(* ===== verification/PfCtlSpec.thy ===== *)
theory PfCtlSpec
  imports PfCtl TransactionSpec
begin

text \<open>
  What the operations of \<open>PfCtl\<close> on the firewall, its anchors and its rules promise: the meaning
  of each refusal of the kernel, the search for the first matching anchor rule against a kernel
  that lists its rules, the calls and the struct of a rule that is appended, and flushing.
\<close>

section \<open>Enabling and disabling\<close>

lemma ignoring_eq: "ignoring m k w = (case m w of (r, w') \<Rightarrow> (ignore_error_kind r k, w'))"
  by (simp add: ignoring_def)

lemma guarded_call_result:
  "fst (guarded a (call ev f) w) =
     (case f (w_kernel w) of (ret, errno, x, k) \<Rightarrow>
        if ret \<noteq> - 1 then Ok x else Err (if errno = a then StateAlreadyActive else Ioctl (OsError errno)))"
  by (auto simp: guarded_def call_def ioctl_guard_def IOCTL_ERROR_def split: prod.split)

lemma emits_ignoring [emits_intros]: "emits P m \<Longrightarrow> emits P (ignoring m k)"
  by (auto simp: emits_def ignoring_def split: prod.splits)

lemma no_panic_ignoring [no_panic_intros]: "no_panic m \<Longrightarrow> no_panic (ignoring m k)"
  unfolding no_panic_def ignoring_def
  by (auto split: prod.splits) (metis ignore_error_kind.elims outcome.distinct(3,5))

section \<open>The search for an anchor rule\<close>

text \<open>
  The documented behaviour of the requests that list rules: the number of rules of the ruleset
  that an action byte selects, and the rule at an index, whose own action selects the same
  ruleset; names are terminated, and listing changes nothing.
\<close>

definition lists_rules :: "'k kernel \<Rightarrow> (u8 \<Rightarrow> 'k \<Rightarrow> (i8 list \<times> pf_rule) list) \<Rightarrow> bool" where
  "lists_rules K rules \<longleftrightarrow>
     (\<forall>d a k. \<exists>ret errno nr. ret \<noteq> - 1 \<and>
        sys_rule K (ioctl_request PfGetRules) d a k = (ret, errno, a\<lparr>ir_nr := nr\<rparr>, k) \<and>
        unat nr = length (rules (r_action (ir_rule a)) k)) \<and>
     (\<forall>d a k c r. unat (ir_nr a) < length (rules (r_action (ir_rule a)) k) \<longrightarrow>
        rules (r_action (ir_rule a)) k ! unat (ir_nr a) = (c, r) \<longrightarrow>
        (\<exists>ret errno. ret \<noteq> - 1 \<and>
          sys_rule K (ioctl_request PfGetRule) d a k =
            (ret, errno, a\<lparr>ir_anchor_call := c, ir_rule := r\<rparr>, k)) \<and>
        0 \<in> set c \<and> rules (r_action r) k = rules (r_action (ir_rule a)) k)"

definition find_anchor :: "rstring \<Rightarrow> (i8 list \<times> pf_rule) list \<Rightarrow> (nat \<times> i8 list \<times> pf_rule) option" where
  "find_anchor name rules = find (\<lambda>(i, c, r). cstr_until_nul c = Some name) (enumerate 0 rules)"

lemma lists_rules_entry:
  "lists_rules K rules \<Longrightarrow> unat (ir_nr a) < length (rules (r_action (ir_rule a)) k) \<Longrightarrow>
     rules (r_action (ir_rule a)) k ! unat (ir_nr a) = (c, r) \<Longrightarrow>
   (\<exists>ret errno. ret \<noteq> - 1 \<and> sys_rule K (ioctl_request PfGetRule) d a k =
      (ret, errno, a\<lparr>ir_anchor_call := c, ir_rule := r\<rparr>, k)) \<and>
   0 \<in> set c \<and> rules (r_action r) k = rules (r_action (ir_rule a)) k"
  unfolding lists_rules_def by blast

lemma get_rule_step:
  assumes K: "lists_rules K rules" and i: "i < length (rules (r_action (ir_rule a)) (w_kernel w))"
    and len: "length (rules (r_action (ir_rule a)) (w_kernel w)) < 2 ^ 32"
    and cr: "rules (r_action (ir_rule a)) (w_kernel w) ! i = (c, r)"
  shows "\<exists>w'. guarded (EEXIST X) (pf_get_rule K d (a\<lparr>ir_nr := of_nat i\<rparr>)) w =
      (Ok (a\<lparr>ir_nr := of_nat i, ir_anchor_call := c, ir_rule := r\<rparr>), w') \<and> w_kernel w' = w_kernel w"
    and "0 \<in> set c" and "rules (r_action r) (w_kernel w) = rules (r_action (ir_rule a)) (w_kernel w)"
proof -
  have u: "unat (of_nat i :: u32) = i" using i len by (simp add: unat_of_nat)
  let ?a = "a\<lparr>ir_nr := of_nat i\<rparr>"
  have *: "(\<exists>ret errno. ret \<noteq> - 1 \<and> sys_rule K (ioctl_request PfGetRule) d ?a (w_kernel w) =
        (ret, errno, ?a\<lparr>ir_anchor_call := c, ir_rule := r\<rparr>, w_kernel w)) \<and>
      0 \<in> set c \<and> rules (r_action r) (w_kernel w) = rules (r_action (ir_rule ?a)) (w_kernel w)"
    using lists_rules_entry [OF K, of ?a "w_kernel w" c r d] i cr u by simp
  then show "\<exists>w'. guarded (EEXIST X) (pf_get_rule K d ?a) w =
      (Ok (a\<lparr>ir_nr := of_nat i, ir_anchor_call := c, ir_rule := r\<rparr>), w') \<and> w_kernel w' = w_kernel w"
    by (auto simp: guarded_def pf_get_rule_def call_def ioctl_guard_def IOCTL_ERROR_def
        simp del: ioctl_request.simps)
  show "0 \<in> set c" "rules (r_action r) (w_kernel w) = rules (r_action (ir_rule a)) (w_kernel w)"
    using * by simp_all
qed

lemma compare_cstr_safe_iff:
  "0 \<in> set c \<Longrightarrow> compare_cstr_safe name c = Ok (cstr_until_nul c = Some name)"
  by (auto simp: compare_cstr_safe_def cstr_until_nul_def)

lemma anchor_rule_loop_finds:
  assumes K: "lists_rules K rules" and rs: "rules (r_action (ir_rule a)) (w_kernel w) = rs"
    and j: "j \<le> length rs" and len: "length rs < 2 ^ 32"
  shows "case find (\<lambda>(i, c, r). cstr_until_nul c = Some name) (enumerate j (drop j rs)) of
      None \<Rightarrow> \<exists>w'. anchor_rule_loop K X d name (map of_nat [j..<length rs]) a f w = (Err AnchorDoesNotExist, w') \<and>
        w_kernel w' = w_kernel w
    | Some (i, c, r) \<Rightarrow> \<exists>b w'. anchor_rule_loop K X d name (map of_nat [j..<length rs]) a f w = f b w' \<and>
        w_kernel w' = w_kernel w \<and> ir_nr b = of_nat i \<and> ir_anchor_call b = c \<and> ir_rule b = r"
  using rs j
proof (induction "length rs - j" arbitrary: j a w)
  case 0
  then show ?case by (simp add: io_lift_def)
next
  case (Suc n)
  then have j: "j < length rs" by simp
  obtain c r where cr: "rs ! j = (c, r)" by fastforce
  have d: "drop j rs = (c, r) # drop (Suc j) rs" using Cons_nth_drop_Suc [OF j] cr by simp
  have u: "[j..<length rs] = j # [Suc j..<length rs]" using j by (rule upt_conv_Cons)
  have step: "j < length (rules (r_action (ir_rule a)) (w_kernel w))"
    "length (rules (r_action (ir_rule a)) (w_kernel w)) < 2 ^ 32"
    "rules (r_action (ir_rule a)) (w_kernel w) ! j = (c, r)"
    using j len cr Suc.prems(1) by simp_all
  let ?b = "a\<lparr>ir_nr := of_nat j, ir_anchor_call := c, ir_rule := r\<rparr>"
  obtain w1 where w1: "guarded (EEXIST X) (pf_get_rule K d (a\<lparr>ir_nr := of_nat j\<rparr>)) w = (Ok ?b, w1)"
    "w_kernel w1 = w_kernel w"
    using get_rule_step(1) [OF K step, where X = X and d = d] by blast
  have nul: "0 \<in> set c" and same: "rules (r_action (ir_rule ?b)) (w_kernel w1) = rs"
    using get_rule_step(2,3) [OF K step] Suc.prems(1) w1(2) by simp_all
  have run: "anchor_rule_loop K X d name (map of_nat [j..<length rs]) a f w =
      (if cstr_until_nul c = Some name then f ?b w1
       else anchor_rule_loop K X d name (map of_nat [Suc j..<length rs]) ?b f w1)"
    using w1 nul by (simp add: u io_bind_def compare_cstr_safe_iff io_return_def)
  show ?case
  proof (cases "cstr_until_nul c = Some name")
    case True
    then show ?thesis
      using run w1(2) by (auto simp: d intro!: exI [of _ ?b] exI [of _ w1])
  next
    case False
    have "n = length rs - Suc j" "Suc j \<le> length rs" using Suc.hyps(2) j by simp_all
    from Suc.hyps(1) [OF this(1) same this(2)] show ?thesis
      using False run w1(2) by (simp add: d split: option.splits prod.splits)
  qed
qed

lemma with_anchor_rule_finds:
  assumes K: "lists_rules K rules"
  shows "case find_anchor name (rules (anchor_kind_to_u8 k) (w_kernel w)) of
      None \<Rightarrow> \<exists>w'. with_anchor_rule K X c name k f w = (Err AnchorDoesNotExist, w') \<and>
        w_kernel w' = w_kernel w
    | Some (i, cs, r) \<Rightarrow> \<exists>b w'. with_anchor_rule K X c name k f w = f b w' \<and>
        w_kernel w' = w_kernel w \<and> ir_nr b = of_nat i \<and> ir_anchor_call b = cs \<and> ir_rule b = r"
proof -
  let ?a = "pfioc_rule_zeroed\<lparr>ir_rule := (ir_rule pfioc_rule_zeroed)\<lparr>r_action := anchor_kind_to_u8 k\<rparr>\<rparr>"
  let ?rs = "rules (anchor_kind_to_u8 k) (w_kernel w)"
  obtain ret errno nr where g: "ret \<noteq> - 1"
    "sys_rule K (ioctl_request PfGetRules) (ctl_file c) ?a (w_kernel w) = (ret, errno, ?a\<lparr>ir_nr := nr\<rparr>, w_kernel w)"
    "unat nr = length (rules (r_action (ir_rule ?a)) (w_kernel w))"
    using K unfolding lists_rules_def by blast
  let ?w = "\<lparr>w_kernel = w_kernel w, w_calls = w_calls w @ [CallRule PfGetRules ?a]\<rparr>"
  let ?b = "?a\<lparr>ir_nr := nr, ir_action := bindgen_ty_12_as_u32 PF_GET_NONE\<rparr>"
  have nr: "unat nr = length ?rs" using g(3) by simp
  have "unat nr < 2 ^ LENGTH(32)" by (rule unsigned_less)
  then have len: "length ?rs < 2 ^ 32" using nr by simp
  have run: "with_anchor_rule K X c name k f w =
      anchor_rule_loop K X (ctl_file c) name (map of_nat [0..<length ?rs]) ?b f ?w"
    using g(1,2) by (simp add: with_anchor_rule_def Let_def io_bind_def guarded_def pf_get_rules_def call_def
        ioctl_guard_def IOCTL_ERROR_def rule_indices_def nr del: ioctl_request.simps)
  have sel: "rules (r_action (ir_rule ?b)) (w_kernel ?w) = ?rs" by simp
  show ?thesis
    unfolding run find_anchor_def
    using anchor_rule_loop_finds [where j = 0 and name = name and X = X and d = "ctl_file c" and f = f,
        OF K sel _ len] by (simp split: option.splits prod.splits)
qed

section \<open>Appending a rule\<close>

text \<open>The four operations that append one rule, and the struct that they append.\<close>

fun append_any ::
  "'k kernel \<Rightarrow> externals \<Rightarrow> pfctl \<Rightarrow> rstring \<Rightarrow> any_rule \<Rightarrow> ('k, unit) io" where
  "append_any K X c anchor (AnyFilter r) = add_rule K X c anchor r"
| "append_any K X c anchor (AnyNat r) = add_nat_rule_now K X c anchor r"
| "append_any K X c anchor (AnyRedirect r) = add_redirect_rule_now K X c anchor r"
| "append_any K X c anchor (AnyScrub r) = add_scrub_rule_now K X c anchor r"

text \<open>A filter rule is appended without the pool address of its route.\<close>

fun appended_rule :: "externals \<Rightarrow> any_rule \<Rightarrow> pf_rule result" where
  "appended_rule X (AnyFilter r) = filter_rule_copy_to X r pf_rule_zeroed"
| "appended_rule X r = install_any X r"

fun appended_pools :: "any_rule \<Rightarrow> pool_addr list" where
  "appended_pools (AnyFilter r) = []"
| "appended_pools r = any_pools r"

fun any_anchor_kind :: "any_rule \<Rightarrow> anchor_kind" where
  "any_anchor_kind (AnyFilter r) = AnchorKind_Filter"
| "any_anchor_kind (AnyNat r) = AnchorKind_Nat"
| "any_anchor_kind (AnyRedirect r) = AnchorKind_Redirect"
| "any_anchor_kind (AnyScrub r) = AnchorKind_Scrub"

text \<open>The requests that change rules, in order.\<close>

fun changes :: "event list \<Rightarrow> pfioc_rule list" where
  "changes [] = []"
| "changes (CallRule c x # evs) = (if c = PfChangeRule then x # changes evs else changes evs)"
| "changes (_ # evs) = changes evs"

definition ticket_request :: "rstring \<Rightarrow> anchor_kind \<Rightarrow> pfioc_rule" where
  "ticket_request anchor k = pfioc_rule_zeroed
     \<lparr>ir_action := 6, ir_anchor := nul_terminated anchor (zeros 1024),
      ir_rule := pf_rule_zeroed\<lparr>r_action := anchor_kind_to_u8 k\<rparr>\<rparr>"

definition is_appended :: "externals \<Rightarrow> rstring \<Rightarrow> any_rule \<Rightarrow> event list \<Rightarrow> bool" where
  "is_appended X anchor r evs \<longleftrightarrow>
     (\<exists>x. changes evs = [ticket_request anchor (any_anchor_kind r), x] \<and>
        ir_action x = bindgen_ty_11_as_u32 PF_CHANGE_ADD_TAIL \<and> name_fits 1024 anchor \<and>
        ir_anchor x = nul_terminated anchor (zeros 1024) \<and>
        appended_rule X r = Ok (ir_rule x) \<and>
        pools_registered X (appended_pools r) (ir_pool_ticket x) (registered evs))"

lemmas append_simps =
  adder_simps get_ticket_def pf_change_rule_def is_appended_def ticket_request_def
  PF_CHANGE_ADD_TAIL_u32_def set_rpool_Ok_iff

lemma add_rule_appends:
  "add_rule K X c anchor r w = (Ok (), w') \<Longrightarrow>
     \<exists>evs. w_calls w' = w_calls w @ evs \<and> is_appended X anchor (AnyFilter r) evs"
  by (auto simp: add_rule_def append_simps)

lemma add_scrub_rule_appends:
  "add_scrub_rule_now K X c anchor r w = (Ok (), w') \<Longrightarrow>
     \<exists>evs. w_calls w' = w_calls w @ evs \<and> is_appended X anchor (AnyScrub r) evs"
  by (auto simp: add_scrub_rule_now_def append_simps install_scrub_def)

lemma add_nat_rule_appends:
  "add_nat_rule_now K X c anchor r w = (Ok (), w') \<Longrightarrow>
     \<exists>evs. w_calls w' = w_calls w @ evs \<and> is_appended X anchor (AnyNat r) evs"
  by (cases "get_nat_to r")
    (auto simp: add_nat_rule_now_def append_simps install_nat_def nat_pools_def)

lemma add_redirect_rule_appends:
  "add_redirect_rule_now K X c anchor r w = (Ok (), w') \<Longrightarrow>
     \<exists>evs. w_calls w' = w_calls w @ evs \<and> is_appended X anchor (AnyRedirect r) evs"
  by (auto simp: add_redirect_rule_now_def append_simps install_redirect_def redirect_pools_def)

lemma append_any_appends:
  "append_any K X c anchor r w = (Ok (), w') \<Longrightarrow>
     \<exists>evs. w_calls w' = w_calls w @ evs \<and> is_appended X anchor r evs"
  by (cases r) (simp_all add: add_rule_appends add_scrub_rule_appends add_nat_rule_appends
      add_redirect_rule_appends)

section \<open>No panics\<close>

lemma append_any_never_panics:
  assumes X: "documented_ipnetwork X"
  shows "no_panic (append_any K X c anchor r)"
proof (cases r)
  case (AnyFilter f)
  then show ?thesis
    by (auto simp: add_rule_def Let_def filter_rule_copy_no_panic [OF X] intro!: no_panic_intros X)
next
  case (AnyNat n)
  then show ?thesis
    by (auto simp: add_nat_rule_now_def Let_def nat_rule_copy_no_panic [OF X] set_rpool_no_panic [OF X]
        intro!: no_panic_intros X split: option.split)
next
  case (AnyRedirect q)
  then show ?thesis
    by (auto simp: add_redirect_rule_now_def Let_def redirect_rule_copy_no_panic [OF X]
        set_rpool_no_panic [OF X] intro!: no_panic_intros X)
next
  case (AnyScrub s)
  then show ?thesis
    by (auto simp: add_scrub_rule_now_def Let_def scrub_rule_copy_to_def intro!: no_panic_intros)
qed

lemma emits_copied_address:
  "emits (\<lambda>ev. \<forall>p. ev \<noteq> CallPoolAddr PfAddAddr p) (add_rule K X c anchor r)"
  by (auto simp: add_rule_def Let_def pf_change_rule_def intro!: emits_intros)

section \<open>Properties\<close>

text \<open>
  Enabling and disabling: the call that finds the firewall already in the requested state
  (\<open>EEXIST\<close> for enabling, \<open>ENOENT\<close> for disabling) is \<open>StateAlreadyActive\<close>, which the
  \<open>try\<close> variants take for success; every other refusal is reported with its error number by both.
\<close>

lemma enable_disable_outcomes:
  "(case sys_none K (ioctl_request PfStart) (ctl_file c) (w_kernel w) of (ret, errno, _, _) \<Rightarrow>
      fst (enable K X c w) = (if ret \<noteq> - 1 then Ok () else if errno = EEXIST X then Err StateAlreadyActive
        else Err (Ioctl (OsError errno))) \<and>
      fst (try_enable K X c w) = (if ret = - 1 \<and> errno \<noteq> EEXIST X then Err (Ioctl (OsError errno)) else Ok ())) \<and>
   (case sys_none K (ioctl_request PfStop) (ctl_file c) (w_kernel w) of (ret, errno, _, _) \<Rightarrow>
      fst (disable K X c w) = (if ret \<noteq> - 1 then Ok () else if errno = ENOENT X then Err StateAlreadyActive
        else Err (Ioctl (OsError errno))) \<and>
      fst (try_disable K X c w) = (if ret = - 1 \<and> errno \<noteq> ENOENT X then Err (Ioctl (OsError errno)) else Ok ()))"
  by (auto simp: enable_def disable_def try_enable_def try_disable_def ignoring_def guarded_def call_def
      pf_start_def pf_stop_def ioctl_guard_def IOCTL_ERROR_def split: prod.split simp del: ioctl_request.simps)

text \<open>
  Against a kernel that lists its rules as documented, \<open>with_anchor_rule\<close> runs its closure
  exactly on the first rule of the ruleset whose anchor name is the one sought, with its index,
  and changes nothing before; if there is none the closure does not run and the result is
  \<open>AnchorDoesNotExist\<close>.
\<close>

lemma anchor_search:
  assumes "lists_rules K rules"
  shows "case find_anchor name (rules (anchor_kind_to_u8 k) (w_kernel w)) of
      None \<Rightarrow> \<exists>w'. with_anchor_rule K X c name k f w = (Err AnchorDoesNotExist, w') \<and>
        w_kernel w' = w_kernel w
    | Some (i, cs, r) \<Rightarrow> \<exists>b w'. with_anchor_rule K X c name k f w = f b w' \<and>
        w_kernel w' = w_kernel w \<and> ir_nr b = of_nat i \<and> ir_anchor_call b = cs \<and> ir_rule b = r"
  by (rule with_anchor_rule_finds [OF assms])

text \<open>A kernel with a single anchor rule, which it lists.\<close>

definition one_anchor :: "(i8 list \<times> pf_rule) list" where
  "one_anchor = [(nul_terminated [97] (zeros 1024), pf_rule_zeroed)]"

definition listing :: "u32 kernel" where
  "listing = granting\<lparr>sys_rule := (\<lambda>rq d a k.
     if rq_nr rq = 6 then (0, 0, a\<lparr>ir_nr := 1\<rparr>, k)
     else if rq_nr rq = 7 then
       (0, 0, a\<lparr>ir_anchor_call := nul_terminated [97] (zeros 1024), ir_rule := pf_rule_zeroed\<rparr>, k)
     else (0, 0, a, k))\<rparr>"

lemma listing_lists: "lists_rules listing (\<lambda>_ _. one_anchor)"
  by (simp add: lists_rules_def listing_def one_anchor_def nul_terminated_def)
    (auto intro!: exI [of _ 1])

lemma anchor_search_witness:
  "(\<exists>w'. with_anchor_rule listing macos \<lparr>ctl_file = 3\<rparr> [98] AnchorKind_Filter
      (\<lambda>b. io_return (ir_nr b)) fresh_world = (Err AnchorDoesNotExist, w')) \<and>
   (\<exists>w'. with_anchor_rule listing macos \<lparr>ctl_file = 3\<rparr> [97] AnchorKind_Filter
      (\<lambda>b. io_return (ir_nr b)) fresh_world = (Ok 0, w'))"
proof -
  have "find_anchor [98] one_anchor = None" "find_anchor [97] one_anchor =
      Some (0, nul_terminated [97] (zeros 1024), pf_rule_zeroed)"
    using cstr_nul_terminated [of "[97]" "zeros 1024"] by (simp_all add: find_anchor_def one_anchor_def)
  then show ?thesis
    using anchor_search [OF listing_lists, where name = "[98]" and k = AnchorKind_Filter and w = fresh_world
        and X = macos and c = "\<lparr>ctl_file = 3\<rparr>" and f = "\<lambda>b. io_return (ir_nr b)"]
      anchor_search [OF listing_lists, where name = "[97]" and k = AnchorKind_Filter and w = fresh_world
        and X = macos and c = "\<lparr>ctl_file = 3\<rparr>" and f = "\<lambda>b. io_return (ir_nr b)"]
    by (auto simp: io_return_def)
qed

text \<open>
  Removing an anchor that the kernel does not list is \<open>AnchorDoesNotExist\<close>, success for the
  \<open>try\<close> variant, and reaches the kernel with no request to delete; otherwise the request to
  delete is made once, for the first rule listed with that name.
\<close>

lemma remove_anchor_first_match:
  assumes "lists_rules K rules"
  shows "case find_anchor name (rules (anchor_kind_to_u8 k) (w_kernel w)) of
      None \<Rightarrow> fst (remove_anchor K X c name k w) = Err AnchorDoesNotExist \<and>
        fst (try_remove_anchor K X c name k w) = Ok () \<and>
        w_kernel (snd (remove_anchor K X c name k w)) = w_kernel w
    | Some (i, cs, r) \<Rightarrow> \<exists>b. ir_nr b = of_nat i \<and> ir_anchor_call b = cs \<and> ir_rule b = r \<and>
        (case sys_rule K (ioctl_request PfDeleteRule) (ctl_file c) b (w_kernel w) of (ret, errno, _, k') \<Rightarrow>
          fst (remove_anchor K X c name k w) = ioctl_guard (EEXIST X) ret errno \<and>
          w_kernel (snd (remove_anchor K X c name k w)) = k')"
proof (cases "find_anchor name (rules (anchor_kind_to_u8 k) (w_kernel w))")
  case None
  then show ?thesis
    using with_anchor_rule_finds [OF assms, where name = name and k = k and w = w and X = X and c = c
        and f = "\<lambda>b. io_bind (guarded (EEXIST X) (pf_delete_rule K (ctl_file c) b)) (\<lambda>_. io_return ())"]
    by (auto simp: remove_anchor_def try_remove_anchor_def ignoring_def)
next
  case (Some x)
  obtain i cs r where x: "x = (i, cs, r)" by (metis surj_pair)
  let ?del = "\<lambda>b. io_bind (guarded (EEXIST X) (pf_delete_rule K (ctl_file c) b)) (\<lambda>_. io_return ())"
  obtain b w' where b: "with_anchor_rule K X c name k ?del w = ?del b w'" "w_kernel w' = w_kernel w"
    "ir_nr b = of_nat i" "ir_anchor_call b = cs" "ir_rule b = r"
    using with_anchor_rule_finds [OF assms, where name = name and k = k and w = w and X = X and c = c
        and f = ?del] Some x by auto
  have "case sys_rule K (ioctl_request PfDeleteRule) (ctl_file c) b (w_kernel w) of (ret, errno, _, k') \<Rightarrow>
      fst (?del b w') = ioctl_guard (EEXIST X) ret errno \<and> w_kernel (snd (?del b w')) = k'"
    by (auto simp: b(2) io_bind_def guarded_def call_def pf_delete_rule_def io_return_def ioctl_guard_def
        IOCTL_ERROR_def split: prod.split simp del: ioctl_request.simps)
  then show ?thesis using b Some x by (auto simp: remove_anchor_def)
qed

lemma remove_anchor_first_match_witness:
  "fst (try_remove_anchor listing macos \<lparr>ctl_file = 3\<rparr> [98] AnchorKind_Filter fresh_world) = Ok ()"
proof -
  have "find_anchor [98] one_anchor = None"
    using cstr_nul_terminated [of "[97]" "zeros 1024"] by (simp add: find_anchor_def one_anchor_def)
  then show ?thesis
    using remove_anchor_first_match [OF listing_lists, where name = "[98]" and k = AnchorKind_Filter
        and w = fresh_world and X = macos and c = "\<lparr>ctl_file = 3\<rparr>"] by simp
qed

text \<open>
  Appending a rule of any kind outside a transaction: if it succeeds, exactly two requests
  changed rules, the first for a ticket of the anchor's ruleset of that kind and the second
  appending the struct of the rule at its tail, and the translation addresses were registered
  under the pool ticket of that struct.
\<close>

lemma append_rule_requests:
  "case append_any K X c anchor r w of
     (Ok _, w') \<Rightarrow> \<exists>evs. w_calls w' = w_calls w @ evs \<and> is_appended X anchor r evs
   | _ \<Rightarrow> True"
proof -
  obtain q w' where run: "append_any K X c anchor r w = (q, w')" by fastforce
  show ?thesis
  proof (cases q)
    case (Ok u)
    then show ?thesis using append_any_appends [of K X c anchor r w w'] run by simp
  qed (simp_all add: run)
qed

text \<open>
  \<open>PfCtl::add_rule\<close> drops the pool address of a route: it never registers an address, and the
  rule that it appends has the route type of the rule with an empty pool, unlike the same rule
  in a transaction.
\<close>

lemma add_rule_drops_route:
  "case add_rule K X c anchor r w of
     (Ok _, w') \<Rightarrow> \<exists>evs g x. w_calls w' = w_calls w @ evs \<and> changes evs = [g, x] \<and> registered evs = [] \<and>
       r_rt (ir_rule x) = route_to_u8 (fr_route r) \<and> r_rpool (ir_rule x) = r_rpool pf_rule_zeroed
   | _ \<Rightarrow> True"
proof -
  obtain q w' where run: "add_rule K X c anchor r w = (q, w')" by fastforce
  show ?thesis
  proof (cases q)
    case (Ok u)
    then obtain evs where evs: "w_calls w' = w_calls w @ evs" "is_appended X anchor (AnyFilter r) evs"
      using add_rule_appends [of K X c anchor r w w'] run by auto
    then obtain g x where x: "changes evs = [g, x]" "filter_rule_copy_to X r pf_rule_zeroed = Ok (ir_rule x)"
      "registered evs = []"
      by (auto simp: is_appended_def pools_registered_def)
    then have "r_rt (ir_rule x) = route_to_u8 (fr_route r) \<and> r_rpool (ir_rule x) = r_rpool pf_rule_zeroed"
      by (auto simp: filter_rule_copy_Ok_iff)
    then have "\<exists>evs g x. w_calls w' = w_calls w @ evs \<and> changes evs = [g, x] \<and> registered evs = [] \<and>
        r_rt (ir_rule x) = route_to_u8 (fr_route r) \<and> r_rpool (ir_rule x) = r_rpool pf_rule_zeroed"
      using evs(1) x(1,3) by blast
    then show ?thesis using run Ok by simp
  qed (simp_all add: run)
qed

text \<open>
  Flushing the rules of a kind in an anchor is one transaction with a single element, for that
  kind and anchor, and no rule: open, begin and commit are its only calls.
\<close>

lemma flush_rules_calls:
  "flush_rules K X anchor k =
     io_bind (open_pf K) (\<lambda>d.
     io_bind (io_lift (new_trans_element anchor k)) (\<lambda>e.
     io_bind (guarded (EEXIST X) (pf_begin_trans K d (setup_trans pfioc_trans_zeroed [e]))) (\<lambda>tr.
     io_bind (guarded (EEXIST X) (pf_commit_trans K d (tr\<lparr>t_array := overwrite (t_array tr) [e]\<rparr>))) (\<lambda>_.
     io_return ()))))"
proof -
  have plan: "plan [anchor] (add_change anchor (case k of
           RulesetKind_Filter \<Rightarrow> set_filter_rules [] anchor_change_new
         | RulesetKind_Nat \<Rightarrow> set_nat_rules [] anchor_change_new
         | RulesetKind_Redirect \<Rightarrow> set_redirect_rules [] anchor_change_new
         | RulesetKind_Scrub \<Rightarrow> set_scrub_rules [] anchor_change_new) transaction_new) = [(k, anchor, [])]"
    by (cases k) (simp_all add: plan_def partition_changes_def List.map_filter_simps add_change_def
      transaction_new_def set_filter_rules_def set_nat_rules_def set_redirect_rules_def
      set_scrub_rules_def anchor_change_new_def)
  have one: "io_for (zip [(anchor, [])] ts) (\<lambda>((anchor, rules), ticket). io_for rules (g anchor ticket))
      = io_return ()" for ts :: "u32 list" and g :: "rstring \<Rightarrow> u32 \<Rightarrow> any_rule \<Rightarrow> ('a, unit) io"
    by (cases ts) simp_all
  have elements: "io_bind (io_lift (plan_elements [(k, anchor, [])])) f =
      io_bind (io_lift (new_trans_element anchor k)) (\<lambda>e. f [e])"
    for f :: "pfioc_trans_e list \<Rightarrow> ('a, unit) io"
    by (rule ext) (cases "new_trans_element anchor k"; simp add: plan_elements_def io_bind_lift)
  show ?thesis
    unfolding flush_rules_def Let_def commit_eq_spec commit_spec_def plan elements
    by (simp add: ticketed_def one)
qed

end
