(* ===== verification/PfStatesSpec.thy ===== *)
theory PfStatesSpec
  imports PfStates PfCtlSpec
begin

text \<open>
  What the operations on states and interfaces promise: the sizes of the buffers handed to the
  kernel, the absence of overflow in the count of removed states, the content of a kill request,
  and the bound on the calls of the retry loop.
\<close>

section \<open>Sizes\<close>

lemma pfsync_state_size_eq: "pfsync_state_size_u32 = 297"
  by (simp add: pfsync_state_size_u32_def pfsync_state_size(1))

lemma num_states_bound: "unat (len div pfsync_state_size_u32) \<le> 2 ^ 32 div 297"
proof -
  have "unat len < 2 ^ LENGTH(32)" by (rule unsigned_less)
  then have "unat len div 297 \<le> 2 ^ 32 div 297" by (intro div_le_mono) simp
  then show ?thesis by (simp add: pfsync_state_size_eq unat_div)
qed

lemma int_in_i32: "(- (2 ^ 31) \<le> c * int m \<and> c * int m < 2 ^ 31) = (nat c * m < 2 ^ 31)" if "0 \<le> c"
proof -
  have "c * int m = int (nat c * m)" using that by simp
  moreover have "(- (2 ^ 31) \<le> int k \<and> int k < 2 ^ 31) = (k < 2 ^ 31)" for k by auto
  ultimately show ?thesis by metis
qed

lemma sint_eq_unat: "unat (w :: i32) < 2 ^ 31 \<Longrightarrow> sint w = int (unat w)"
proof -
  assume a: "unat w < 2 ^ 31"
  have u: "uint w = int (unat w)" by simp
  have "uint w < 2 ^ 31" using int_in_i32 [of 1 "unat w"] a unfolding u by simp
  moreover have "0 \<le> uint w" by simp
  then have "- (2 ^ 31) \<le> uint w" by (rule order_trans [rotated]) simp
  ultimately have "signed_take_bit 31 (uint w) = uint w" by (intro signed_take_bit_int_eq_self)
  then have "sint w = uint w" by (simp add: sint_uint)
  then show "sint w = int (unat w)" by simp
qed

lemma sint_nonneg:
  assumes "0 \<le> sint (w :: i32)"
  shows "unat w < 2 ^ 31"
proof -
  have "\<not> bit (uint w) 31" using assms by (simp add: sint_uint)
  then have "take_bit (Suc 31) (uint w) = take_bit 31 (uint w)"
    using take_bit_Suc_from_most [of 31 "uint w"] by simp
  moreover have "take_bit (Suc 31) (uint w) = uint w"
  proof -
    have "uint w < 2 ^ LENGTH(32)" by (rule unsigned_less)
    then show ?thesis by (intro take_bit_int_eq_self) simp_all
  qed
  ultimately have "uint w < 2 ^ 31" using take_bit_int_less_exp [of 31 "uint w"] by metis
  moreover have "- (2 ^ 31) \<le> uint w" by (rule order_trans [of _ 0]) simp_all
  ultimately show ?thesis using int_in_i32 [of 1 "unat w"] by simp
qed

lemma unat_ucast_byte: "unat (ucast (b :: u8) :: u32) = unat b"
proof -
  have "unat b < 2 ^ LENGTH(8)" by (rule unsigned_less)
  then show ?thesis by (simp add: unsigned_ucast_eq take_bit_nat_eq_self)
qed

lemma checked_smul_size:
  assumes "unat (n :: u32) \<le> 2 ^ 32 div 297"
  shows "checked_smul pfsync_state_size_u32 n =
    (if 297 * unat n < 2 ^ 31 then Ok (297 * n) else Panic)"
proof -
  have s: "sint n = int (unat n)" using assms by (intro sint_eq_unat) simp
  have z: "sint (297 :: i32) = 297" by simp
  have "- (2 ^ 31) \<le> sint (297 :: i32) * sint n \<and> sint (297 :: i32) * sint n < 2 ^ 31 \<longleftrightarrow>
      297 * unat n < 2 ^ 31"
    unfolding s z using int_in_i32 [of 297 "unat n"] by simp
  then show ?thesis unfolding checked_smul_def pfsync_state_size_eq by presburger
qed

text \<open>The states of a buffer size that the kernel reported.\<close>

lemma setup_pfioc_states_eq:
  assumes "unat n \<le> 2 ^ 32 div 297"
  shows "setup_pfioc_states n =
    (if 297 * unat n < 2 ^ 31 then
       Ok (pfioc_states_zeroed\<lparr>ps_len := 297 * n, ps_u := replicate (unat n) pfsync_state_zeroed\<rparr>,
           replicate (unat n) pfsync_state_zeroed)
     else Panic)"
  using checked_smul_size [OF assms] by (simp add: setup_pfioc_states_def Let_def)

lemma setup_from_len:
  assumes "0 \<le> sint len"
  shows "setup_pfioc_states (len div pfsync_state_size_u32) \<noteq> Panic"
proof -
  have "unat len < 2 ^ 31" using assms by (rule sint_nonneg)
  then have "297 * (unat len div 297) < 2 ^ 31" by (simp add: div_times_less_eq_dividend order_le_less_trans)
  then show ?thesis
    using setup_pfioc_states_eq [OF num_states_bound, of len] by (simp add: pfsync_state_size_eq unat_div)
qed

lemma get_states_inner_length:
  assumes "get_states_inner K X c w = (Ok states, w')"
  shows "length states \<le> 2 ^ 32 div 297"
  using assms num_states_bound setup_pfioc_states_eq [OF num_states_bound]
  by (auto simp: get_states_inner_def get_num_states_def Let_def io_simps split: if_splits)

section \<open>Counting removed states\<close>

lemma checked_sum_eq:
  assumes "unat acc + sum_list (map unat xs) < 2 ^ 32"
  shows "checked_sum xs acc = Ok (acc + of_nat (sum_list (map unat xs)))"
  using assms
proof (induction xs arbitrary: acc)
  case (Cons x xs)
  have u: "unat (acc + x) = unat acc + unat x"
    using Cons.prems by (intro unat_add_lem [THEN iffD1]) simp
  then show ?case
    using Cons.prems Cons.IH [of "acc + x"] by (simp add: checked_add_def add.assoc)
qed simp

lemma sum_bytes_bound: "sum_list (map (\<lambda>b. unat (ucast (b :: u8) :: u32)) bs) \<le> 255 * length bs"
proof (induction bs)
  case (Cons b bs)
  have "unat b < 2 ^ LENGTH(8)" by (rule unsigned_less)
  then have "unat (ucast b :: u32) \<le> 255" by (simp add: unat_ucast_byte)
  with Cons show ?case by simp
qed simp

lemma byte_counts_sum:
  assumes "length bs \<le> 2 ^ 32 div 297"
  shows "checked_sum (map (ucast :: u8 \<Rightarrow> u32) bs) 0 = Ok (of_nat (sum_list (map unat bs)))"
proof -
  have "sum_list (map (\<lambda>b. unat (ucast (b :: u8) :: u32)) bs) < 2 ^ 32"
    using sum_bytes_bound [of bs] assms by simp
  then show ?thesis using checked_sum_eq [of 0 "map ucast bs"] by (simp add: comp_def unat_ucast_byte)
qed

section \<open>Bounds on the number of calls\<close>

definition at_most :: "nat \<Rightarrow> ('k, 'a) io \<Rightarrow> bool" where
  "at_most n m \<longleftrightarrow> (\<forall>w r w'. m w = (r, w') \<longrightarrow> length (w_calls w') \<le> length (w_calls w) + n)"

lemma at_most_lift: "at_most n (io_lift r)"
  by (simp add: at_most_def io_lift_def)

lemma at_most_return: "at_most n (io_return x)"
  by (simp add: at_most_def io_return_def)

lemma at_most_call: "at_most 1 (guarded a (call ev f))"
  by (auto simp: at_most_def dest!: guarded_call_calls)

lemma at_most_bind:
  assumes "at_most n m" and "\<And>x. at_most k (f x)"
  shows "at_most (n + k) (io_bind m f)"
  unfolding at_most_def
proof (intro allI impI)
  fix w r w''
  assume run: "io_bind m f w = (r, w'')"
  obtain s w' where s: "m w = (s, w')" by fastforce
  then have n: "length (w_calls w') \<le> length (w_calls w) + n" using assms(1) by (simp add: at_most_def)
  show "length (w_calls w'') \<le> length (w_calls w) + (n + k)"
  proof (cases s)
    case (Ok x)
    then have "f x w' = (r, w'')" using run s by (simp add: io_bind_def)
    then have "length (w_calls w'') \<le> length (w_calls w') + k" using assms(2) by (auto simp: at_most_def)
    with n show ?thesis by simp
  qed (use run s n in \<open>auto simp: io_bind_def\<close>)
qed

lemma at_most_lift_bind: "(\<And>x. at_most k (f x)) \<Longrightarrow> at_most k (io_bind (io_lift r) f)"
  using at_most_bind [of 0 "io_lift r" k f] at_most_lift by fastforce

lemma get_interfaces_loop_bound:
  "retry < MAX_RETRIES \<Longrightarrow> at_most (MAX_RETRIES - retry) (get_interfaces_loop K X d retry buf iface)"
proof (induction K X d retry buf iface rule: get_interfaces_loop.induct)
  case (1 K X d retry buf iface)
  let ?iface = "iface\<lparr>pfiio_buffer := buf, pfiio_size := of_nat (length buf)\<rparr>"
  have rest: "at_most (MAX_RETRIES - retry - 1)
      (let buf = overwrite (pfiio_buffer i) buf; n = usize_or_default (pfiio_size i) in
       if retry + 1 < MAX_RETRIES \<and> n > length buf then
         io_bind (io_lift (pfi_kif_new_vec_zeroed X n)) (\<lambda>buf. get_interfaces_loop K X d (retry + 1) buf i)
       else io_return (take n buf))" for i
    using "1.IH" by (auto simp: Let_def intro!: at_most_lift_bind at_most_return)
  have "at_most (1 + (MAX_RETRIES - retry - 1)) (get_interfaces_loop K X d retry buf iface)"
    by (subst get_interfaces_loop.simps, unfold Let_def pf_get_ifaces_def,
        rule at_most_bind [OF at_most_call rest [unfolded Let_def]])
  moreover have "1 + (MAX_RETRIES - retry - 1) = MAX_RETRIES - retry" using "1.prems" by simp
  ultimately show ?case by metis
qed

lemmas ioctl_guard_classifies_eq = guarded_def call_def ioctl_guard_def IOCTL_ERROR_def

section \<open>Panics of the search and of the count\<close>

text \<open>What the kernel promises about strings and sizes: names are terminated, and a buffer size is
  not negative.\<close>

definition terminated_names :: "'k kernel \<Rightarrow> bool" where
  "terminated_names K \<longleftrightarrow>
     (\<forall>rq d a k. case sys_rule K rq d a k of (ret, errno, a', k') \<Rightarrow> 0 \<in> set (ir_anchor_call a'))"

definition sized_states :: "'k kernel \<Rightarrow> bool" where
  "sized_states K \<longleftrightarrow>
     (\<forall>rq d a k. case sys_states K rq d a k of (ret, errno, a', k') \<Rightarrow> 0 \<le> sint (ps_len a'))"

lemma guarded_get_rule_terminated:
  assumes "terminated_names K" "guarded a (pf_get_rule K d x) w = (Ok y, w')"
  shows "0 \<in> set (ir_anchor_call y)"
  using assms(2) assms(1) [unfolded terminated_names_def, rule_format, of "ioctl_request PfGetRule" d x "w_kernel w"]
  by (auto simp: io_simps pf_get_rule_def simp del: ioctl_request.simps)

lemma anchor_rule_loop_no_panic:
  assumes K: "terminated_names K" and f: "\<And>b. no_panic (f b)"
  shows "no_panic (anchor_rule_loop K X d name ix a f)"
proof (induction ix arbitrary: a)
  case Nil
  then show ?case by (simp add: no_panic_lift)
next
  case (Cons i ix)
  show ?case
    unfolding no_panic_def
  proof (intro allI notI)
    fix w w'
    assume "anchor_rule_loop K X d name (i # ix) a f w = (Panic, w')"
    then obtain y w1 where y: "guarded (EEXIST X) (pf_get_rule K d (a\<lparr>ir_nr := i\<rparr>)) w = (Ok y, w1)"
      and rest: "io_bind (io_lift (compare_cstr_safe name (ir_anchor_call y))) (\<lambda>found.
        if found then f y else anchor_rule_loop K X d name ix y f) w1 = (Panic, w')"
      by (auto simp: io_bind_Panic)
    have "0 \<in> set (ir_anchor_call y)" by (rule guarded_get_rule_terminated [OF K y])
    then show False
      using rest no_panicD [OF f] no_panicD [OF Cons.IH]
      by (auto simp: io_bind_Panic io_simps compare_cstr_safe_Panic_iff split: if_splits)
  qed
qed

lemma with_anchor_rule_no_panic:
  "terminated_names K \<Longrightarrow> (\<And>b. no_panic (f b)) \<Longrightarrow> no_panic (with_anchor_rule K X c name k f)"
  unfolding with_anchor_rule_def Let_def by (intro no_panic_intros anchor_rule_loop_no_panic)

lemma get_states_inner_no_panic:
  assumes K: "sized_states K"
  shows "no_panic (get_states_inner K X c)"
  unfolding no_panic_def
proof (intro allI notI)
  fix w w'
  assume run: "get_states_inner K X c w = (Panic, w')"
  have counts: "no_panic (get_num_states K X c)"
    unfolding get_num_states_def Let_def by (intro no_panic_intros)
  have filled: "no_panic (guarded (EEXIST X) (pf_get_states K (ctl_file c) p))" for p
    by (rule no_panic_guarded)
  from run obtain n w1 where n: "get_num_states K X c w = (Ok n, w1)"
    and p: "setup_pfioc_states n = Panic"
    using no_panicD [OF counts]
    by (auto simp: get_states_inner_def io_bind_Panic io_simps split: if_splits prod.splits)
  from n obtain len where "n = len div pfsync_state_size_u32" "0 \<le> sint len"
    using K [unfolded sized_states_def, rule_format,
      of "ioctl_request PfGetStates" "ctl_file c" pfioc_states_zeroed "w_kernel w"]
    by (auto simp: get_num_states_def Let_def io_simps pf_get_states_def simp del: ioctl_request.simps)
  with p show False using setup_from_len by simp
qed

lemma io_collect_length: "io_collect xs f w = (Ok ys, w') \<Longrightarrow> length ys = length xs"
  by (induction xs arbitrary: w ys) (auto simp: io_simps)

lemma kill_matching_count:
  "kill_matching K X c s w = (Ok n, w') \<Longrightarrow> n \<in> range (ucast :: u8 \<Rightarrow> u32)"
  by (auto simp: kill_matching_def io_simps)

lemma kill_all_counts:
  "io_collect xs (kill_matching K X c) w = (Ok ns, w') \<Longrightarrow>
     \<exists>bs. ns = map (ucast :: u8 \<Rightarrow> u32) bs \<and> length bs = length xs"
proof (induction xs arbitrary: w ns)
  case Nil
  then show ?case by (simp add: io_simps)
next
  case (Cons s xs)
  then obtain n w1 ms where n: "kill_matching K X c s w = (Ok n, w1)"
    and ms: "io_collect xs (kill_matching K X c) w1 = (Ok ms, w')" and ns: "ns = n # ms"
    by (auto simp: io_simps)
  obtain b where "n = ucast (b :: u8)" using kill_matching_count [OF n] by blast
  moreover obtain bs where "ms = map ucast bs" "length (bs :: u8 list) = length xs"
    using Cons.IH [OF ms] by blast
  ultimately show ?case using ns by (intro exI [of _ "b # bs"]) simp
qed

lemma kill_and_count_no_panic:
  assumes "length xs \<le> 2 ^ 32 div 297"
  shows "no_panic (io_bind (io_collect xs (kill_matching K X c)) (\<lambda>counts. io_lift (checked_sum counts 0)))"
  unfolding no_panic_def
proof (intro allI notI)
  fix w w'
  assume run: "io_bind (io_collect xs (kill_matching K X c)) (\<lambda>counts. io_lift (checked_sum counts 0)) w
    = (Panic, w')"
  have kills: "no_panic (io_collect xs (kill_matching K X c))"
    unfolding kill_matching_def by (intro no_panic_intros)
  from run obtain ns w1 where ns: "io_collect xs (kill_matching K X c) w = (Ok ns, w1)"
    and p: "checked_sum ns 0 = Panic"
    using no_panicD [OF kills] by (auto simp: io_bind_Panic io_simps)
  obtain bs where "ns = map (ucast :: u8 \<Rightarrow> u32) bs" "length bs = length xs"
    using kill_all_counts [OF ns] by blast
  then have "checked_sum ns 0 \<noteq> Panic" using byte_counts_sum [of bs] assms by simp
  with p show False by blast
qed

section \<open>Properties\<close>

text \<open>What the second request of a listing is made of.\<close>

lemma setup_pfioc_states_cases:
  fixes len :: u32
  defines "n \<equiv> unat len div 297"
  shows "if 297 * n < 2 ^ 31
    then \<exists>q. setup_pfioc_states (len div pfsync_state_size_u32) = Ok (q, replicate n pfsync_state_zeroed) \<and>
      ps_u q = replicate n pfsync_state_zeroed \<and> unat (ps_len q) = 297 * n
    else setup_pfioc_states (len div pfsync_state_size_u32) = Panic \<and> sint len < 0"
proof -
  let ?n = "len div pfsync_state_size_u32"
  have b: "unat ?n \<le> 2 ^ 32 div 297" by (rule num_states_bound)
  have u: "unat ?n = n" by (simp add: n_def pfsync_state_size_eq unat_div)
  have neg: "sint len < 0" if "\<not> 297 * n < 2 ^ 31"
    using that setup_from_len [of len] setup_pfioc_states_eq [OF b] u by (metis not_le)
  have m: "unat (297 * ?n) = 297 * n" if "297 * n < 2 ^ 31"
    using that unat_mult_lem [of 297 ?n] u by simp
  show ?thesis using setup_pfioc_states_eq [OF b] neg m u by simp
qed


text \<open>A kernel with one anchor rule and two states.\<close>

definition two_states :: "u32 kernel" where
  "two_states = granting
     \<lparr>sys_rule := (\<lambda>rq d a k. (0, 0, a\<lparr>ir_nr := 1, ir_anchor_call := nul_terminated [97] (zeros 1024)\<rparr>, k)),
      sys_states := (\<lambda>rq d a k. (0, 0, a\<lparr>ps_len := 594\<rparr>, k))\<rparr>"

text \<open>
  C32. Clearing the states of an anchor never panics if the kernel terminates the names it reports
  and reports no negative buffer size: in particular the number of removed states, a sum of
  byte-sized counts over all matching states, cannot overflow.
\<close>

theorem clear_states_no_overflow:
  assumes "terminated_names K" and "sized_states K"
  shows "no_panic (clear_states K X c name k)"
  unfolding no_panic_def
proof (intro allI notI)
  fix w w'
  assume run: "clear_states K X c name k w = (Panic, w')"
  then obtain states w1 where s: "get_states_inner K X c w = (Ok states, w1)"
    and p: "with_anchor_rule K X c name k (\<lambda>anchor_rule.
        io_bind (io_collect (filter (\<lambda>s. s_anchor s = ir_nr anchor_rule) states) (kill_matching K X c)) (\<lambda>counts.
        io_lift (checked_sum counts 0))) w1 = (Panic, w')"
    using no_panicD [OF get_states_inner_no_panic [OF assms(2)]]
    by (auto simp: clear_states_def io_bind_Panic io_simps split: if_splits)
  have len: "length (filter P states) \<le> 2 ^ 32 div 297" for P
    using get_states_inner_length [OF s] length_filter_le [of P states] by linarith
  have "no_panic (with_anchor_rule K X c name k (\<lambda>anchor_rule.
      io_bind (io_collect (filter (\<lambda>s. s_anchor s = ir_nr anchor_rule) states) (kill_matching K X c)) (\<lambda>counts.
      io_lift (checked_sum counts 0))))"
    by (intro with_anchor_rule_no_panic assms(1) kill_and_count_no_panic len)
  with p show False using no_panicD by blast
qed

lemma clear_states_no_overflow_witness:
  "no_panic (clear_states two_states macos \<lparr>ctl_file = 3\<rparr> [97] AnchorKind_Filter)"
  by (rule clear_states_no_overflow)
    (simp_all add: terminated_names_def sized_states_def two_states_def nul_terminated_def)

text \<open>
  C40. Killing a state is one request, and what the request holds is what the accessors of the state
  tell: its address family, protocol and variant, its interface, its local address as the source
  and its remote address as the destination. It asks for any port, its address masks are zero,
  and all else in it is zero as well. The kernel's answer decides the result.
\<close>

theorem kill_request_content:
  "\<exists>q. w_calls (snd (kill_state K X c s w)) = w_calls w @ [CallStateKill PfKillStates q] \<and>
     (case sys_state_kill K (ioctl_request PfKillStates) (ctl_file c) q (w_kernel w) of (ret, errno, _, k) \<Rightarrow>
        fst (kill_state K X c s w) = ioctl_guard (EEXIST X) ret errno \<and>
        w_kernel (snd (kill_state K X c s w)) = k) \<and>
     proto_try_from X (psk_proto q) = state_proto X s \<and>
     parse_address (psk_af q) ((s_lan (as_raw s))\<lparr>h_addr := am_addr (aw_v (sak_addr (psk_src q)))\<rparr>) =
       local_address s \<and>
     parse_address (psk_af q) ((s_ext_lan (as_raw s))\<lparr>h_addr := am_addr (aw_v (sak_addr (psk_dst q)))\<rparr>) =
       remote_address s \<and>
     q = \<lparr>psk_af = s_af_lan (as_raw s), psk_proto = s_proto (as_raw s),
       psk_proto_variant = s_proto_variant (as_raw s), pad = 0,
       psk_src = \<lparr>sak_addr = \<lparr>aw_v = \<lparr>am_addr = h_addr (s_lan (as_raw s)), am_mask = pf_addr_zeroed\<rparr>,
         aw_p = 0, aw_type = 0, aw_iflags = 0\<rparr>, sak_reserved = zeros 3, sak_neg = 0,
         sak_xport = \<lparr>pr_port = zeros 2, pr_op = 0\<rparr>\<rparr>,
       psk_dst = \<lparr>sak_addr = \<lparr>aw_v = \<lparr>am_addr = h_addr (s_ext_lan (as_raw s)), am_mask = pf_addr_zeroed\<rparr>,
         aw_p = 0, aw_type = 0, aw_iflags = 0\<rparr>, sak_reserved = zeros 3, sak_neg = 0,
         sak_xport = \<lparr>pr_port = zeros 2, pr_op = 0\<rparr>\<rparr>,
       psk_ifname = s_ifname (as_raw s), psk_ownername = zeros 64\<rparr>"
proof -
  let ?q = "setup_pfioc_state_kill (as_raw s) pfioc_state_kill_zeroed"
  have run: "kill_state K X c s w =
      (case sys_state_kill K (ioctl_request PfKillStates) (ctl_file c) ?q (w_kernel w) of (ret, errno, _, k) \<Rightarrow>
        (ioctl_guard (EEXIST X) ret errno, w\<lparr>w_kernel := k, w_calls := w_calls w @ [CallStateKill PfKillStates ?q]\<rparr>))"
    by (auto simp: kill_state_def io_bind_def io_return_def guarded_def call_def pf_kill_states_def
        ioctl_guard_def simp del: ioctl_request.simps split: prod.split)
  note fields = setup_pfioc_state_kill_def Let_def pfioc_state_kill_zeroed_def
    pfioc_state_addr_kill_zeroed_def pf_addr_wrap_zeroed_def pf_addr_mask_zeroed_def pf_port_range_zeroed_def
  show ?thesis
  proof (intro exI [of _ ?q] conjI)
    show "w_calls (snd (kill_state K X c s w)) = w_calls w @ [CallStateKill PfKillStates ?q]"
      by (simp add: run del: ioctl_request.simps split: prod.split)
    show "case sys_state_kill K (ioctl_request PfKillStates) (ctl_file c) ?q (w_kernel w) of (ret, errno, _, k) \<Rightarrow>
        fst (kill_state K X c s w) = ioctl_guard (EEXIST X) ret errno \<and>
        w_kernel (snd (kill_state K X c s w)) = k"
      by (simp add: run del: ioctl_request.simps split: prod.split)
  qed (simp_all add: fields state_proto_def local_address_def remote_address_def as_raw_def)
qed

text \<open>
  Clearing the states of an interface is one request that names the interface and nothing else;
  the number it returns is the byte that the kernel left in the address family field, so it never
  exceeds 255 however many states were removed.
\<close>

lemma clear_interface_states_count:
  "case clear_interface_states K X c i w of
     (Ok n, w') \<Rightarrow> unat n < 256 \<and> (\<exists>name. interface_copy_to i (zeros 16) = Ok name \<and>
       w_calls w' = w_calls w @ [CallStateKill PfClearStates (pfioc_state_kill_zeroed\<lparr>psk_ifname := name\<rparr>)])
   | (Err e, w') \<Rightarrow> interface_ok i \<or> w_calls w' = w_calls w \<and> kind e = Kind_InvalidInterfaceName
   | (Panic, w') \<Rightarrow> False"
proof -
  have zero: "psk_ifname pfioc_state_kill_zeroed = zeros 16" by (simp add: pfioc_state_kill_zeroed_def)
  have byte: "unat (ucast b :: u32) < 256" for b :: u8
  proof -
    have "unat b < 2 ^ LENGTH(8)" by (rule unsigned_less)
    then show ?thesis by (simp add: unat_ucast_byte)
  qed
  show ?thesis
  proof (cases "interface_copy_to i (zeros 16)")
    case (Ok name)
    then have "interface_ok i" using interface_copy_ok [of "zeros 16" i] by auto
    then show ?thesis
      using Ok byte by (auto simp: clear_interface_states_def Let_def zero ioctl_guard_classifies_eq
          pf_clear_states_def io_bind_def io_return_def split: prod.split)
  next
    case (Err e)
    then show ?thesis
      by (cases i) (auto simp: clear_interface_states_def zero io_bind_lift outcome_simps)
  next
    case Panic
    then show ?thesis by simp
  qed
qed

text \<open>
  C39. Listing the interfaces asks the kernel at most twice, for any answers it gives, so that the
  retry loop ends even if the number of interfaces keeps growing.
\<close>

theorem get_interfaces_calls: "at_most 2 (get_interfaces K X c i)"
proof -
  have loop: "at_most 2 (get_interfaces_loop K X d 0 buf iface)" for d buf iface
    using get_interfaces_loop_bound [of 0 K X d buf iface] by (simp add: MAX_RETRIES_def)
  have "at_most 2 (io_bind (get_interfaces_loop K X d 0 buf iface) (\<lambda>buf. io_lift (g buf)))"
    for d buf iface and g :: "pfi_kif list \<Rightarrow> interface_description list result"
    using at_most_bind [OF loop at_most_lift [of 0]] by fastforce
  then show ?thesis
    unfolding get_interfaces_def Let_def by (intro at_most_lift_bind)
qed

text \<open>
  C38. Enabling and disabling, telling whether the firewall is enabled, adding an anchor, appending a
  rule of any kind, setting and flushing rules never panic, whatever the names, the rules and the
  answers of the kernel are, and neither do the variants that ignore an error. Removing an anchor
  does not panic either on a kernel that terminates the names it reports.
\<close>

theorem operations_never_panic:
  assumes "documented_ipnetwork X"
  shows "no_panic (enable K X c) \<and> no_panic (try_enable K X c) \<and>
    no_panic (disable K X c) \<and> no_panic (try_disable K X c) \<and> no_panic (is_enabled K X c) \<and>
    no_panic (add_anchor K X c name k) \<and> no_panic (try_add_anchor K X c name k) \<and>
    (terminated_names K \<longrightarrow>
       no_panic (remove_anchor K X c name k) \<and> no_panic (try_remove_anchor K X c name k)) \<and>
    no_panic (append_any K X c name r) \<and>
    no_panic (set_rules K X name change) \<and> no_panic (flush_rules K X name rk)"
  unfolding try_enable_def enable_def try_disable_def disable_def is_enabled_def try_add_anchor_def
    add_anchor_def try_remove_anchor_def remove_anchor_def set_rules_def flush_rules_def Let_def
  by (intro conjI impI no_panic_intros copy_anchor_name_no_panic append_any_never_panics
      commit_never_panics with_anchor_rule_no_panic assms)

lemma operations_never_panic_witness:
  "no_panic (set_rules two_states macos [0] (set_nat_rules [sample_nat_rule] anchor_change_new)) \<and>
   no_panic (try_remove_anchor two_states macos \<lparr>ctl_file = 3\<rparr> [97] AnchorKind_Filter)"
proof -
  have "terminated_names two_states" by (simp add: terminated_names_def two_states_def nul_terminated_def)
  then show ?thesis using operations_never_panic [OF macos_ipnetwork] by blast
qed

end
