(* ===== verification/Listings.thy ===== *)
theory Listings
  imports PfStatesSpec
begin

text \<open>
  The listings of \<open>PfCtl\<close> (\<open>lib.rs\<close>) are complete. A kernel serves its states if a request with an
  empty buffer tells the size of the buffer that is needed and a request with a buffer fills it;
  it serves its interfaces if a request fills the buffer as far as it goes and tells how many
  interfaces there are. On such kernels \<open>get_states\<close> returns every state, \<open>get_interfaces\<close> every
  interface with at most one retry, and \<open>clear_states\<close> asks to kill the states of the anchor. When
  states go away between its two calls, \<open>get_states\<close> returns zeroed ones in their place.
\<close>

section \<open>Interfaces\<close>

definition serves_interfaces :: "'k kernel \<Rightarrow> (i8 list \<Rightarrow> 'k \<Rightarrow> pfi_kif list) \<Rightarrow> bool" where
  "serves_interfaces K I \<longleftrightarrow>
     (\<forall>d a k. \<exists>ret errno a'. ret \<noteq> - 1 \<and> sys_iface K (ioctl_request PfGetIfaces) d a k = (ret, errno, a', k) \<and>
        pfiio_name a' = pfiio_name a \<and>
        pfiio_buffer a' = take (usize_or_default (pfiio_size a)) (I (pfiio_name a) k) \<and>
        sint (pfiio_size a') = int (length (I (pfiio_name a) k)))"

lemma usize_of_nat: "n < 2 ^ 31 \<Longrightarrow> usize_or_default (of_nat n) = n"
proof -
  assume n: "n < 2 ^ 31"
  then have "unat (of_nat n :: i32) = n" by (simp add: unat_of_nat)
  then show ?thesis using sint_eq_unat [of "of_nat n"] n by (simp add: usize_or_default_def)
qed

lemma get_ifaces_step:
  assumes K: "serves_interfaces K I" and b: "length buf < 2 ^ 31"
  shows "\<exists>a w'. guarded (EEXIST X)
      (pf_get_ifaces K d (iface\<lparr>pfiio_buffer := buf, pfiio_size := of_nat (length buf)\<rparr>)) w = (Ok a, w') \<and>
    w_kernel w' = w_kernel w \<and> length (w_calls w') = Suc (length (w_calls w)) \<and>
    pfiio_name a = pfiio_name iface \<and>
    pfiio_buffer a = take (length buf) (I (pfiio_name iface) (w_kernel w)) \<and>
    usize_or_default (pfiio_size a) = length (I (pfiio_name iface) (w_kernel w))"
proof -
  let ?a = "iface\<lparr>pfiio_buffer := buf, pfiio_size := of_nat (length buf)\<rparr>"
  obtain ret errno a where g: "ret \<noteq> - 1"
    "sys_iface K (ioctl_request PfGetIfaces) d ?a (w_kernel w) = (ret, errno, a, w_kernel w)"
    "pfiio_name a = pfiio_name ?a"
    "pfiio_buffer a = take (usize_or_default (pfiio_size ?a)) (I (pfiio_name ?a) (w_kernel w))"
    "sint (pfiio_size a) = int (length (I (pfiio_name ?a) (w_kernel w)))"
    using K unfolding serves_interfaces_def by blast
  then show ?thesis
    by (simp add: pf_get_ifaces_def guarded_def call_def ioctl_guard_def IOCTL_ERROR_def usize_of_nat [OF b]
        usize_or_default_def [of "pfiio_size a"] del: ioctl_request.simps)
qed

text \<open>A buffer that is large enough is filled at once.\<close>

lemma interfaces_loop_fits:
  assumes K: "serves_interfaces K I" and b: "length buf < 2 ^ 31"
    and fits: "length (I (pfiio_name iface) (w_kernel w)) \<le> length buf"
  shows "\<exists>w'. get_interfaces_loop K X d retry buf iface w = (Ok (I (pfiio_name iface) (w_kernel w)), w') \<and>
    w_kernel w' = w_kernel w \<and> length (w_calls w') = Suc (length (w_calls w))"
proof -
  obtain a w1 where
    "guarded (EEXIST X) (pf_get_ifaces K d (iface\<lparr>pfiio_buffer := buf, pfiio_size := of_nat (length buf)\<rparr>)) w = (Ok a, w1)"
    "w_kernel w1 = w_kernel w" "length (w_calls w1) = Suc (length (w_calls w))"
    "pfiio_buffer a = take (length buf) (I (pfiio_name iface) (w_kernel w))"
    "usize_or_default (pfiio_size a) = length (I (pfiio_name iface) (w_kernel w))"
    using get_ifaces_step [OF K b] by metis
  then show ?thesis
    using fits by (subst get_interfaces_loop.simps) (simp add: io_bind_def io_return_def overwrite_fits)
qed

text \<open>A buffer that is too small is exchanged for one of the size that the kernel asks for.\<close>

lemma interfaces_loop_retries:
  assumes K: "serves_interfaces K I" and b: "length buf < 2 ^ 31"
    and small: "length buf < length (I (pfiio_name iface) (w_kernel w))"
    and alloc: "vec_zeroed_fits X (length (I (pfiio_name iface) (w_kernel w)))"
  shows "\<exists>w'. get_interfaces_loop K X d 0 buf iface w = (Ok (I (pfiio_name iface) (w_kernel w)), w') \<and>
    w_kernel w' = w_kernel w \<and> length (w_calls w') = Suc (Suc (length (w_calls w)))"
proof -
  let ?n = "length (I (pfiio_name iface) (w_kernel w))"
  obtain a w1 where a:
    "guarded (EEXIST X) (pf_get_ifaces K d (iface\<lparr>pfiio_buffer := buf, pfiio_size := of_nat (length buf)\<rparr>)) w = (Ok a, w1)"
    "w_kernel w1 = w_kernel w" "length (w_calls w1) = Suc (length (w_calls w))"
    "pfiio_name a = pfiio_name iface" "usize_or_default (pfiio_size a) = ?n"
    using get_ifaces_step [OF K b] by metis
  have "?n < 2 ^ 31"
  proof -
    obtain a' :: pfioc_iface where "sint (pfiio_size a') = int ?n"
      using K unfolding serves_interfaces_def by metis
    then show ?thesis using sint_lt [of "pfiio_size a'"] by simp
  qed
  then obtain w2 where w2:
    "get_interfaces_loop K X d 1 (replicate ?n pfi_kif_zeroed) a w1 = (Ok (I (pfiio_name iface) (w_kernel w)), w2)"
    "w_kernel w2 = w_kernel w" "length (w_calls w2) = Suc (length (w_calls w1))"
    using interfaces_loop_fits [OF K, of "replicate ?n pfi_kif_zeroed" a w1 X d 1] a(2,4) by auto
  have "get_interfaces_loop K X d 0 buf iface w = get_interfaces_loop K X d 1 (replicate ?n pfi_kif_zeroed) a w1"
    using a(1,5) small alloc
    by (subst get_interfaces_loop.simps) (simp add: io_bind_def MAX_RETRIES_def pfi_kif_new_vec_zeroed_def io_return_def)
  then show ?thesis using w2 a(3) by auto
qed

lemma get_interfaces_lists:
  assumes K: "serves_interfaces K I" and name: "interface_copy_to i (zeros 16) = Ok name"
    and alloc: "vec_zeroed_fits X 30" "vec_zeroed_fits X (length (I name (w_kernel w)))"
  shows "\<exists>w'. get_interfaces K X c i w = (collect_results (map interface_description_try_from (I name (w_kernel w))), w') \<and>
    w_kernel w' = w_kernel w \<and>
    length (w_calls w') = length (w_calls w) + (if length (I name (w_kernel w)) \<le> 30 then 1 else 2)"
proof -
  let ?iface = "pfioc_iface_zeroed\<lparr>pfiio_name := name, pfiio_esize := of_nat (size_of pfi_kif_layout)\<rparr>"
  let ?buf = "replicate 30 pfi_kif_zeroed"
  obtain w' where w': "get_interfaces_loop K X (ctl_file c) 0 ?buf ?iface w = (Ok (I name (w_kernel w)), w')"
    "w_kernel w' = w_kernel w"
    "length (w_calls w') = length (w_calls w) + (if length (I name (w_kernel w)) \<le> 30 then 1 else 2)"
    using interfaces_loop_fits [OF K, of ?buf ?iface w X "ctl_file c" 0]
      interfaces_loop_retries [OF K, of ?buf ?iface w X "ctl_file c"] alloc(2)
    by (cases "length (I name (w_kernel w)) \<le> 30") auto
  have "pfiio_name pfioc_iface_zeroed = zeros 16" by (simp add: pfioc_iface_zeroed_def)
  then have "get_interfaces K X c i w =
      io_bind (get_interfaces_loop K X (ctl_file c) 0 ?buf ?iface) (\<lambda>buf.
        io_lift (collect_results (map interface_description_try_from buf))) w"
    using name alloc(1) by (simp add: get_interfaces_def INITIAL_CAPACITY_def pfi_kif_new_vec_zeroed_def)
  then show ?thesis using w' by (simp add: io_bind_def io_lift_def)
qed

section \<open>States\<close>

definition serves_states :: "'k kernel \<Rightarrow> ('k \<Rightarrow> pfsync_state list) \<Rightarrow> bool" where
  "serves_states K S \<longleftrightarrow>
     (\<forall>k. size_of pfsync_state_layout * length (S k) < 2 ^ 31) \<and>
     (\<forall>d a k. \<exists>ret errno a'. ret \<noteq> - 1 \<and> sys_states K (ioctl_request PfGetStates) d a k = (ret, errno, a', k) \<and>
        (if ps_len a = 0 then ps_len a' = of_nat (size_of pfsync_state_layout * length (S k))
         else ps_u a' = take (unat (ps_len a) div size_of pfsync_state_layout) (S k)))"

lemma get_states_step:
  assumes K: "serves_states K S"
  shows "\<exists>a' w'. guarded (EEXIST X) (pf_get_states K d a) w = (Ok a', w') \<and> w_kernel w' = w_kernel w \<and>
    (\<exists>b. w_calls w' = w_calls w @ [CallStates PfGetStates b]) \<and>
    (if ps_len a = 0 then ps_len a' = of_nat (297 * length (S (w_kernel w)))
     else ps_u a' = take (unat (ps_len a) div 297) (S (w_kernel w)))"
proof -
  obtain ret errno a' where g: "ret \<noteq> - 1"
    "sys_states K (ioctl_request PfGetStates) d a (w_kernel w) = (ret, errno, a', w_kernel w)"
    "if ps_len a = 0 then ps_len a' = of_nat (297 * length (S (w_kernel w)))
     else ps_u a' = take (unat (ps_len a) div 297) (S (w_kernel w))"
    using K unfolding serves_states_def pfsync_state_size by blast
  then show ?thesis
    by (simp add: pf_get_states_def guarded_def call_def ioctl_guard_def IOCTL_ERROR_def del: ioctl_request.simps)
qed

lemma get_states_inner_lists:
  assumes K: "serves_states K S"
  shows "\<exists>w' bs. get_states_inner K X c w = (Ok (S (w_kernel w)), w') \<and> w_kernel w' = w_kernel w \<and>
    w_calls w' = w_calls w @ map (CallStates PfGetStates) bs"
proof -
  let ?S = "S (w_kernel w)"
  let ?n = "of_nat (length ?S) :: u32"
  have bound: "297 * length ?S < 2 ^ 31" using K unfolding serves_states_def pfsync_state_size by blast
  have small: "unat (of_nat m :: u32) = m" if "m < 2 ^ 31" for m
    using that by (simp add: unat_of_nat)
  have u: "unat ?n = length ?S" "unat (of_nat (297 * length ?S) :: u32) = 297 * length ?S"
    using bound by (intro small; linarith)+
  obtain a1 w1 b1 where one: "guarded (EEXIST X) (pf_get_states K (ctl_file c) pfioc_states_zeroed) w = (Ok a1, w1)"
    "w_kernel w1 = w_kernel w" "w_calls w1 = w_calls w @ [CallStates PfGetStates b1]"
    "ps_len a1 = of_nat (297 * length ?S)"
    using get_states_step [OF K, where X = X and d = "ctl_file c" and a = pfioc_states_zeroed and w = w]
    by (auto simp: pfioc_states_zeroed_def)
  have "ps_len a1 div pfsync_state_size_u32 = ?n"
    using one(4) u by (simp add: word_unat_eq_iff unat_div pfsync_state_size_eq del: of_nat_mult)
  then have count: "get_num_states K X c w = (Ok ?n, w1)"
    using one(1) by (simp add: get_num_states_def io_bind_def io_return_def)
  show ?thesis
  proof (cases "?S = []")
    case True
    then show ?thesis
      using count one(2,3) by (auto simp: get_states_inner_def io_bind_def io_return_def intro!: exI [of _ "[b1]"])
  next
    case False
    then have pos: "0 < ?n" using u(1) by (simp add: word_gt_0 unat_gt_0 flip: unat_eq_zero)
    let ?a = "pfioc_states_zeroed\<lparr>ps_len := 297 * ?n, ps_u := replicate (length ?S) pfsync_state_zeroed\<rparr>"
    have prepared: "setup_pfioc_states ?n = Ok (?a, replicate (length ?S) pfsync_state_zeroed)"
      using setup_pfioc_states_eq [of ?n] bound u(1) by simp
    have size: "unat (297 * ?n) = 297 * length ?S" using u(2) by simp
    then have "297 * ?n \<noteq> 0" using False by (metis length_0_conv mult_eq_0_iff unat_0 zero_neq_numeral)
    then obtain a2 w2 b2 where two: "guarded (EEXIST X) (pf_get_states K (ctl_file c) ?a) w1 = (Ok a2, w2)"
      "w_kernel w2 = w_kernel w" "w_calls w2 = w_calls w1 @ [CallStates PfGetStates b2]" "ps_u a2 = ?S"
      using get_states_step [OF K, where X = X and d = "ctl_file c" and a = ?a and w = w1] one(2) size by auto
    then show ?thesis
      using count pos prepared one(3)
      by (auto simp: get_states_inner_def io_bind_def io_return_def io_lift_def overwrite_same_length
          intro!: exI [of _ "[b1, b2]"])
  qed
qed

section \<open>Killing the states of an anchor\<close>

text \<open>The search for an anchor and what is done with it are one after the other.\<close>

lemma anchor_rule_loop_bind:
  "anchor_rule_loop K X d name ix a f = io_bind (anchor_rule_loop K X d name ix a io_return) f"
proof (induction ix arbitrary: a)
  case Nil
  then show ?case by (simp add: fun_eq_iff io_bind_def io_lift_def)
next
  case (Cons i ix)
  show ?case by (simp add: io_bind_assoc Cons.IH [symmetric] if_distrib [where f = "\<lambda>m. io_bind m f"] cong: if_cong)
qed

lemma with_anchor_rule_bind:
  "with_anchor_rule K X c name k f = io_bind (with_anchor_rule K X c name k io_return) f"
  unfolding with_anchor_rule_def Let_def
  by (subst anchor_rule_loop_bind) (simp add: io_bind_assoc)

lemma io_bind_step: "m w = (Ok x, w') \<Longrightarrow> io_bind m f w = f x w'"
  by (simp add: io_bind_def)

definition is_listing :: "event \<Rightarrow> bool" where
  "is_listing ev \<longleftrightarrow> (case ev of
     CallStates cmd a \<Rightarrow> cmd = PfGetStates | CallRule cmd a \<Rightarrow> cmd = PfGetRules \<or> cmd = PfGetRule | _ \<Rightarrow> False)"

lemma emits_search: "emits is_listing (with_anchor_rule K X c name k io_return)"
proof -
  have loop: "emits is_listing (anchor_rule_loop K X d name ix a io_return)" for d ix a
    by (induction ix arbitrary: a) (auto simp: pf_get_rule_def is_listing_def intro!: emits_intros)
  show ?thesis
    unfolding with_anchor_rule_def Let_def pf_get_rules_def
    by (intro emits_intros loop) (simp_all add: is_listing_def)
qed

lemma search_finds:
  assumes "lists_rules K rules"
    and "find_anchor name (rules (anchor_kind_to_u8 k) (w_kernel w)) = Some (i, cs, r)"
  obtains b w' evs where "with_anchor_rule K X c name k io_return w = (Ok b, w')" "ir_nr b = of_nat i"
    "w_kernel w' = w_kernel w" "w_calls w' = w_calls w @ evs" "list_all is_listing evs"
proof -
  obtain b w' where b: "with_anchor_rule K X c name k io_return w = (Ok b, w')" "w_kernel w' = w_kernel w"
    "ir_nr b = of_nat i"
    using with_anchor_rule_finds [OF assms(1), where f = io_return and name = name and k = k and w = w and X = X and c = c]
      assms(2) by (auto simp: io_return_def)
  then show ?thesis using emitsD [OF emits_search b(1)] that by blast
qed

abbreviation kill_request :: "pfsync_state \<Rightarrow> event" where
  "kill_request s \<equiv> CallStateKill PfKillStates (setup_pfioc_state_kill s pfioc_state_kill_zeroed)"

lemma kill_matching_calls:
  "kill_matching K X c s w = (q, w') \<Longrightarrow> w_calls w' = w_calls w @ [kill_request s]"
  by (cases q) (auto simp: kill_matching_def pf_kill_states_def io_simps)

lemma kill_all_calls:
  "io_collect ss (kill_matching K X c) w = (q, w') \<Longrightarrow>
   \<exists>n \<le> length ss. w_calls w' = w_calls w @ map kill_request (take n ss) \<and> (is_ok q \<longrightarrow> n = length ss)"
proof (induction ss arbitrary: w q w')
  case Nil
  then show ?case by (simp add: io_return_def)
next
  case (Cons s ss)
  obtain p w1 where one: "kill_matching K X c s w = (p, w1)" by fastforce
  note c = kill_matching_calls [OF one]
  show ?case
  proof (cases p)
    case (Ok y)
    obtain q2 w2 where rest: "io_collect ss (kill_matching K X c) w1 = (q2, w2)" by fastforce
    obtain n where n: "n \<le> length ss" "w_calls w2 = w_calls w1 @ map kill_request (take n ss)" "is_ok q2 \<longrightarrow> n = length ss"
      using Cons.IH [OF rest] by blast
    have "w' = w2" "is_ok q \<longrightarrow> is_ok q2"
      using Cons.prems one Ok rest by (auto simp: io_bind_def io_return_def split: outcome.splits)
    then show ?thesis using n c by (intro exI [of _ "Suc n"]) auto
  qed (use Cons.prems one c in \<open>auto simp: io_bind_def intro!: exI [of _ "Suc 0"]\<close>)
qed

lemma clear_states_kills:
  assumes S: "serves_states K S" and R: "lists_rules K rules"
    and found: "find_anchor name (rules (anchor_kind_to_u8 k) (w_kernel w)) = Some (i, cs, r)"
    and run: "clear_states K X c name k w = (q, w')"
  shows "\<exists>evs n. w_calls w' = w_calls w @ evs @
      map kill_request (take n (filter (\<lambda>s. s_anchor s = of_nat i) (S (w_kernel w)))) \<and>
    list_all is_listing evs \<and>
    (is_ok q \<longrightarrow> n = length (filter (\<lambda>s. s_anchor s = of_nat i) (S (w_kernel w))))"
proof -
  let ?S = "S (w_kernel w)"
  obtain w1 bs where one: "get_states_inner K X c w = (Ok ?S, w1)" "w_kernel w1 = w_kernel w"
    "w_calls w1 = w_calls w @ map (CallStates PfGetStates) bs"
    using get_states_inner_lists [OF S] by metis
  have bs: "list_all is_listing (map (CallStates PfGetStates) bs)"
    by (simp add: list_all_iff is_listing_def)
  show ?thesis
  proof (cases "?S = []")
    case True
    then have "w' = w1" using run one(1) by (simp add: clear_states_def io_bind_def io_return_def)
    then show ?thesis using True one(3) bs by auto
  next
    case False
    obtain b w2 evs where two: "with_anchor_rule K X c name k io_return w1 = (Ok b, w2)" "ir_nr b = of_nat i"
      "w_calls w2 = w_calls w1 @ evs" "list_all is_listing evs"
      using search_finds [OF R found [folded one(2)]] by metis
    let ?ss = "filter (\<lambda>s. s_anchor s = of_nat i) ?S"
    obtain p w3 where three: "io_collect ?ss (kill_matching K X c) w2 = (p, w3)" by fastforce
    let ?kill = "\<lambda>b. io_bind (io_collect (filter (\<lambda>s. s_anchor s = ir_nr b) ?S) (kill_matching K X c))
      (\<lambda>counts. io_lift (checked_sum counts 0))"
    have "clear_states K X c name k w = with_anchor_rule K X c name k ?kill w1"
      using False by (simp add: clear_states_def io_bind_step [where m = "get_states_inner K X c", OF one(1)])
    also have "\<dots> = io_bind (with_anchor_rule K X c name k io_return) ?kill w1"
      by (rule fun_cong [OF with_anchor_rule_bind])
    also have "\<dots> = ?kill b w2" by (rule io_bind_step [where m = "with_anchor_rule K X c name k io_return", OF two(1)])
    finally have "(q, w') = ?kill b w2" using run by simp
    then have "w' = w3" "is_ok q \<longrightarrow> is_ok p"
      using two(2) three by (auto simp: io_bind_def io_lift_def split: outcome.splits)
    moreover obtain n where "w_calls w3 = w_calls w2 @ map kill_request (take n ?ss)" "is_ok p \<longrightarrow> n = length ?ss"
      using kill_all_calls [OF three] by blast
    ultimately show ?thesis
      using one(3) two(3,4) bs
      by (intro exI [of _ "map (CallStates PfGetStates) bs @ evs"] exI [of _ n]) auto
  qed
qed

section \<open>Properties\<close>

text \<open>A kernel with forty interfaces, one anchor, and two states of which one is the anchor's.\<close>

definition two_anchored :: "pfsync_state list" where
  "two_anchored = [pfsync_state_zeroed, pfsync_state_zeroed\<lparr>s_anchor := 7\<rparr>]"

definition serving :: "u32 kernel" where
  "serving = listing
     \<lparr>sys_states := (\<lambda>rq d a k. (0, 0, if ps_len a = 0 then a\<lparr>ps_len := 594\<rparr>
        else a\<lparr>ps_u := take (unat (ps_len a) div 297) two_anchored\<rparr>, k)),
      sys_iface := (\<lambda>rq d a k. (0, 0, a\<lparr>pfiio_size := 40,
        pfiio_buffer := take (usize_or_default (pfiio_size a)) (replicate 40 pfi_kif_zeroed)\<rparr>, k))\<rparr>"

lemma serving_interfaces: "serves_interfaces serving (\<lambda>_ _. replicate 40 pfi_kif_zeroed)"
  by (simp add: serves_interfaces_def serving_def)

lemma serving_states: "serves_states serving (\<lambda>_. two_anchored)"
  by (simp add: serves_states_def serving_def pfsync_state_size two_anchored_def)

lemma serving_lists: "lists_rules serving (\<lambda>_ _. one_anchor)"
  using listing_lists by (simp add: lists_rules_def serving_def)

text \<open>
  C7. Every interface is eventually listed: on a kernel that serves its interfaces,
  \<open>get_interfaces\<close> asks once if there are at most \<open>INITIAL_CAPACITY\<close> of them and twice otherwise,
  and returns the descriptions of all interfaces that match the name, in the order of the
  kernel, however many there are (or the error of the first one that cannot be described).
\<close>

theorem interfaces_complete:
  assumes "serves_interfaces K I" and "interface_copy_to i (zeros 16) = Ok name"
    and "vec_zeroed_fits X 30" and "vec_zeroed_fits X (length (I name (w_kernel w)))"
  shows "\<exists>w'. get_interfaces K X c i w = (collect_results (map interface_description_try_from (I name (w_kernel w))), w') \<and>
    w_kernel w' = w_kernel w \<and>
    length (w_calls w') = length (w_calls w) + (if length (I name (w_kernel w)) \<le> 30 then 1 else 2)"
  by (rule get_interfaces_lists [OF assms])

lemma interfaces_complete_witness:
  "\<exists>w'. get_interfaces serving macos \<lparr>ctl_file = 3\<rparr> Interface_Any fresh_world =
      (collect_results (replicate 40 (interface_description_try_from pfi_kif_zeroed)), w') \<and>
    length (w_calls w') = 2"
proof -
  have name: "interface_copy_to Interface_Any (zeros 16) = Ok (nul_terminated [] (zeros 16))"
    by simp
  have "vec_zeroed_fits macos n" if "n < 2 ^ 32" for n using that by (simp add: macos_def)
  moreover have "w_calls fresh_world = []" by (simp add: fresh_world_def)
  ultimately show ?thesis
    using interfaces_complete [OF serving_interfaces name, where X = macos and w = fresh_world and c = "\<lparr>ctl_file = 3\<rparr>"]
    by auto
qed

text \<open>
  C22. On a kernel that serves its states, \<open>get_states\<close> returns every state, in the order of the
  kernel, and changes nothing.
\<close>

theorem states_complete:
  assumes "serves_states K S"
  shows "\<exists>w'. get_states K X c w = (Ok (map state_new (S (w_kernel w))), w') \<and> w_kernel w' = w_kernel w"
  using get_states_inner_lists [OF assms, of X c w] by (auto simp: get_states_def io_bind_def io_return_def)

lemma states_complete_witness:
  "fst (get_states serving macos \<lparr>ctl_file = 3\<rparr> fresh_world) = Ok (map state_new two_anchored)"
  using states_complete [OF serving_states, of macos "\<lparr>ctl_file = 3\<rparr>" fresh_world] by auto

text \<open>
  C23. Between the two calls of \<open>get_states\<close> states can go away. Then the buffer keeps its length and
  the states that the kernel did not write are returned as they were prepared, all zero. Such a
  state has the anchor index zero, and the request to kill it names no family, no protocol, no
  interface and no address: it is the empty request.
\<close>

theorem missing_states_zeroed:
  assumes "guarded (EEXIST X) (pf_get_states K (ctl_file c) pfioc_states_zeroed) w = (Ok a, w1)"
    and "ps_len a div pfsync_state_size_u32 = n" and "n > 0" and "setup_pfioc_states n = Ok (p, buf)"
    and "guarded (EEXIST X) (pf_get_states K (ctl_file c) p) w1 = (Ok b, w2)" and "length (ps_u b) \<le> unat n"
  shows "get_states K X c w =
      (Ok (map state_new (ps_u b @ replicate (unat n - length (ps_u b)) pfsync_state_zeroed)), w2) \<and>
    s_anchor pfsync_state_zeroed = 0 \<and>
    setup_pfioc_state_kill pfsync_state_zeroed pfioc_state_kill_zeroed = pfioc_state_kill_zeroed"
proof (intro conjI)
  have "get_num_states K X c w = (Ok n, w1)"
    using assms(1,2) by (simp add: get_num_states_def io_bind_def io_return_def)
  moreover have "buf = replicate (unat n) pfsync_state_zeroed"
    using assms(4) by (auto simp: setup_pfioc_states_def Let_def outcome_simps)
  ultimately show "get_states K X c w =
      (Ok (map state_new (ps_u b @ replicate (unat n - length (ps_u b)) pfsync_state_zeroed)), w2)"
    using assms(3-6) by (simp add: get_states_def get_states_inner_def io_bind_def io_return_def overwrite_fits)
qed (simp_all add: pfsync_state_zeroed_def setup_pfioc_state_kill_def pfioc_state_kill_zeroed_def Let_def
    pfioc_state_addr_kill_zeroed_def pf_addr_wrap_zeroed_def pf_addr_mask_zeroed_def pfsync_state_host_zeroed_def)

text \<open>A kernel that reports two states and then has one.\<close>

definition shrinking :: "u32 kernel" where
  "shrinking = granting\<lparr>sys_states := (\<lambda>rq d a k. (0, 0, a\<lparr>ps_len := 594, ps_u := take (unat (ps_len a)) [pfsync_state_zeroed\<lparr>s_anchor := 7\<rparr>]\<rparr>, k))\<rparr>"

lemma missing_states_zeroed_witness:
  "fst (get_states shrinking macos \<lparr>ctl_file = 3\<rparr> fresh_world) =
     Ok [state_new (pfsync_state_zeroed\<lparr>s_anchor := 7\<rparr>), state_new pfsync_state_zeroed]"
proof -
  define w1 w2 :: "u32 world" where
    "w1 = \<lparr>w_kernel = 1, w_calls = [CallStates PfGetStates pfioc_states_zeroed]\<rparr>" and
    "w2 = \<lparr>w_kernel = 1, w_calls = w_calls w1 @ [CallStates PfGetStates (pfioc_states_zeroed
       \<lparr>ps_len := 594, ps_u := replicate 2 pfsync_state_zeroed\<rparr>)]\<rparr>"
  have one: "guarded (EEXIST macos) (pf_get_states shrinking (ctl_file \<lparr>ctl_file = 3\<rparr>) pfioc_states_zeroed) fresh_world =
      (Ok (pfioc_states_zeroed\<lparr>ps_len := 594\<rparr>), w1)"
    by (simp add: pf_get_states_def guarded_def call_def ioctl_guard_def IOCTL_ERROR_def shrinking_def w1_def
        fresh_world_def pfioc_states_zeroed_def)
  have n: "ps_len (pfioc_states_zeroed\<lparr>ps_len := 594\<rparr>) div pfsync_state_size_u32 = 2"
    by (simp add: pfsync_state_size_eq)
  have p: "setup_pfioc_states 2 = Ok (pfioc_states_zeroed\<lparr>ps_len := 594, ps_u := replicate 2 pfsync_state_zeroed\<rparr>,
      replicate 2 pfsync_state_zeroed)"
    using setup_pfioc_states_eq [of 2] by simp
  have two: "guarded (EEXIST macos) (pf_get_states shrinking (ctl_file \<lparr>ctl_file = 3\<rparr>)
      (pfioc_states_zeroed\<lparr>ps_len := 594, ps_u := replicate 2 pfsync_state_zeroed\<rparr>)) w1 =
      (Ok (pfioc_states_zeroed\<lparr>ps_len := 594, ps_u := [pfsync_state_zeroed\<lparr>s_anchor := 7\<rparr>]\<rparr>), w2)"
    by (simp add: pf_get_states_def guarded_def call_def ioctl_guard_def IOCTL_ERROR_def shrinking_def w1_def w2_def)
  show ?thesis
    using missing_states_zeroed [OF one n _ p two] by simp
qed

text \<open>
  C11. Clearing the states of an anchor: on a kernel that serves its states and lists its rules, the
  calls of \<open>clear_states\<close> are requests that list, followed by one request to kill for every state
  whose anchor is the index of the first rule that calls the anchor, in the order of the states and
  for no other state; all of them are made when it succeeds, and an initial part when it fails.
\<close>

theorem clear_states_requests:
  assumes "serves_states K S" and "lists_rules K rules"
    and "find_anchor name (rules (anchor_kind_to_u8 k) (w_kernel w)) = Some (i, cs, r)"
    and "clear_states K X c name k w = (q, w')"
  shows "\<exists>evs n. w_calls w' = w_calls w @ evs @
      map kill_request (take n (filter (\<lambda>s. s_anchor s = of_nat i) (S (w_kernel w)))) \<and>
    list_all is_listing evs \<and>
    (is_ok q \<longrightarrow> n = length (filter (\<lambda>s. s_anchor s = of_nat i) (S (w_kernel w))))"
  by (rule clear_states_kills [OF assms])

lemma clear_states_requests_witness:
  "case clear_states serving macos \<lparr>ctl_file = 3\<rparr> [97] AnchorKind_Filter fresh_world of (q, w') \<Rightarrow>
     \<exists>evs n. w_calls w' = evs @ map kill_request (take n [pfsync_state_zeroed]) \<and> list_all is_listing evs"
proof -
  obtain q w' where run: "clear_states serving macos \<lparr>ctl_file = 3\<rparr> [97] AnchorKind_Filter fresh_world = (q, w')"
    by fastforce
  have "find_anchor [97] one_anchor = Some (0, nul_terminated [97] (zeros 1024), pf_rule_zeroed)"
    using cstr_nul_terminated [of "[97]" "zeros 1024"] by (simp add: find_anchor_def one_anchor_def)
  moreover have "filter (\<lambda>s. s_anchor s = of_nat 0) two_anchored = [pfsync_state_zeroed]"
    by (simp add: two_anchored_def pfsync_state_zeroed_def)
  moreover have "w_calls fresh_world = []" by (simp add: fresh_world_def)
  ultimately show ?thesis
    unfolding run prod.case using clear_states_requests [OF serving_states serving_lists _ run] by fastforce
qed

end
