(* ===== verification/InterfaceFlags.thy ===== *)
theory InterfaceFlags
  imports Listings
begin

text \<open>
  Setting and clearing flags of interfaces (\<open>lib.rs\<close>, \<open>rule/interface.rs\<close>), together with the listing
  that shows them. The kernel keeps a list of interfaces; a request is for those whose name matches
  the name in it, and changes the flags of exactly these.
\<close>

text \<open>The flags of an interface after a request that raises or lowers some.\<close>

definition changed_flags :: "bool \<Rightarrow> i32 \<Rightarrow> i32 \<Rightarrow> i32" where
  "changed_flags raise fs old = (if raise then or old fs else and old (not fs))"

definition flags_changed ::
  "(i8 list \<Rightarrow> i8 list \<Rightarrow> bool) \<Rightarrow> bool \<Rightarrow> i8 list \<Rightarrow> i32 \<Rightarrow> pfi_kif list \<Rightarrow> pfi_kif list" where
  "flags_changed M raise name fs =
     map (\<lambda>i. if M name (pfik_name i) then i\<lparr>pfik_flags := changed_flags raise fs (pfik_flags i)\<rparr> else i)"

definition documented_flags ::
  "'k kernel \<Rightarrow> (i8 list \<Rightarrow> i8 list \<Rightarrow> bool) \<Rightarrow> ('k \<Rightarrow> pfi_kif list) \<Rightarrow> bool" where
  "documented_flags K M F \<longleftrightarrow>
     (\<forall>raise d a k ret errno a' k'.
        sys_iface K (ioctl_request (if raise then PfSetIfaceFlag else PfClearIfaceFlag)) d a k = (ret, errno, a', k') \<longrightarrow>
        F k' = (if ret = - 1 then F k else flags_changed M raise (pfiio_name a) (pfiio_flags a) (F k))) \<and>
     serves_interfaces K (\<lambda>name k. filter (\<lambda>i. M name (pfik_name i)) (F k))"

definition change_interface_flag ::
  "'k kernel \<Rightarrow> externals \<Rightarrow> pfctl \<Rightarrow> bool \<Rightarrow> interface \<Rightarrow> interface_flags \<Rightarrow> ('k, unit) io" where
  "change_interface_flag K X c raise i fs =
     (if raise then set_interface_flag K X c i fs else clear_interface_flag K X c i fs)"

abbreviation flag_cmd :: "bool \<Rightarrow> ioctl_cmd" where
  "flag_cmd raise \<equiv> if raise then PfSetIfaceFlag else PfClearIfaceFlag"

lemma change_interface_flag_call:
  assumes "interface_copy_to i (zeros 16) = Ok name"
  shows "change_interface_flag K X c raise i fs =
    io_bind (guarded (EEXIST X) (call_iface K (flag_cmd raise) (ctl_file c)
      (pfioc_iface_zeroed\<lparr>pfiio_name := name, pfiio_flags := bits fs\<rparr>))) (\<lambda>_. io_return ())"
proof -
  have "pfiio_name pfioc_iface_zeroed = zeros 16" by (simp add: pfioc_iface_zeroed_def)
  then show ?thesis
    using assms by (cases raise) (simp_all add: change_interface_flag_def set_interface_flag_def
        clear_interface_flag_def pf_set_iface_flag_def pf_clear_iface_flag_def Let_def del: ioctl_request.simps)
qed

lemma change_interface_flag_effect:
  assumes D: "documented_flags K M F" and name: "interface_copy_to i (zeros 16) = Ok name"
    and run: "change_interface_flag K X c raise i fs w = (q, w')"
  shows "F (w_kernel w') = (if q = Ok () then flags_changed M raise name (bits fs) (F (w_kernel w)) else F (w_kernel w))"
proof -
  define a where "a = pfioc_iface_zeroed\<lparr>pfiio_name := name, pfiio_flags := bits fs\<rparr>"
  define rq where "rq = ioctl_request (flag_cmd raise)"
  obtain ret errno a' k' where g: "sys_iface K rq (ctl_file c) a (w_kernel w) = (ret, errno, a', k')"
    by (metis surj_pair)
  have F: "F k' = (if ret = - 1 then F (w_kernel w) else flags_changed M raise name (bits fs) (F (w_kernel w)))"
    using D g unfolding documented_flags_def a_def rq_def by fastforce
  have "io_bind (guarded (EEXIST X) (call (CallIface (flag_cmd raise) a) (sys_iface K rq (ctl_file c) a))) (\<lambda>_. io_return ()) w = (q, w')"
    using run unfolding change_interface_flag_call [OF name] a_def rq_def .
  then have "q = Ok () \<longleftrightarrow> ret \<noteq> - 1" "w_kernel w' = k'"
    using g by (auto simp: guarded_def call_def ioctl_guard_def IOCTL_ERROR_def io_bind_def io_return_def split: if_splits)
  then show ?thesis using F by simp
qed

section \<open>What a listing shows of the flags\<close>

lemma collect_results_map:
  "collect_results (map (\<lambda>x. map_outcome h (f x)) xs) = map_outcome (map h) (collect_results (map f xs))"
proof (induction xs)
  case (Cons x xs)
  then show ?case by (cases "f x"; cases "collect_results (map f xs)") simp_all
qed simp

definition reflagged :: "bool \<Rightarrow> i32 \<Rightarrow> interface_description \<Rightarrow> interface_description" where
  "reflagged raise fs d = d\<lparr>id_flags := InterfaceFlags (changed_flags raise fs (bits (id_flags d)))\<rparr>"

lemma description_reflagged:
  "interface_description_try_from (i\<lparr>pfik_flags := changed_flags raise fs (pfik_flags i)\<rparr>) =
     map_outcome (reflagged raise fs) (interface_description_try_from i)"
  by (auto simp: interface_description_try_from_def reflagged_def split: option.split)

lemma filter_flags_changed:
  "filter (\<lambda>i. M name (pfik_name i)) (flags_changed M raise name fs is) =
     map (\<lambda>i. i\<lparr>pfik_flags := changed_flags raise fs (pfik_flags i)\<rparr>) (filter (\<lambda>i. M name (pfik_name i)) is)"
  by (induction "is") (simp_all add: flags_changed_def)

lemma listing_after_change:
  assumes D: "documented_flags K M F" and name: "interface_copy_to i (zeros 16) = Ok name"
    and alloc: "vec_zeroed_fits X 30" "vec_zeroed_fits X (length (filter (\<lambda>i. M name (pfik_name i)) (F (w_kernel w))))"
    and run: "change_interface_flag K X c raise i fs w = (Ok (), w')"
  shows "fst (get_interfaces K X c i w') = map_outcome (map (reflagged raise (bits fs))) (fst (get_interfaces K X c i w))"
proof -
  let ?I = "\<lambda>name k. filter (\<lambda>i. M name (pfik_name i)) (F k)"
  have S: "serves_interfaces K ?I" using D by (simp add: documented_flags_def)
  have after: "?I name (w_kernel w') =
      map (\<lambda>i. i\<lparr>pfik_flags := changed_flags raise (bits fs) (pfik_flags i)\<rparr>) (?I name (w_kernel w))"
    using change_interface_flag_effect [OF D name run] by (simp add: filter_flags_changed)
  then have len: "vec_zeroed_fits X (length (?I name (w_kernel w')))" using alloc(2) by simp
  have "fst (get_interfaces K X c i w') = collect_results (map interface_description_try_from (?I name (w_kernel w')))"
    using get_interfaces_lists [where c = c, OF S name alloc(1) len] by auto
  also have "\<dots> = map_outcome (map (reflagged raise (bits fs)))
      (collect_results (map interface_description_try_from (?I name (w_kernel w))))"
    unfolding after by (simp add: comp_def description_reflagged collect_results_map)
  also have "collect_results (map interface_description_try_from (?I name (w_kernel w))) = fst (get_interfaces K X c i w)"
    using get_interfaces_lists [where c = c, OF S name alloc(1,2)] by auto
  finally show ?thesis .
qed

section \<open>Properties\<close>

text \<open>
  C24. Flags that are set are seen: on a kernel that changes the flags of the interfaces that match a
  name and lists these, what \<open>get_interfaces\<close> returns after a successful \<open>set_interface_flag\<close> or
  \<open>clear_interface_flag\<close> is what it would have returned before, with the flags raised or lowered in
  every description and nothing else changed; a failure changes no interface.
\<close>

theorem interface_flags_listed:
  assumes "documented_flags K M F" and "interface_copy_to i (zeros 16) = Ok name"
    and "vec_zeroed_fits X 30" and "vec_zeroed_fits X (length (filter (\<lambda>i. M name (pfik_name i)) (F (w_kernel w))))"
    and "(if raise then set_interface_flag K X c i fs else clear_interface_flag K X c i fs) w = (q, w')"
  shows "if q = Ok () then fst (get_interfaces K X c i w') =
      map_outcome (map (\<lambda>d. d\<lparr>id_flags := InterfaceFlags
        (if raise then or (bits (id_flags d)) (bits fs) else and (bits (id_flags d)) (not (bits fs)))\<rparr>))
        (fst (get_interfaces K X c i w))
    else F (w_kernel w') = F (w_kernel w)"
proof -
  note run = assms(5) [folded change_interface_flag_def]
  have "q = Ok () \<Longrightarrow> fst (get_interfaces K X c i w') = map_outcome (map (reflagged raise (bits fs))) (fst (get_interfaces K X c i w))"
    using listing_after_change [OF assms(1-4)] run by simp
  then show ?thesis
    using change_interface_flag_effect [OF assms(1,2) run]
    by (cases "q = Ok ()") (simp_all add: reflagged_def [abs_def] changed_flags_def)
qed

text \<open>A kernel with at most a thousand interfaces, where the empty name matches all of them.\<close>

definition kif_matches :: "i8 list \<Rightarrow> i8 list \<Rightarrow> bool" where
  "kif_matches name kif_name \<longleftrightarrow> cstr_until_nul name = Some [] \<or> name = kif_name"

definition kif_iface ::
  "request \<Rightarrow> fd \<Rightarrow> pfioc_iface \<Rightarrow> pfi_kif list \<Rightarrow> i32 \<times> i32 \<times> pfioc_iface \<times> pfi_kif list" where
  "kif_iface rq d a k =
    (let kifs = take 1000 k; matching = filter (\<lambda>i. kif_matches (pfiio_name a) (pfik_name i)) kifs in
     if rq = ioctl_request PfGetIfaces then
       (0, 0, a\<lparr>pfiio_buffer := take (usize_or_default (pfiio_size a)) matching,
                pfiio_size := of_nat (length matching)\<rparr>, k)
     else if rq = ioctl_request PfSetIfaceFlag then
       (0, 0, a, flags_changed kif_matches True (pfiio_name a) (pfiio_flags a) kifs)
     else if rq = ioctl_request PfClearIfaceFlag then
       (0, 0, a, flags_changed kif_matches False (pfiio_name a) (pfiio_flags a) kifs)
     else (- 1, 22, a, k))"

definition kif_kernel :: "pfi_kif list kernel" where
  "kif_kernel =
     \<lparr>sys_open = (\<lambda>path s. (Inr 3, s)), sys_none = (\<lambda>rq d s. (0, 0, (), s)), sys_rule = (\<lambda>rq d a s. (0, 0, a, s)),
      sys_state_kill = (\<lambda>rq d a s. (0, 0, a, s)), sys_status = (\<lambda>rq d a s. (0, 0, a, s)),
      sys_states = (\<lambda>rq d a s. (0, 0, a, s)), sys_pooladdr = (\<lambda>rq d a s. (0, 0, a, s)),
      sys_trans = (\<lambda>rq d a s. (0, 0, a, s)), sys_iface = kif_iface\<rparr>"

lemma kif_kernel_flags: "documented_flags kif_kernel kif_matches (take 1000)"
proof -
  have len: "length (filter P (take 1000 k)) < 2 ^ 31" for P and k :: "pfi_kif list"
    using length_filter_le [of P "take 1000 k"] by simp
  have size: "sint (of_nat (length (filter P (take 1000 k))) :: i32) = int (length (filter P (take 1000 k)))"
    for P and k :: "pfi_kif list"
  proof -
    have u: "unat (of_nat (length (filter P (take 1000 k))) :: i32) = length (filter P (take 1000 k))"
      using len [of P k] by (simp add: unat_of_nat)
    then have "unat (of_nat (length (filter P (take 1000 k))) :: i32) < 2 ^ 31" using len [of P k] by (simp only:)
    from sint_eq_unat [OF this] show ?thesis unfolding u .
  qed
  have "take 1000 (flags_changed M raise n fs (take 1000 k)) = flags_changed M raise n fs (take 1000 k)" for M raise n fs k
    by (simp add: flags_changed_def)
  then show ?thesis
    by (auto simp: documented_flags_def serves_interfaces_def kif_kernel_def kif_iface_def Let_def size
        ioctl_request_inject simp del: ioctl_request.simps split: if_splits)
qed

definition kif_world :: "pfi_kif list world" where
  "kif_world = \<lparr>w_kernel = [pfi_kif_zeroed], w_calls = []\<rparr>"

lemma interface_flags_listed_witness:
  "case set_interface_flag kif_kernel macos \<lparr>ctl_file = 3\<rparr> Interface_Any SKIP kif_world of (q, w') \<Rightarrow>
     q = Ok () \<longrightarrow>
       fst (get_interfaces kif_kernel macos \<lparr>ctl_file = 3\<rparr> Interface_Any w') = Ok [\<lparr>id_name = [], id_flags = SKIP\<rparr>]"
proof -
  have name: "interface_copy_to Interface_Any (zeros 16) = Ok (nul_terminated [] (zeros 16))" by simp
  have fits: "vec_zeroed_fits macos n" if "n < 2 ^ 32" for n using that by (simp add: macos_def)
  have all: "filter (\<lambda>i. kif_matches (nul_terminated [] (zeros 16)) (pfik_name i)) (take 1000 (w_kernel kif_world)) = [pfi_kif_zeroed]"
    using cstr_nul_terminated [of "[]" "zeros 16"] by (simp add: kif_matches_def kif_world_def)
  obtain q w' where run: "(if True then set_interface_flag kif_kernel macos \<lparr>ctl_file = 3\<rparr> Interface_Any SKIP
      else clear_interface_flag kif_kernel macos \<lparr>ctl_file = 3\<rparr> Interface_Any SKIP) kif_world = (q, w')" by fastforce
  have S: "serves_interfaces kif_kernel (\<lambda>name k. filter (\<lambda>i. kif_matches name (pfik_name i)) (take 1000 k))"
    using kif_kernel_flags by (simp add: documented_flags_def)
  have "fst (get_interfaces kif_kernel macos \<lparr>ctl_file = 3\<rparr> Interface_Any kif_world) =
      collect_results (map interface_description_try_from [pfi_kif_zeroed])"
    using get_interfaces_lists [where c = "\<lparr>ctl_file = 3\<rparr>" and w = kif_world and X = macos, OF S name] fits all by auto
  also have "\<dots> = Ok [\<lparr>id_name = [], id_flags = InterfaceFlags 0\<rparr>]"
    by (simp add: interface_description_try_from_def pfi_kif_zeroed_def cstr_until_nul_def)
  finally show ?thesis
    using interface_flags_listed [OF kif_kernel_flags name fits _ run] fits all run by (auto simp: SKIP_def)
qed

end
