(* ===== verification/Firewall.thy ===== *)
theory Firewall
  imports PfCtlSpec
begin

text \<open>
  What the requests of the crate do to the firewall. The kernel is still a parameter; what its
  manual page pf(4) documents of the requests that change rules is the predicate
  \<open>documented_pf\<close>, over a view of the kernel's state: the active rules of every ruleset, the
  inactive rules that an open transaction has staged, and the buffer of pool addresses. Under
  this hypothesis a commit replaces exactly the rulesets of the transaction or nothing, and an
  appended rule ends up last in its ruleset (\<open>FirewallSpec\<close>). Here are the view, the documented
  behaviour, and the contract \<open>staged_adder\<close> of the helpers that add a rule to a transaction.
\<close>

section \<open>The view of the kernel\<close>

text \<open>A ruleset is named by its number and by the buffer with the path of its anchor. An entry
  is a rule as it was requested, with the pool addresses that were buffered for it.\<close>

type_synonym ruleset = "i32 \<times> i8 list"
type_synonym entry = "pf_rule \<times> pf_pooladdr list"

record 'k pf_view =
  pv_number :: "u8 \<Rightarrow> i32"
  pv_active :: "'k \<Rightarrow> ruleset \<Rightarrow> entry list"
  pv_staged :: "'k \<Rightarrow> ruleset \<Rightarrow> (u32 \<times> entry list) option"
  pv_pool :: "'k \<Rightarrow> pf_pooladdr list"

text \<open>The ruleset that a request is for: the action of the rule decides the number.\<close>

definition rule_target :: "'k pf_view \<Rightarrow> pfioc_rule \<Rightarrow> ruleset" where
  "rule_target V x = (pv_number V (r_action (ir_rule x)), ir_anchor x)"

definition element_target :: "pfioc_trans_e \<Rightarrow> ruleset" where
  "element_target e = (te_rs_num e, te_anchor e)"

text \<open>The elements that the kernel reads: as many as the struct says.\<close>

definition trans_elements :: "pfioc_trans \<Rightarrow> pfioc_trans_e list" where
  "trans_elements a = take (nat (sint (t_size a))) (t_array a)"

text \<open>Beginning a transaction opens an empty ruleset for each element.\<close>

definition opened ::
  "pfioc_trans_e list \<Rightarrow> (ruleset \<Rightarrow> (u32 \<times> entry list) option) \<Rightarrow> ruleset \<Rightarrow> (u32 \<times> entry list) option" where
  "opened es s = fold (\<lambda>e s. s(element_target e \<mapsto> (te_ticket e, []))) es s"

text \<open>Committing switches the rulesets of the elements.\<close>

definition switched ::
  "ruleset set \<Rightarrow> (ruleset \<Rightarrow> (u32 \<times> entry list) option) \<Rightarrow> (ruleset \<Rightarrow> entry list) \<Rightarrow> ruleset \<Rightarrow> entry list" where
  "switched T s act r = (if r \<in> T then (case s r of Some (t, es) \<Rightarrow> es | None \<Rightarrow> act r) else act r)"

section \<open>What a program keeps\<close>

text \<open>An observation of the kernel's state that no run of the program changes.\<close>

definition keeps :: "('k \<Rightarrow> 'o) \<Rightarrow> ('k, 'a) io \<Rightarrow> bool" where
  "keeps f m \<longleftrightarrow> (\<forall>w q w'. m w = (q, w') \<longrightarrow> f (w_kernel w') = f (w_kernel w))"

named_theorems keeps_intros "programs that keep an observation"

lemma keepsD: "keeps f m \<Longrightarrow> m w = (q, w') \<Longrightarrow> f (w_kernel w') = f (w_kernel w)"
  by (simp add: keeps_def)

lemma keeps_return [keeps_intros]: "keeps f (io_return x)"
  by (simp add: keeps_def io_return_def)

lemma keeps_lift [keeps_intros]: "keeps f (io_lift r)"
  by (simp add: keeps_def io_lift_def)

lemma keeps_bind [keeps_intros]:
  assumes "keeps f m" and "\<And>x. keeps f (g x)"
  shows "keeps f (io_bind m g)"
  using assms unfolding keeps_def io_bind_def by (auto split: prod.splits outcome.splits)

lemma keeps_for [keeps_intros]: "(\<And>x. x \<in> set xs \<Longrightarrow> keeps f (g x)) \<Longrightarrow> keeps f (io_for xs g)"
  by (induction xs) (auto intro: keeps_intros)

lemma keeps_call: "(\<And>k. f (snd (snd (snd (g k)))) = f k) \<Longrightarrow> keeps f (guarded a (call ev g))"
  by (auto simp: keeps_def guarded_def call_def split: prod.splits) (metis snd_conv)

section \<open>The documented behaviour\<close>

text \<open>The rules that the kernel holds, active and staged.\<close>

definition pv_rules ::
  "'k pf_view \<Rightarrow> 'k \<Rightarrow> (ruleset \<Rightarrow> entry list) \<times> (ruleset \<Rightarrow> (u32 \<times> entry list) option)" where
  "pv_rules V k = (pv_active V k, pv_staged V k)"

text \<open>The number of the ruleset that a rule belongs to, by its action.\<close>

definition documented_numbers :: "'k pf_view \<Rightarrow> bool" where
  "documented_numbers V \<longleftrightarrow>
     (\<forall>a \<in> {PF_PASS, PF_DROP}. pv_number V (ucast (bindgen_ty_7_as_u32 a)) = bindgen_ty_8_as_u32 PF_RULESET_FILTER) \<and>
     (\<forall>a \<in> {PF_NAT, PF_NONAT}. pv_number V (ucast (bindgen_ty_7_as_u32 a)) = bindgen_ty_8_as_u32 PF_RULESET_NAT) \<and>
     (\<forall>a \<in> {PF_RDR, PF_NORDR}. pv_number V (ucast (bindgen_ty_7_as_u32 a)) = bindgen_ty_8_as_u32 PF_RULESET_RDR) \<and>
     (\<forall>a \<in> {PF_SCRUB, PF_NOSCRUB}. pv_number V (ucast (bindgen_ty_7_as_u32 a)) = bindgen_ty_8_as_u32 PF_RULESET_SCRUB)"

text \<open>Opening the device changes no rules.\<close>

definition documented_open :: "'k kernel \<Rightarrow> 'k pf_view \<Rightarrow> bool" where
  "documented_open K V \<longleftrightarrow> (\<forall>p k. pv_rules V (snd (sys_open K p k)) = pv_rules V k)"

text \<open>\<open>DIOCBEGINADDRS\<close> clears the buffer of pool addresses, \<open>DIOCADDADDR\<close> adds an address to it.\<close>

definition documented_pool :: "'k kernel \<Rightarrow> 'k pf_view \<Rightarrow> bool" where
  "documented_pool K V \<longleftrightarrow>
     (\<forall>d a k ret errno a' k'.
        sys_pooladdr K (ioctl_request PfBeginAddrs) d a k = (ret, errno, a', k') \<longrightarrow>
        pv_rules V k' = pv_rules V k \<and> (ret \<noteq> - 1 \<longrightarrow> pv_pool V k' = [])) \<and>
     (\<forall>d a k ret errno a' k'.
        sys_pooladdr K (ioctl_request PfAddAddr) d a k = (ret, errno, a', k') \<longrightarrow>
        pv_rules V k' = pv_rules V k \<and> (ret \<noteq> - 1 \<longrightarrow> pv_pool V k' = pv_pool V k @ [ipa_addr a]))"

text \<open>\<open>DIOCADDRULE\<close> adds a rule, with the buffered pool addresses, at the end of the inactive
  ruleset that was opened under its ticket.\<close>

definition documented_add_rule :: "'k kernel \<Rightarrow> 'k pf_view \<Rightarrow> bool" where
  "documented_add_rule K V \<longleftrightarrow>
     (\<forall>d a k ret errno a' k'.
        sys_rule K (ioctl_request PfAddRule) d a k = (ret, errno, a', k') \<longrightarrow>
        pv_active V k' = pv_active V k \<and>
        (ret \<noteq> - 1 \<longrightarrow> (\<exists>es. pv_staged V k (rule_target V a) = Some (ir_ticket a, es) \<and>
           pv_staged V k' = (pv_staged V k)
             (rule_target V a \<mapsto> (ir_ticket a, es @ [(ir_rule a, pv_pool V k)])))))"

text \<open>\<open>DIOCXBEGIN\<close> clears the inactive rulesets of the elements and writes their tickets.\<close>

definition documented_begin :: "'k kernel \<Rightarrow> 'k pf_view \<Rightarrow> bool" where
  "documented_begin K V \<longleftrightarrow>
     (\<forall>d a k ret errno a' k'.
        sys_trans K (ioctl_request PfBeginTrans) d a k = (ret, errno, a', k') \<longrightarrow>
        pv_active V k' = pv_active V k \<and>
        (ret \<noteq> - 1 \<longrightarrow> t_size a' = t_size a \<and>
           map element_target (t_array a') = map element_target (t_array a) \<and>
           pv_staged V k' = opened (trans_elements a') (pv_staged V k)))"

text \<open>\<open>DIOCXCOMMIT\<close> switches the inactive rulesets of the elements to the active ones, all of
  them or none.\<close>

definition documented_commit :: "'k kernel \<Rightarrow> 'k pf_view \<Rightarrow> bool" where
  "documented_commit K V \<longleftrightarrow>
     (\<forall>d a k ret errno a' k'.
        sys_trans K (ioctl_request PfCommitTrans) d a k = (ret, errno, a', k') \<longrightarrow>
        pv_active V k' =
          (if ret = - 1 then pv_active V k
           else switched (element_target ` set (trans_elements a)) (pv_staged V k) (pv_active V k)))"

text \<open>\<open>DIOCCHANGERULE\<close> hands out a ticket, or adds a rule at the tail of the active ruleset.\<close>

definition documented_change :: "'k kernel \<Rightarrow> 'k pf_view \<Rightarrow> bool" where
  "documented_change K V \<longleftrightarrow>
     (\<forall>d a k ret errno a' k'.
        sys_rule K (ioctl_request PfChangeRule) d a k = (ret, errno, a', k') \<longrightarrow>
        (ret = - 1 \<longrightarrow> pv_active V k' = pv_active V k) \<and>
        (ir_action a = bindgen_ty_11_as_u32 PF_CHANGE_GET_TICKET \<longrightarrow>
           pv_active V k' = pv_active V k \<and> pv_pool V k' = pv_pool V k) \<and>
        (ret \<noteq> - 1 \<and> ir_action a = bindgen_ty_11_as_u32 PF_CHANGE_ADD_TAIL \<longrightarrow>
           pv_active V k' = (pv_active V k)
             (rule_target V a := pv_active V k (rule_target V a) @ [(ir_rule a, pv_pool V k)])))"

definition documented_pf :: "'k kernel \<Rightarrow> 'k pf_view \<Rightarrow> bool" where
  "documented_pf K V \<longleftrightarrow>
     documented_numbers V \<and> documented_open K V \<and> documented_pool K V \<and> documented_add_rule K V \<and>
     documented_begin K V \<and> documented_commit K V \<and> documented_change K V"

lemma documented_pfD:
  assumes "documented_pf K V"
  shows "documented_numbers V" "documented_open K V" "documented_pool K V" "documented_add_rule K V"
    "documented_begin K V" "documented_commit K V" "documented_change K V"
  using assms by (simp_all add: documented_pf_def)

section \<open>The requests as programs\<close>

text \<open>What no request before the commit changes.\<close>

lemma keeps_rules:
  assumes D: "documented_pf K V"
  shows keeps_open: "keeps (pv_rules V) (open_pf K)"
    and keeps_pool_ticket: "keeps (pv_rules V) (get_pool_ticket K X d)"
    and keeps_pool_address: "keeps (pv_rules V) (add_pool_address K X d p t)"
proof -
  show "keeps (pv_rules V) (open_pf K)"
    using documented_pfD(2) [OF D]
    by (auto simp: keeps_def open_pf_def documented_open_def split: prod.splits) (metis snd_conv)
  have pool: "pv_rules V (snd (snd (snd (sys_pooladdr K (ioctl_request c) d a k)))) = pv_rules V k"
    if "c \<in> {PfBeginAddrs, PfAddAddr}" for c d a k
    using documented_pfD(3) [OF D] that by (cases "sys_pooladdr K (ioctl_request c) d a k")
      (auto simp: documented_pool_def simp del: ioctl_request.simps)
  show "keeps (pv_rules V) (get_pool_ticket K X d)" "keeps (pv_rules V) (add_pool_address K X d p t)"
    unfolding get_pool_ticket_def add_pool_address_def pf_begin_addrs_def pf_add_addr_def Let_def
    by (intro keeps_intros keeps_call pool; simp)+
qed

text \<open>What each of them does when it succeeds.\<close>

lemma pool_ticket_Ok:
  assumes D: "documented_pf K V" and "get_pool_ticket K X d w = (Ok t, w')"
  shows "pv_pool V (w_kernel w') = []"
  using assms(2) documented_pfD(3) [OF D]
  by (auto simp: get_pool_ticket_def pf_begin_addrs_def io_simps documented_pool_def
      simp del: ioctl_request.simps)

lemma pool_address_Ok:
  assumes D: "documented_pf K V" and "add_pool_address K X d p t w = (Ok (), w')"
  obtains a where "pool_addr_copy_to X p pf_pooladdr_zeroed = Ok a"
    "pv_pool V (w_kernel w') = pv_pool V (w_kernel w) @ [a]"
  using assms(2) documented_pfD(3) [OF D]
  by (fastforce simp: add_pool_address_def Let_def pf_add_addr_def io_simps documented_pool_def
      simp del: ioctl_request.simps)

lemma add_rule_Ok:
  assumes D: "documented_pf K V" and "guarded e (pf_add_rule K d x) w = (Ok y, w')"
  obtains es where "pv_staged V (w_kernel w) (rule_target V x) = Some (ir_ticket x, es)"
    "pv_staged V (w_kernel w') = (pv_staged V (w_kernel w))
       (rule_target V x \<mapsto> (ir_ticket x, es @ [(ir_rule x, pv_pool V (w_kernel w))]))"
  using assms(2) documented_pfD(4) [OF D]
  by (fastforce simp: pf_add_rule_def io_simps documented_add_rule_def simp del: ioctl_request.simps)

lemma begin_Ok:
  assumes D: "documented_pf K V" and "guarded e (pf_begin_trans K d a) w = (Ok a', w')"
  shows "t_size a' = t_size a" "map element_target (t_array a') = map element_target (t_array a)"
    "pv_staged V (w_kernel w') = opened (trans_elements a') (pv_staged V (w_kernel w))"
  using assms(2) documented_pfD(5) [OF D]
  by (auto simp: pf_begin_trans_def io_simps documented_begin_def simp del: ioctl_request.simps)

lemma keeps_active:
  assumes D: "documented_pf K V"
  shows keeps_add_rule: "keeps (pv_active V) (guarded e (pf_add_rule K d x))"
    and keeps_begin: "keeps (pv_active V) (guarded e (pf_begin_trans K d tr))"
proof -
  have "pv_active V (snd (snd (snd (sys_rule K (ioctl_request PfAddRule) d x k)))) = pv_active V k" for k
    using documented_pfD(4) [OF D] by (cases "sys_rule K (ioctl_request PfAddRule) d x k")
      (auto simp: documented_add_rule_def simp del: ioctl_request.simps)
  then show "keeps (pv_active V) (guarded e (pf_add_rule K d x))"
    unfolding pf_add_rule_def by (rule keeps_call)
  have "pv_active V (snd (snd (snd (sys_trans K (ioctl_request PfBeginTrans) d tr k)))) = pv_active V k" for k
    using documented_pfD(5) [OF D] by (cases "sys_trans K (ioctl_request PfBeginTrans) d tr k")
      (auto simp: documented_begin_def simp del: ioctl_request.simps)
  then show "keeps (pv_active V) (guarded e (pf_begin_trans K d tr))"
    unfolding pf_begin_trans_def by (rule keeps_call)
qed

lemma keeps_rules_active: "keeps (pv_rules V) m \<Longrightarrow> keeps (pv_active V) m"
  by (simp add: keeps_def pv_rules_def)

section \<open>Adding a rule to a staged ruleset\<close>

text \<open>The ruleset of an anchor, and the entry that a rule becomes.\<close>

definition slot :: "ruleset_kind \<Rightarrow> rstring \<Rightarrow> ruleset" where
  "slot k anchor = (ruleset_kind_to_i32 k, nul_terminated anchor (zeros 1024))"

definition entry_of ::
  "externals \<Rightarrow> ('r \<Rightarrow> pf_rule result) \<Rightarrow> ('r \<Rightarrow> pool_addr list) \<Rightarrow> 'r \<Rightarrow> entry result" where
  "entry_of X install pools r =
     obind (install r) (\<lambda>p.
     obind (collect_results (map (\<lambda>a. pool_addr_copy_to X a pf_pooladdr_zeroed) (pools r))) (\<lambda>as.
     Ok (p, as)))"

fun any_kind :: "any_rule \<Rightarrow> ruleset_kind" where
  "any_kind (AnyFilter r) = RulesetKind_Filter"
| "any_kind (AnyNat r) = RulesetKind_Nat"
| "any_kind (AnyRedirect r) = RulesetKind_Redirect"
| "any_kind (AnyScrub r) = RulesetKind_Scrub"

text \<open>The effect of a program on the staged rulesets: one entry more in one of them.\<close>

definition stages :: "'k pf_view \<Rightarrow> ruleset \<Rightarrow> u32 \<Rightarrow> entry \<Rightarrow> 'k \<Rightarrow> 'k \<Rightarrow> bool" where
  "stages V s ticket e k k' \<longleftrightarrow>
     (\<exists>es. pv_staged V k s = Some (ticket, es) \<and>
        pv_staged V k' = (pv_staged V k)(s \<mapsto> (ticket, es @ [e])))"

text \<open>What a helper that adds one rule to a transaction promises about the rulesets.\<close>

locale staged_adder =
  fixes K :: "'k kernel"
    and V :: "'k pf_view"
    and add :: "rstring \<Rightarrow> 'r \<Rightarrow> u32 \<Rightarrow> ('k, unit) io"
    and entry :: "'r \<Rightarrow> entry result"
    and kind_of :: "'r \<Rightarrow> ruleset_kind"
  assumes adds_keep: "documented_pf K V \<Longrightarrow> keeps (pv_active V) (add anchor r ticket)"
    and adds_stage: "documented_pf K V \<Longrightarrow> add anchor r ticket w = (Ok (), w') \<Longrightarrow>
      \<exists>e. entry r = Ok e \<and>
        stages V (slot (kind_of r) anchor) ticket e (w_kernel w) (w_kernel w')"
begin

lemma all_keep: "documented_pf K V \<Longrightarrow> keeps (pv_active V) (io_for rs (\<lambda>r. add anchor r ticket))"
  by (intro keeps_intros adds_keep)

text \<open>The rules of a change end up in its ruleset, in order.\<close>

lemma all_stage:
  assumes D: "documented_pf K V" and kind: "\<forall>r \<in> set rs. kind_of r = k"
    and run: "io_for rs (\<lambda>r. add anchor r ticket) w = (Ok (), w')"
    and open_slot: "pv_staged V (w_kernel w) (slot k anchor) = Some (ticket, es)"
  shows "\<exists>new. map entry rs = map Ok new \<and>
    pv_staged V (w_kernel w') = (pv_staged V (w_kernel w))(slot k anchor \<mapsto> (ticket, es @ new))"
  using kind run open_slot
proof (induction rs arbitrary: w es)
  case Nil
  then show ?case by (auto simp: io_simps)
next
  case (Cons r rs)
  then obtain w1 where one: "add anchor r ticket w = (Ok (), w1)"
    and rest: "io_for rs (\<lambda>r. add anchor r ticket) w1 = (Ok (), w')"
    by (auto simp: io_simps)
  obtain e where e: "entry r = Ok e"
    "pv_staged V (w_kernel w1) = (pv_staged V (w_kernel w))(slot k anchor \<mapsto> (ticket, es @ [e]))"
    using adds_stage [OF D one] Cons.prems(1,3) by (auto simp: stages_def)
  have "\<forall>r \<in> set rs. kind_of r = k" using Cons.prems(1) by simp
  moreover have "pv_staged V (w_kernel w1) (slot k anchor) = Some (ticket, es @ [e])"
    by (simp add: e(2))
  ultimately obtain new where "map entry rs = map Ok new"
    "pv_staged V (w_kernel w') = (pv_staged V (w_kernel w1))(slot k anchor \<mapsto> (ticket, (es @ [e]) @ new))"
    using Cons.IH [OF _ rest] by blast
  then show ?case using e by (intro exI [of _ "e # new"]) (simp add: fun_upd_upd)
qed

end

section \<open>The four helpers\<close>

lemma pool_addresses_Ok:
  assumes D: "documented_pf K V" and "io_for ps (\<lambda>p. add_pool_address K X d p t) w = (Ok (), w')"
  shows "\<exists>as. collect_results (map (\<lambda>a. pool_addr_copy_to X a pf_pooladdr_zeroed) ps) = Ok as \<and>
    pv_pool V (w_kernel w') = pv_pool V (w_kernel w) @ as"
  using assms(2)
proof (induction ps arbitrary: w)
  case Nil
  then show ?case by (simp add: io_simps)
next
  case (Cons p ps)
  then obtain w1 where one: "add_pool_address K X d p t w = (Ok (), w1)"
    and rest: "io_for ps (\<lambda>p. add_pool_address K X d p t) w1 = (Ok (), w')"
    by (auto simp: io_simps)
  obtain a where a: "pool_addr_copy_to X p pf_pooladdr_zeroed = Ok a"
    "pv_pool V (w_kernel w1) = pv_pool V (w_kernel w) @ [a]"
    by (rule pool_address_Ok [OF D one])
  obtain as where "collect_results (map (\<lambda>a. pool_addr_copy_to X a pf_pooladdr_zeroed) ps) = Ok as"
    "pv_pool V (w_kernel w') = pv_pool V (w_kernel w1) @ as"
    using Cons.IH [OF rest] by blast
  with a show ?case by simp
qed

text \<open>The common course of the helpers: a pool ticket, the addresses, the rule.\<close>

lemma staging_run:
  assumes D: "documented_pf K V"
    and ticket: "get_pool_ticket K X d w = (Ok t, w1)"
    and addresses: "io_for (pools r) (\<lambda>p. add_pool_address K X d p t) w1 = (Ok (), w2)"
    and rule: "guarded e (pf_add_rule K d x) w2 = (Ok y, w')"
    and x: "install r = Ok (ir_rule x)" "rule_target V x = slot k anchor" "ir_ticket x = ticket"
  shows "\<exists>e. entry_of X install pools r = Ok e \<and>
    stages V (slot k anchor) ticket e (w_kernel w) (w_kernel w')"
proof -
  obtain as where as: "collect_results (map (\<lambda>a. pool_addr_copy_to X a pf_pooladdr_zeroed) (pools r)) = Ok as"
    "pv_pool V (w_kernel w2) = as"
    using pool_addresses_Ok [OF D addresses] pool_ticket_Ok [OF D ticket] by auto
  have all: "keeps (pv_rules V) (io_for (pools r) (\<lambda>p. add_pool_address K X d p t))"
    by (intro keeps_intros keeps_pool_address D)
  have "pv_rules V (w_kernel w2) = pv_rules V (w_kernel w1)"
    by (rule keepsD [where m = "io_for (pools r) (\<lambda>p. add_pool_address K X d p t)", OF all addresses])
  then have same: "pv_staged V (w_kernel w2) = pv_staged V (w_kernel w)"
    using keepsD [OF keeps_pool_ticket [OF D] ticket] by (simp add: pv_rules_def)
  show ?thesis
    using add_rule_Ok [OF D rule] as same x by (auto simp: entry_of_def stages_def)
qed

text \<open>The action of every rule belongs to the ruleset that its transaction opens.\<close>

lemma copied_action:
  "filter_rule_copy_to X f d = Ok p \<Longrightarrow> r_action p = filter_rule_action_to_u8 (fr_action f)"
  "nat_rule_copy_to X n d = Ok p \<Longrightarrow> r_action p = nat_rule_action_to_u8 (nr_action n)"
  "redirect_rule_copy_to X q d = Ok p \<Longrightarrow> r_action p = redirect_rule_action_to_u8 (rr_action q)"
  "scrub_rule_copy_to s d = Ok p \<Longrightarrow> r_action p = scrub_rule_action_to_u8 (sr_action s)"
  unfolding filter_rule_copy_Ok_iff nat_rule_copy_Ok_iff redirect_rule_copy_Ok_iff scrub_rule_copy_to_def
    outcome.inject
  by (elim exE conjE, simp)+ (drule sym, simp)

lemma install_endpoint_action: "install_endpoint X e p = Ok q \<Longrightarrow> r_action q = r_action p"
  by (auto simp: install_endpoint_def outcome_simps)

lemma installed_action:
  "install_filter X f = Ok p \<Longrightarrow> r_action p = filter_rule_action_to_u8 (fr_action f)"
  "install_nat X n = Ok p \<Longrightarrow> r_action p = nat_rule_action_to_u8 (nr_action n)"
  "install_redirect X q = Ok p \<Longrightarrow> r_action p = redirect_rule_action_to_u8 (rr_action q)"
  "install_scrub s = Ok p \<Longrightarrow> r_action p = scrub_rule_action_to_u8 (sr_action s)"
  by (auto simp: install_filter_def install_pool_def install_nat_def install_redirect_def install_scrub_def
      outcome_simps dest!: install_endpoint_action copied_action split: option.splits)

lemma install_number:
  assumes "documented_pf K V" and "install_any X r = Ok p"
  shows "pv_number V (r_action p) = ruleset_kind_to_i32 (any_kind r)"
proof -
  note n = documented_pfD(1) [OF assms(1), unfolded documented_numbers_def]
  show ?thesis
  proof (cases r)
    case (AnyFilter f)
    then show ?thesis using installed_action(1) [of X f p] assms(2) n by (cases "fr_action f") auto
  next
    case (AnyNat m)
    then show ?thesis using installed_action(2) [of X m p] assms(2) n by (cases "nr_action m") auto
  next
    case (AnyRedirect q)
    then show ?thesis using installed_action(3) [of X q p] assms(2) n by (cases "rr_action q") auto
  next
    case (AnyScrub q)
    then show ?thesis using installed_action(4) [of q p] assms(2) n by (cases "sr_action q") auto
  qed
qed

lemma install_target:
  assumes "documented_pf K V" and "install_any X r = Ok (ir_rule x)"
    and "ir_anchor x = nul_terminated anchor (zeros 1024)"
  shows "rule_target V x = slot (any_kind r) anchor"
  using assms(3) install_number [OF assms(1,2)] by (simp add: rule_target_def slot_def)

lemmas keeps_staging =
  keeps_intros keeps_add_rule keeps_begin keeps_open [THEN keeps_rules_active]
  keeps_pool_ticket [THEN keeps_rules_active] keeps_pool_address [THEN keeps_rules_active]

text \<open>
  The four helpers have one course: the name and the rule are copied, a pool ticket is taken, the
  addresses of the rule are registered, the pool is stored in the rule, and the rule is added.
\<close>

definition add_with ::
  "'k kernel \<Rightarrow> externals \<Rightarrow> fd \<Rightarrow> ('r \<Rightarrow> pf_rule \<Rightarrow> pf_rule result) \<Rightarrow> ('r \<Rightarrow> pool_addr list) \<Rightarrow>
   ('r \<Rightarrow> pf_rule \<Rightarrow> pf_rule result) \<Rightarrow> rstring \<Rightarrow> 'r \<Rightarrow> u32 \<Rightarrow> ('k, unit) io" where
  "add_with K X d copy pools finish anchor r ticket =
     io_bind (io_lift (copy_anchor_name anchor (zeros 1024))) (\<lambda>buf.
     io_bind (io_lift (copy r pf_rule_zeroed)) (\<lambda>p.
     io_bind (get_pool_ticket K X d) (\<lambda>t.
     io_bind (io_for (pools r) (\<lambda>a. add_pool_address K X d a t)) (\<lambda>_.
     io_bind (io_lift (finish r p)) (\<lambda>p.
     io_bind (guarded (EEXIST X) (pf_add_rule K d (pfioc_rule_zeroed
       \<lparr>ir_anchor := buf, ir_rule := p, ir_ticket := ticket, ir_pool_ticket := t\<rparr>))) (\<lambda>_.
     io_return ()))))))"

definition finish_filter :: "externals \<Rightarrow> filter_rule \<Rightarrow> pf_rule \<Rightarrow> pf_rule result" where
  "finish_filter X r p = (case get_pool_addr (get_route r) of
       None \<Rightarrow> Ok p
     | Some a \<Rightarrow> obind (pool_addr_list_new X [a]) (\<lambda>l. Ok (install_pool (to_palist l) p)))"

definition finish_nat :: "externals \<Rightarrow> nat_rule \<Rightarrow> pf_rule \<Rightarrow> pf_rule result" where
  "finish_nat X r p = (case get_nat_to r of
       None \<Rightarrow> Ok p
     | Some n \<Rightarrow> install_endpoint X (nat_endpoint_deref n) p)"

lemma install_parts:
  "install_filter X r = obind (filter_rule_copy_to X r pf_rule_zeroed) (finish_filter X r)"
  "install_nat X n = obind (nat_rule_copy_to X n pf_rule_zeroed) (finish_nat X n)"
  by (auto simp: install_filter_def finish_filter_def install_nat_def finish_nat_def intro!: arg_cong2 [where f = obind])

lemma set_rpool_eq:
  "set_rpool X e x = obind (install_endpoint X e (ir_rule x)) (\<lambda>p. Ok (x\<lparr>ir_rule := p\<rparr>))"
  by (simp add: set_rpool_def install_endpoint_def install_pool_def Let_def obind_assoc)

lemma io_lift_obind: "io_lift (obind m f) = io_bind (io_lift m) (\<lambda>x. io_lift (f x))"
  by (cases m) (auto simp: io_lift_def io_bind_def)

lemma zeroed_action [simp]: "pfioc_rule_zeroed\<lparr>ir_action := 0\<rparr> = pfioc_rule_zeroed"
  by (simp add: pfioc_rule_zeroed_def)

lemma tickets_commute:
  "x\<lparr>ir_pool_ticket := t, ir_ticket := u\<rparr> = (x :: pfioc_rule)\<lparr>ir_ticket := u, ir_pool_ticket := t\<rparr>"
  by (cases x) simp

lemma add_filter_rule_eq:
  "add_filter_rule K X d = add_with K X d (filter_rule_copy_to X) filter_pools (finish_filter X)"
  by (intro ext, rename_tac anchor r ticket w, case_tac "get_pool_addr (get_route r)")
    (simp_all add: add_filter_rule_def add_with_def Let_def filter_pools_def finish_filter_def
      install_pool_def io_bind_assoc io_lift_obind)

lemma add_nat_rule_eq:
  "add_nat_rule K X d = add_with K X d (nat_rule_copy_to X) nat_pools (finish_nat X)"
  by (intro ext, rename_tac anchor r ticket w, case_tac "get_nat_to r")
    (simp_all add: add_nat_rule_def add_with_def Let_def nat_pools_def finish_nat_def
      set_rpool_eq io_bind_assoc io_lift_obind tickets_commute)

lemma add_redirect_rule_eq:
  "add_redirect_rule K X d = add_with K X d (redirect_rule_copy_to X) redirect_pools
     (\<lambda>r. install_endpoint X (get_redirect_to r))"
  by (intro ext)
    (simp add: add_redirect_rule_def add_with_def Let_def redirect_pools_def
      set_rpool_eq io_bind_assoc io_lift_obind tickets_commute)

lemma add_scrub_rule_eq:
  "add_scrub_rule K X d = add_with K X d scrub_rule_copy_to (\<lambda>_. []) (\<lambda>_. Ok)"
  by (intro ext) (simp add: add_scrub_rule_def add_with_def Let_def)

lemma add_with_keeps:
  "documented_pf K V \<Longrightarrow> keeps (pv_active V) (add_with K X d copy pools finish anchor r ticket)"
  unfolding add_with_def by (intro keeps_staging)

lemma add_with_stages:
  assumes D: "documented_pf K V"
    and run: "add_with K X d copy pools finish anchor r ticket w = (Ok (), w')"
    and parts: "install r = obind (copy r pf_rule_zeroed) (finish r)"
    and number: "\<And>p. install r = Ok p \<Longrightarrow> pv_number V (r_action p) = ruleset_kind_to_i32 k"
  shows "\<exists>e. entry_of X install pools r = Ok e \<and> stages V (slot k anchor) ticket e (w_kernel w) (w_kernel w')"
proof -
  obtain buf p q t w1 w2 y where buf: "copy_anchor_name anchor (zeros 1024) = Ok buf"
    and pq: "copy r pf_rule_zeroed = Ok p" "finish r p = Ok q"
    and ticket: "get_pool_ticket K X d w = (Ok t, w1)"
    and addresses: "io_for (pools r) (\<lambda>a. add_pool_address K X d a t) w1 = (Ok (), w2)"
    and rule: "guarded (EEXIST X) (pf_add_rule K d (pfioc_rule_zeroed
      \<lparr>ir_anchor := buf, ir_rule := q, ir_ticket := ticket, ir_pool_ticket := t\<rparr>)) w2 = (Ok y, w')"
    using run unfolding add_with_def io_bind_Ok io_lift_eq io_return_eq by auto
  let ?x = "pfioc_rule_zeroed\<lparr>ir_anchor := buf, ir_rule := q, ir_ticket := ticket, ir_pool_ticket := t\<rparr>"
  have x: "install r = Ok (ir_rule ?x)" "ir_ticket ?x = ticket"
    using pq by (simp_all add: parts)
  have "buf = nul_terminated anchor (zeros 1024)" using buf by (simp add: copy_anchor_name_Ok_iff)
  then have target: "rule_target V ?x = slot k anchor"
    using number [OF x(1)] by (simp add: rule_target_def slot_def)
  show ?thesis
    by (rule staging_run [where install = install and pools = pools, OF D ticket addresses rule x(1) target x(2)])
qed

lemmas installed_number =
  install_number [where r = "AnyFilter f" for f, unfolded install_any.simps any_kind.simps]
  install_number [where r = "AnyNat n" for n, unfolded install_any.simps any_kind.simps]
  install_number [where r = "AnyRedirect q" for q, unfolded install_any.simps any_kind.simps]
  install_number [where r = "AnyScrub s" for s, unfolded install_any.simps any_kind.simps]

lemma install_scrub_parts: "install_scrub r = obind (scrub_rule_copy_to r pf_rule_zeroed) Ok"
  by (simp add: install_scrub_def scrub_rule_copy_to_def)

interpretation filter_staged: staged_adder K V "add_filter_rule K X d"
  "entry_of X (install_filter X) filter_pools" "\<lambda>_. RulesetKind_Filter" for K V X d
proof unfold_locales
  assume D: "documented_pf K V"
  show "keeps (pv_active V) (add_filter_rule K X d anchor r ticket)" for anchor r ticket
    unfolding add_filter_rule_eq by (rule add_with_keeps [OF D])
  show "\<exists>e. entry_of X (install_filter X) filter_pools r = Ok e \<and>
      stages V (slot RulesetKind_Filter anchor) ticket e (w_kernel w) (w_kernel w')"
    if "add_filter_rule K X d anchor r ticket w = (Ok (), w')" for anchor r ticket w w'
    using that install_parts(1) installed_number(1) [OF D] unfolding add_filter_rule_eq
    by (rule add_with_stages [OF D])
qed

interpretation nat_staged: staged_adder K V "add_nat_rule K X d"
  "entry_of X (install_nat X) nat_pools" "\<lambda>_. RulesetKind_Nat" for K V X d
proof unfold_locales
  assume D: "documented_pf K V"
  show "keeps (pv_active V) (add_nat_rule K X d anchor r ticket)" for anchor r ticket
    unfolding add_nat_rule_eq by (rule add_with_keeps [OF D])
  show "\<exists>e. entry_of X (install_nat X) nat_pools r = Ok e \<and>
      stages V (slot RulesetKind_Nat anchor) ticket e (w_kernel w) (w_kernel w')"
    if "add_nat_rule K X d anchor r ticket w = (Ok (), w')" for anchor r ticket w w'
    using that install_parts(2) installed_number(2) [OF D] unfolding add_nat_rule_eq
    by (rule add_with_stages [OF D])
qed

interpretation redirect_staged: staged_adder K V "add_redirect_rule K X d"
  "entry_of X (install_redirect X) redirect_pools" "\<lambda>_. RulesetKind_Redirect" for K V X d
proof unfold_locales
  assume D: "documented_pf K V"
  show "keeps (pv_active V) (add_redirect_rule K X d anchor r ticket)" for anchor r ticket
    unfolding add_redirect_rule_eq by (rule add_with_keeps [OF D])
  show "\<exists>e. entry_of X (install_redirect X) redirect_pools r = Ok e \<and>
      stages V (slot RulesetKind_Redirect anchor) ticket e (w_kernel w) (w_kernel w')"
    if "add_redirect_rule K X d anchor r ticket w = (Ok (), w')" for anchor r ticket w w'
    using that install_redirect_def installed_number(3) [OF D] unfolding add_redirect_rule_eq
    by (rule add_with_stages [OF D])
qed

interpretation scrub_staged: staged_adder K V "add_scrub_rule K X d"
  "entry_of X install_scrub (\<lambda>_. [])" "\<lambda>_. RulesetKind_Scrub" for K V X d
proof unfold_locales
  assume D: "documented_pf K V"
  show "keeps (pv_active V) (add_scrub_rule K X d anchor r ticket)" for anchor r ticket
    unfolding add_scrub_rule_eq by (rule add_with_keeps [OF D])
  show "\<exists>e. entry_of X install_scrub (\<lambda>_. []) r = Ok e \<and>
      stages V (slot RulesetKind_Scrub anchor) ticket e (w_kernel w) (w_kernel w')"
    if "add_scrub_rule K X d anchor r ticket w = (Ok (), w')" for anchor r ticket w w'
    using that install_scrub_parts installed_number(4) [OF D] unfolding add_scrub_rule_eq
    by (rule add_with_stages [OF D])
qed

definition any_entry :: "externals \<Rightarrow> any_rule \<Rightarrow> entry result" where
  "any_entry X = entry_of X (install_any X) any_pools"

lemma any_entry_eq:
  "any_entry X (AnyFilter f) = entry_of X (install_filter X) filter_pools f"
  "any_entry X (AnyNat n) = entry_of X (install_nat X) nat_pools n"
  "any_entry X (AnyRedirect q) = entry_of X (install_redirect X) redirect_pools q"
  "any_entry X (AnyScrub s) = entry_of X install_scrub (\<lambda>_. []) s"
  by (simp_all add: any_entry_def entry_of_def)

interpretation any_staged: staged_adder K V "add_any K X d" "any_entry X" any_kind for K V X d
proof unfold_locales
  assume D: "documented_pf K V"
  show "keeps (pv_active V) (add_any K X d anchor r ticket)" for anchor r ticket
    by (cases r) (simp_all add: D filter_staged.adds_keep nat_staged.adds_keep
      redirect_staged.adds_keep scrub_staged.adds_keep)
  show "\<exists>e. any_entry X r = Ok e \<and> stages V (slot (any_kind r) anchor) ticket e (w_kernel w) (w_kernel w')"
    if "add_any K X d anchor r ticket w = (Ok (), w')" for anchor r ticket w w'
    using that by (cases r) (auto simp: any_entry_eq dest: filter_staged.adds_stage [OF D]
      nat_staged.adds_stage [OF D] redirect_staged.adds_stage [OF D] scrub_staged.adds_stage [OF D])
qed

end
