(* ===== verification/FirewallSpec.thy ===== *)
theory FirewallSpec
  imports Firewall
begin

text \<open>
  The effect of the crate's operations on the active rules of a kernel that behaves as
  documented: a commit replaces exactly the rulesets of its transaction or nothing, flushing
  empties one ruleset, and an appended rule is the last of its ruleset. A reference kernel, for
  which the documented behaviour is proved, gives the concrete runs.
\<close>

section \<open>The rulesets of a transaction\<close>

definition change_slot :: "ruleset_kind \<times> rstring \<times> any_rule list \<Rightarrow> ruleset" where
  "change_slot c = (case c of (k, a, rs) \<Rightarrow> slot k a)"

lemma change_slot_simp [simp]: "change_slot (k, a, rs) = slot k a"
  by (simp add: change_slot_def)

lemma ruleset_kind_inject [simp]: "ruleset_kind_to_i32 k = ruleset_kind_to_i32 l \<longleftrightarrow> k = l"
  by (cases k; cases l) simp_all

lemma slot_inject:
  assumes "name_fits 1024 a" and "name_fits 1024 b"
  shows "slot k a = slot l b \<longleftrightarrow> k = l \<and> a = b"
proof -
  have "cstr_until_nul (nul_terminated c (zeros 1024)) = Some c" if "name_fits 1024 c" for c
    using that by (intro cstr_nul_terminated) (simp add: name_fits_def)
  from this [OF assms(1)] this [OF assms(2)]
  have "nul_terminated a (zeros 1024) = nul_terminated b (zeros 1024) \<longleftrightarrow> a = b"
    by (metis option.inject)
  then show ?thesis unfolding slot_def prod.inject ruleset_kind_inject by blast
qed

lemma plan_kinds: "(k, a, rs) \<in> set (plan order t) \<Longrightarrow> r \<in> set rs \<Longrightarrow> any_kind r = k"
  unfolding in_plan_iff by (cases k) auto

lemma distinct_slots:
  assumes "distinct order" and "plan_elements (plan order t) = Ok es"
  shows "distinct (map change_slot (plan order t))"
proof -
  have fits: "name_fits 1024 a" if "(k, a, rs) \<in> set (plan order t)" for k a rs
    using that plan_elements_Ok_iff [of "plan order t"] assms(2) by blast
  have d: "distinct (map (\<lambda>(k, a, rs). (k, a)) (plan order t))"
    by (rule distinct_plan [OF assms(1)])
  then have "distinct (plan order t)" by (simp add: distinct_map)
  moreover have "inj_on change_slot (set (plan order t))"
  proof (rule inj_onI)
    fix x y
    assume m: "x \<in> set (plan order t)" "y \<in> set (plan order t)" and eq: "change_slot x = change_slot y"
    obtain k a rs l b qs where x: "x = (k, a, rs)" and y: "y = (l, b, qs)" by (metis surj_pair)
    then have "k = l \<and> a = b" using m eq fits [of k a rs] fits [of l b qs] by (simp add: slot_inject)
    then have "(\<lambda>(k, a, rs). (k, a)) x = (\<lambda>(k, a, rs). (k, a)) y" by (simp add: x y)
    then show "x = y" using d m by (auto simp: distinct_map dest: inj_onD)
  qed
  ultimately show ?thesis by (simp add: distinct_map)
qed

text \<open>The elements of a plan name its rulesets.\<close>

lemma plan_element_targets:
  "plan_elements p = Ok es \<Longrightarrow> map element_target es = map change_slot p"
proof (induction p arbitrary: es)
  case Nil
  then show ?case by (simp add: plan_elements_def)
next
  case (Cons c p)
  obtain k a rs where c: "c = (k, a, rs)" by (metis surj_pair)
  from Cons.prems obtain e es' where "es = e # es'" "new_trans_element a k = Ok e" "plan_elements p = Ok es'"
    by (auto simp: c plan_elements_def outcome_simps)
  then show ?case
    using Cons.IH by (simp add: c element_target_def slot_def new_trans_element_Ok_iff)
qed

text \<open>Opening the rulesets of elements.\<close>

lemma opened_other: "r \<notin> element_target ` set es \<Longrightarrow> opened es s r = s r"
  unfolding opened_def by (induction es arbitrary: s) auto

lemma opened_at:
  "distinct (map element_target es) \<Longrightarrow> e \<in> set es \<Longrightarrow> opened es s (element_target e) = Some (te_ticket e, [])"
proof (induction es arbitrary: s)
  case (Cons x es)
  show ?case
  proof (cases "e = x")
    case True
    then show ?thesis
      using Cons.prems(1) opened_other [of "element_target x" es "s(element_target x \<mapsto> (te_ticket x, []))"]
      by (simp add: opened_def)
  next
    case False
    then show ?thesis
      using Cons.IH [of "s(element_target x \<mapsto> (te_ticket x, []))"] Cons.prems
      by (simp add: opened_def del: fun_upd_apply)
  qed
qed simp

text \<open>The loop over the changes fills the ruleset of each and no other.\<close>

abbreviation add_changes where
  "add_changes K X d cs \<equiv>
     io_for cs (\<lambda>((anchor, rules), ticket). io_for rules (\<lambda>r. add_any K X d anchor r ticket))"

lemma add_changes_stage:
  assumes D: "documented_pf K V" and "length p = length es"
    and "distinct (map change_slot p)"
    and "\<forall>(k, a, rs) \<in> set p. \<forall>r \<in> set rs. any_kind r = k"
    and "\<forall>(c, e) \<in> set (zip p es). pv_staged V (w_kernel w) (change_slot c) = Some (te_ticket e, [])"
    and "add_changes K X d (ticketed p es) w = (Ok (), w')"
  shows "(\<forall>((k, a, rs), e) \<in> set (zip p es). \<exists>new. map (any_entry X) rs = map Ok new \<and>
      pv_staged V (w_kernel w') (slot k a) = Some (te_ticket e, new)) \<and>
    (\<forall>s. s \<notin> change_slot ` set p \<longrightarrow> pv_staged V (w_kernel w') s = pv_staged V (w_kernel w) s)"
  using assms(2-)
proof (induction p es arbitrary: w rule: list_induct2)
  case Nil
  then show ?case by (simp add: ticketed_def io_simps)
next
  case (Cons c p e es)
  obtain k a rs where c: "c = (k, a, rs)" by (metis surj_pair)
  from Cons.prems(4) obtain w1
    where one: "io_for rs (\<lambda>r. add_any K X d a r (te_ticket e)) w = (Ok (), w1)"
      and rest: "add_changes K X d (ticketed p es) w1 = (Ok (), w')"
    by (auto simp: c ticketed_def io_bind_Ok)
  have kinds: "\<forall>r \<in> set rs. any_kind r = k" using Cons.prems(2) by (simp add: c)
  have o: "pv_staged V (w_kernel w) (slot k a) = Some (te_ticket e, [])"
    using Cons.prems(3) by (simp add: c)
  obtain new where new: "map (any_entry X) rs = map Ok new"
    "pv_staged V (w_kernel w1) = (pv_staged V (w_kernel w))(slot k a \<mapsto> (te_ticket e, new))"
    using any_staged.all_stage [OF D kinds one o] by auto
  have fresh: "slot k a \<notin> change_slot ` set p" using Cons.prems(1) by (simp add: c)
  have "\<forall>(c, e) \<in> set (zip p es). pv_staged V (w_kernel w1) (change_slot c) = Some (te_ticket e, [])"
  proof clarify
    fix l b qs e'
    assume m: "((l, b, qs), e') \<in> set (zip p es)"
    then have "slot l b \<noteq> slot k a" using fresh by (force dest: set_zip_leftD)
    then show "pv_staged V (w_kernel w1) (change_slot (l, b, qs)) = Some (te_ticket e', [])"
      using m Cons.prems(3) new(2) by auto
  qed
  with Cons.IH [OF _ _ _ rest] Cons.prems(1,2)
  have ih: "\<forall>((k, a, rs), e) \<in> set (zip p es). \<exists>new. map (any_entry X) rs = map Ok new \<and>
      pv_staged V (w_kernel w') (slot k a) = Some (te_ticket e, new)"
    "\<forall>s. s \<notin> change_slot ` set p \<longrightarrow> pv_staged V (w_kernel w') s = pv_staged V (w_kernel w1) s"
    by simp_all
  have "pv_staged V (w_kernel w') (slot k a) = Some (te_ticket e, new)"
    using ih(2) [rule_format, OF fresh] new(2) by simp
  then show ?case using ih new by (auto simp: c)
qed

section \<open>Staging and committing\<close>

lemma keeps_stage_changes:
  assumes D: "documented_pf K V"
  shows "keeps (pv_active V) (stage_changes K X order t)"
  unfolding stage_changes_def Let_def
  by (intro keeps_staging D) (auto intro!: keeps_intros any_staged.all_keep [OF D])

lemma trans_elements_all:
  assumes "length (t_array a) < 2 ^ 31" and "t_size a = of_nat (length (t_array a))"
  shows "trans_elements a = t_array a"
proof -
  have "sint (of_nat (length (t_array a)) :: i32) = int (length (t_array a))"
    using assms(1) by (simp add: sint_uint signed_take_bit_int_eq_self unsigned_of_nat take_bit_nat_eq_self)
  then show ?thesis by (simp add: trans_elements_def assms(2))
qed

lemma stage_changes_stages:
  assumes D: "documented_pf K V" and order: "distinct order" and size: "length (plan order t) < 2 ^ 31"
    and run: "stage_changes K X order t w = (Ok (d, tr), w')"
  shows "element_target ` set (trans_elements tr) = change_slot ` set (plan order t)"
    and "\<forall>(k, a, rs) \<in> set (plan order t). \<exists>ticket new. map (any_entry X) rs = map Ok new \<and>
      pv_staged V (w_kernel w') (slot k a) = Some (ticket, new)"
proof -
  let ?p = "plan order t"
  obtain es tr0 w1 w2 where es: "plan_elements ?p = Ok es"
    and began: "guarded (EEXIST X) (pf_begin_trans K d (setup_trans pfioc_trans_zeroed es)) w1 = (Ok tr0, w2)"
    and adds: "add_changes K X d (ticketed ?p (overwrite (t_array tr0) es)) w2 = (Ok (), w')"
    and tr: "tr = tr0\<lparr>t_array := overwrite (t_array tr0) es\<rparr>"
    using run unfolding stage_changes_def Let_def io_bind_Ok io_lift_eq io_return_eq by auto
  have len: "length es = length ?p" by (rule length_plan_elements [OF es])
  note b = begin_Ok [OF D began]
  have targets: "map element_target (t_array tr0) = map change_slot ?p"
    using b(2) plan_element_targets [OF es] by (simp add: setup_trans_def)
  then have len0: "length (t_array tr0) = length ?p" by (metis length_map)
  have arr: "overwrite (t_array tr0) es = t_array tr0"
    using len0 len by (simp add: overwrite_same_length)
  have all: "trans_elements tr0 = t_array tr0"
    using len0 len size b(1) by (intro trans_elements_all) (simp_all add: setup_trans_def)
  then show "element_target ` set (trans_elements tr) = change_slot ` set ?p"
    using targets by (simp add: tr arr) (metis list.set_map)
  have dist: "distinct (map change_slot ?p)" by (rule distinct_slots [OF order es])
  then have "opened (t_array tr0) s (element_target e) = Some (te_ticket e, [])" if "e \<in> set (t_array tr0)" for e s
    using that by (intro opened_at) (simp_all add: targets)
  moreover have "change_slot c = element_target e \<and> e \<in> set (t_array tr0)"
    if "(c, e) \<in> set (zip ?p (t_array tr0))" for c e
    using that arg_cong [OF targets, of "\<lambda>xs. xs ! i" for i] len0
    by (auto simp: in_set_zip) (metis length_map nth_map)
  ultimately have start: "\<forall>(c, e) \<in> set (zip ?p (t_array tr0)).
      pv_staged V (w_kernel w2) (change_slot c) = Some (te_ticket e, [])"
    using b(3) all by auto
  have kinds: "\<forall>(k, a, rs) \<in> set ?p. \<forall>r \<in> set rs. any_kind r = k" using plan_kinds by blast
  have filled: "\<forall>((k, a, rs), e) \<in> set (zip ?p (t_array tr0)). \<exists>new. map (any_entry X) rs = map Ok new \<and>
      pv_staged V (w_kernel w') (slot k a) = Some (te_ticket e, new)"
    using add_changes_stage [OF D len0 [symmetric] dist kinds start adds [unfolded arr]] by blast
  show "\<forall>(k, a, rs) \<in> set ?p. \<exists>ticket new. map (any_entry X) rs = map Ok new \<and>
      pv_staged V (w_kernel w') (slot k a) = Some (ticket, new)"
  proof clarify
    fix k a rs
    assume "(k, a, rs) \<in> set ?p"
    then obtain e where "((k, a, rs), e) \<in> set (zip ?p (t_array tr0))"
      using in_set_impl_in_set_zip1 [of ?p "t_array tr0"] len0 by metis
    with filled show "\<exists>ticket new. map (any_entry X) rs = map Ok new \<and>
        pv_staged V (w_kernel w') (slot k a) = Some (ticket, new)" by blast
  qed
qed

text \<open>The commit request, successful or not.\<close>

lemma commit_trans_active:
  assumes D: "documented_pf K V" and "guarded e (pf_commit_trans K d tr) w = (q, w')"
  shows "pv_active V (w_kernel w') = (case q of
      Ok _ \<Rightarrow> switched (element_target ` set (trans_elements tr)) (pv_staged V (w_kernel w)) (pv_active V (w_kernel w))
    | _ \<Rightarrow> pv_active V (w_kernel w))"
  using assms(2) documented_pfD(6) [OF D]
  by (cases q) (auto simp: pf_commit_trans_def io_simps documented_commit_def simp del: ioctl_request.simps)

text \<open>What a transaction does to the active rulesets.\<close>

definition replaced ::
  "externals \<Rightarrow> (ruleset_kind \<times> rstring \<times> any_rule list) list \<Rightarrow>
   (ruleset \<Rightarrow> entry list) \<Rightarrow> (ruleset \<Rightarrow> entry list) \<Rightarrow> bool" where
  "replaced X p before after \<longleftrightarrow>
     (\<forall>(k, a, rs) \<in> set p. map (any_entry X) rs = map Ok (after (slot k a))) \<and>
     (\<forall>s. s \<notin> change_slot ` set p \<longrightarrow> after s = before s)"

lemma commit_effect:
  assumes D: "documented_pf K V" and order: "distinct order" and size: "length (plan order t) < 2 ^ 31"
    and run: "commit K X order t w = (q, w')"
  shows "if q = Ok () then replaced X (plan order t) (pv_active V (w_kernel w)) (pv_active V (w_kernel w'))
    else pv_active V (w_kernel w') = pv_active V (w_kernel w)"
proof -
  obtain s w1 where s: "stage_changes K X order t w = (s, w1)" by fastforce
  have same: "pv_active V (w_kernel w1) = pv_active V (w_kernel w)"
    by (rule keepsD [where m = "stage_changes K X order t", OF keeps_stage_changes [OF D] s])
  show ?thesis
  proof (cases s)
    case (Ok x)
    obtain d tr where x: "x = (d, tr)" by fastforce
    obtain q' where q': "guarded (EEXIST X) (pf_commit_trans K d tr) w1 = (q', w')"
      and q: "q = Ok () \<longleftrightarrow> (\<exists>y. q' = Ok y)"
      using run s Ok x
      by (cases "guarded (EEXIST X) (pf_commit_trans K d tr) w1")
        (auto simp: commit_eq_staged io_bind_def io_return_def split: outcome.splits)
    note act = commit_trans_active [OF D q']
    note staged = stage_changes_stages [OF D order size s [unfolded Ok x]]
    show ?thesis
    proof (cases "q = Ok ()")
      case True
      then obtain y where y: "q' = Ok y" using q by blast
      have after: "pv_active V (w_kernel w') =
          switched (change_slot ` set (plan order t)) (pv_staged V (w_kernel w1)) (pv_active V (w_kernel w))"
        using act y same staged(1) by simp
      have "map (any_entry X) rs = map Ok (pv_active V (w_kernel w') (slot k a))"
        if m: "(k, a, rs) \<in> set (plan order t)" for k a rs
      proof -
        obtain ticket new where "map (any_entry X) rs = map Ok new"
          "pv_staged V (w_kernel w1) (slot k a) = Some (ticket, new)"
          using staged(2) m by blast
        moreover have "slot k a \<in> change_slot ` set (plan order t)" using m by force
        ultimately show ?thesis by (simp add: after switched_def)
      qed
      then show ?thesis using True by (auto simp: replaced_def after switched_def)
    next
      case False
      then show ?thesis using act q same by (cases q') auto
    qed
  next
    case (Err e)
    then show ?thesis using run s same by (auto simp: commit_eq_staged io_bind_def)
  next
    case Panic
    then show ?thesis using run s same by (auto simp: commit_eq_staged io_bind_def)
  qed
qed

section \<open>Appending a rule\<close>

definition appended_entry :: "externals \<Rightarrow> any_rule \<Rightarrow> entry result" where
  "appended_entry X = entry_of X (appended_rule X) appended_pools"

text \<open>A failure leaves the active rules as they were.\<close>

definition fails_safe :: "('k \<Rightarrow> 'o) \<Rightarrow> ('k, 'a) io \<Rightarrow> bool" where
  "fails_safe f m \<longleftrightarrow>
     (\<forall>w q w'. m w = (q, w') \<longrightarrow> \<not> is_ok q \<longrightarrow> f (w_kernel w') = f (w_kernel w))"

lemma fails_safeD:
  "fails_safe f m \<Longrightarrow> m w = (q, w') \<Longrightarrow> \<not> is_ok q \<Longrightarrow> f (w_kernel w') = f (w_kernel w)"
  by (simp add: fails_safe_def)

lemma fails_safe_bind:
  assumes "keeps f m" and "\<And>x. fails_safe f (g x)"
  shows "fails_safe f (io_bind m g)"
  using assms unfolding keeps_def fails_safe_def io_bind_def by (auto split: prod.splits outcome.splits)

lemma fails_safe_change:
  assumes D: "documented_pf K V"
  shows "fails_safe (pv_active V) (io_bind (guarded e (pf_change_rule K d x)) (\<lambda>_. io_return ()))"
  unfolding fails_safe_def
proof (intro allI impI)
  fix w q w'
  assume "io_bind (guarded e (pf_change_rule K d x)) (\<lambda>_. io_return ()) w = (q, w')" "\<not> is_ok q"
  then show "pv_active V (w_kernel w') = pv_active V (w_kernel w)"
    using documented_pfD(7) [OF D]
    by (cases q) (auto simp: pf_change_rule_def io_simps documented_change_def simp del: ioctl_request.simps)
qed

lemma change_Ok:
  assumes D: "documented_pf K V" and "guarded e (pf_change_rule K d x) w = (Ok y, w')"
    and "ir_action x = PF_CHANGE_ADD_TAIL_u32"
  shows "pv_active V (w_kernel w') = (pv_active V (w_kernel w))
    (rule_target V x := pv_active V (w_kernel w) (rule_target V x) @ [(ir_rule x, pv_pool V (w_kernel w))])"
proof -
  obtain ret errno where "sys_rule K (ioctl_request PfChangeRule) d x (w_kernel w) = (ret, errno, y, w_kernel w')"
    "ret \<noteq> - 1"
    using assms(2) by (auto simp: pf_change_rule_def io_simps simp del: ioctl_request.simps)
  then show ?thesis
    using documented_pfD(7) [OF D] assms(3)
    unfolding documented_change_def PF_CHANGE_ADD_TAIL_u32_def by blast
qed

lemma keeps_get_ticket:
  assumes D: "documented_pf K V"
  shows "keeps (\<lambda>k. (pv_active V k, pv_pool V k)) (get_ticket K X d anchor k)"
proof -
  have "pv_active V (snd (snd (snd (sys_rule K (ioctl_request PfChangeRule) d x s)))) = pv_active V s \<and>
      pv_pool V (snd (snd (snd (sys_rule K (ioctl_request PfChangeRule) d x s)))) = pv_pool V s"
    if "ir_action x = bindgen_ty_11_as_u32 PF_CHANGE_GET_TICKET" for x s
    using documented_pfD(7) [OF D] that by (cases "sys_rule K (ioctl_request PfChangeRule) d x s")
      (auto simp: documented_change_def simp del: ioctl_request.simps bindgen_ty_11_as_u32.simps)
  then show ?thesis
    unfolding get_ticket_def pf_change_rule_def Let_def
    by (intro keeps_intros keeps_call) simp
qed

lemma keeps_active_ticket: "documented_pf K V \<Longrightarrow> keeps (pv_active V) (get_ticket K X d anchor k)"
  using keeps_get_ticket [of K V X d anchor k] by (simp add: keeps_def)

text \<open>The common courses of the four operations.\<close>

definition append_plain ::
  "'k kernel \<Rightarrow> externals \<Rightarrow> fd \<Rightarrow> (pf_rule \<Rightarrow> pf_rule result) \<Rightarrow> rstring \<Rightarrow> anchor_kind \<Rightarrow> ('k, unit) io" where
  "append_plain K X d copy anchor k =
     io_bind (get_pool_ticket K X d) (\<lambda>t.
     io_bind (get_ticket K X d anchor k) (\<lambda>ticket.
     io_bind (io_lift (copy_anchor_name anchor (zeros 1024))) (\<lambda>buf.
     io_bind (io_lift (copy pf_rule_zeroed)) (\<lambda>p.
     io_bind (guarded (EEXIST X) (pf_change_rule K d (pfioc_rule_zeroed
       \<lparr>ir_pool_ticket := t, ir_ticket := ticket, ir_anchor := buf, ir_rule := p,
        ir_action := PF_CHANGE_ADD_TAIL_u32\<rparr>))) (\<lambda>_. io_return ())))))"

definition append_pool ::
  "'k kernel \<Rightarrow> externals \<Rightarrow> fd \<Rightarrow> (pf_rule \<Rightarrow> pf_rule result) \<Rightarrow> pool_addr list \<Rightarrow>
   (pf_rule \<Rightarrow> pf_rule result) \<Rightarrow> rstring \<Rightarrow> anchor_kind \<Rightarrow> ('k, unit) io" where
  "append_pool K X d copy pools finish anchor k =
     io_bind (io_lift (copy_anchor_name anchor (zeros 1024))) (\<lambda>buf.
     io_bind (io_lift (copy pf_rule_zeroed)) (\<lambda>p.
     io_bind (get_pool_ticket K X d) (\<lambda>t.
     io_bind (io_for pools (\<lambda>a. add_pool_address K X d a t)) (\<lambda>_.
     io_bind (io_lift (finish p)) (\<lambda>p.
     io_bind (get_ticket K X d anchor k) (\<lambda>ticket.
     io_bind (guarded (EEXIST X) (pf_change_rule K d (pfioc_rule_zeroed
       \<lparr>ir_anchor := buf, ir_rule := p, ir_pool_ticket := t, ir_ticket := ticket,
        ir_action := PF_CHANGE_ADD_TAIL_u32\<rparr>))) (\<lambda>_. io_return ())))))))"

lemma append_any_eq:
  "append_any K X c anchor (AnyFilter r) =
     append_plain K X (ctl_file c) (filter_rule_copy_to X r) anchor AnchorKind_Filter"
  "append_any K X c anchor (AnyScrub s) =
     append_plain K X (ctl_file c) (scrub_rule_copy_to s) anchor AnchorKind_Scrub"
  "append_any K X c anchor (AnyNat n) =
     append_pool K X (ctl_file c) (nat_rule_copy_to X n) (nat_pools n) (finish_nat X n) anchor AnchorKind_Nat"
  "append_any K X c anchor (AnyRedirect q) =
     append_pool K X (ctl_file c) (redirect_rule_copy_to X q) (redirect_pools q)
       (install_endpoint X (get_redirect_to q)) anchor AnchorKind_Redirect"
proof -
  show "append_any K X c anchor (AnyNat n) =
     append_pool K X (ctl_file c) (nat_rule_copy_to X n) (nat_pools n) (finish_nat X n) anchor AnchorKind_Nat"
    by (cases "get_nat_to n") (simp_all add: add_nat_rule_now_def append_pool_def Let_def nat_pools_def
      finish_nat_def set_rpool_eq io_bind_assoc io_lift_obind)
qed (simp_all add: add_rule_def add_scrub_rule_now_def add_redirect_rule_now_def append_plain_def
      append_pool_def Let_def redirect_pools_def set_rpool_eq io_bind_assoc io_lift_obind)

lemma append_fails_safe:
  assumes D: "documented_pf K V"
  shows "fails_safe (pv_active V) (append_any K X c anchor r)"
proof -
  have "fails_safe (pv_active V) (append_plain K X d copy anchor k)"
    "fails_safe (pv_active V) (append_pool K X d copy pools finish anchor k)" for d copy anchor k pools finish
    unfolding append_plain_def append_pool_def
    by (intro fails_safe_bind fails_safe_change keeps_staging keeps_active_ticket D)+
  then show ?thesis by (cases r) (simp_all only: append_any_eq)
qed

text \<open>A success adds one entry at the end of one ruleset.\<close>

definition appended_at :: "ruleset \<Rightarrow> entry \<Rightarrow> (ruleset \<Rightarrow> entry list) \<Rightarrow> ruleset \<Rightarrow> entry list" where
  "appended_at s e act = act(s := act s @ [e])"

lemma get_ticket_same:
  assumes "documented_pf K V" and "get_ticket K X d anchor k w = (q, w')"
  shows "pv_active V (w_kernel w') = pv_active V (w_kernel w)" "pv_pool V (w_kernel w') = pv_pool V (w_kernel w)"
  using assms keeps_get_ticket [OF assms(1), of X d anchor k] by (simp_all add: keeps_def)

lemma append_plain_Ok:
  assumes D: "documented_pf K V" and run: "append_plain K X d copy anchor k w = (Ok (), w')"
    and number: "\<And>p. copy pf_rule_zeroed = Ok p \<Longrightarrow> pv_number V (r_action p) = ruleset_kind_to_i32 rk"
  shows "\<exists>p. copy pf_rule_zeroed = Ok p \<and>
    pv_active V (w_kernel w') = appended_at (slot rk anchor) (p, []) (pv_active V (w_kernel w))"
proof -
  obtain t w1 ticket w2 buf p y where buf: "copy_anchor_name anchor (zeros 1024) = Ok buf"
    and p: "copy pf_rule_zeroed = Ok p" and pool: "get_pool_ticket K X d w = (Ok t, w1)"
    and ticket: "get_ticket K X d anchor k w1 = (Ok ticket, w2)"
    and change: "guarded (EEXIST X) (pf_change_rule K d (pfioc_rule_zeroed
       \<lparr>ir_pool_ticket := t, ir_ticket := ticket, ir_anchor := buf, ir_rule := p,
        ir_action := PF_CHANGE_ADD_TAIL_u32\<rparr>)) w2 = (Ok y, w')"
    using run unfolding append_plain_def io_bind_Ok io_lift_eq io_return_eq by auto
  have "buf = nul_terminated anchor (zeros 1024)" using buf by (simp add: copy_anchor_name_Ok_iff)
  moreover have "pv_active V (w_kernel w2) = pv_active V (w_kernel w)"
    using get_ticket_same [OF D ticket] keepsD [OF keeps_pool_ticket [OF D] pool] by (simp add: pv_rules_def)
  moreover have "pv_pool V (w_kernel w2) = []"
    using get_ticket_same [OF D ticket] pool_ticket_Ok [OF D pool] by simp
  ultimately show ?thesis
    using change_Ok [OF D change] p number [OF p] by (simp add: rule_target_def slot_def appended_at_def)
qed

lemma append_pool_Ok:
  assumes D: "documented_pf K V" and run: "append_pool K X d copy pools finish anchor k w = (Ok (), w')"
    and number: "\<And>p. obind (copy pf_rule_zeroed) finish = Ok p \<Longrightarrow> pv_number V (r_action p) = ruleset_kind_to_i32 rk"
  shows "\<exists>p as. obind (copy pf_rule_zeroed) finish = Ok p \<and>
    collect_results (map (\<lambda>a. pool_addr_copy_to X a pf_pooladdr_zeroed) pools) = Ok as \<and>
    pv_active V (w_kernel w') = appended_at (slot rk anchor) (p, as) (pv_active V (w_kernel w))"
proof -
  obtain t w1 ticket w2 w3 buf p0 p y where buf: "copy_anchor_name anchor (zeros 1024) = Ok buf"
    and p: "copy pf_rule_zeroed = Ok p0" "finish p0 = Ok p" and pool: "get_pool_ticket K X d w = (Ok t, w1)"
    and addresses: "io_for pools (\<lambda>a. add_pool_address K X d a t) w1 = (Ok (), w2)"
    and ticket: "get_ticket K X d anchor k w2 = (Ok ticket, w3)"
    and change: "guarded (EEXIST X) (pf_change_rule K d (pfioc_rule_zeroed
       \<lparr>ir_anchor := buf, ir_rule := p, ir_pool_ticket := t, ir_ticket := ticket,
        ir_action := PF_CHANGE_ADD_TAIL_u32\<rparr>)) w3 = (Ok y, w')"
    using run unfolding append_pool_def io_bind_Ok io_lift_eq io_return_eq by auto
  obtain as where as: "collect_results (map (\<lambda>a. pool_addr_copy_to X a pf_pooladdr_zeroed) pools) = Ok as"
    "pv_pool V (w_kernel w2) = as"
    using pool_addresses_Ok [OF D addresses] pool_ticket_Ok [OF D pool] by auto
  have all: "keeps (pv_rules V) (io_for pools (\<lambda>p. add_pool_address K X d p t))"
    by (intro keeps_intros keeps_pool_address D)
  have "pv_rules V (w_kernel w2) = pv_rules V (w_kernel w1)"
    by (rule keepsD [where m = "io_for pools (\<lambda>p. add_pool_address K X d p t)", OF all addresses])
  then have "pv_active V (w_kernel w3) = pv_active V (w_kernel w)"
    using get_ticket_same [OF D ticket] keepsD [OF keeps_pool_ticket [OF D] pool] by (simp add: pv_rules_def)
  moreover have "buf = nul_terminated anchor (zeros 1024)" using buf by (simp add: copy_anchor_name_Ok_iff)
  moreover have q: "obind (copy pf_rule_zeroed) finish = Ok p" using p by simp
  ultimately show ?thesis
    using change_Ok [OF D change] number [OF q] as get_ticket_same [OF D ticket]
    by (simp add: rule_target_def slot_def appended_at_def)
qed

lemma append_Ok:
  assumes D: "documented_pf K V" and run: "append_any K X c anchor r w = (Ok (), w')"
  shows "\<exists>e. appended_entry X r = Ok e \<and>
    pv_active V (w_kernel w') = appended_at (slot (any_kind r) anchor) e (pv_active V (w_kernel w))"
proof (cases r)
  case (AnyFilter f)
  have "pv_number V (r_action p) = ruleset_kind_to_i32 RulesetKind_Filter"
    if "filter_rule_copy_to X f pf_rule_zeroed = Ok p" for p
    using copied_action(1) [OF that] documented_pfD(1) [OF D]
    by (cases "fr_action f") (simp_all add: documented_numbers_def)
  from append_plain_Ok [OF D run [unfolded AnyFilter append_any_eq] this] show ?thesis
    by (auto simp: AnyFilter appended_entry_def entry_of_def)
next
  case (AnyNat n)
  from append_pool_Ok [OF D run [unfolded AnyNat append_any_eq] installed_number(2) [OF D, of X n, unfolded install_parts]]
  show ?thesis by (auto simp: AnyNat appended_entry_def entry_of_def install_parts)
next
  case (AnyRedirect q)
  from append_pool_Ok [OF D run [unfolded AnyRedirect append_any_eq]
    installed_number(3) [OF D, of X q, unfolded install_redirect_def]]
  show ?thesis by (auto simp: AnyRedirect appended_entry_def entry_of_def install_redirect_def)
next
  case (AnyScrub s)
  have "pv_number V (r_action p) = ruleset_kind_to_i32 RulesetKind_Scrub"
    if "scrub_rule_copy_to s pf_rule_zeroed = Ok p" for p
    using that by (intro installed_number(4) [OF D, of s p]) (simp add: install_scrub_def)
  from append_plain_Ok [OF D run [unfolded AnyScrub append_any_eq] this] show ?thesis
    by (auto simp: AnyScrub appended_entry_def entry_of_def install_scrub_def)
qed

section \<open>A reference kernel\<close>

text \<open>It keeps the rules as the manual page describes; a request with a wrong ticket is refused
  with \<open>EBUSY\<close>. Rules are listed, inserted at the front and deleted one at a time.\<close>

record pf_state =
  pm_active :: "ruleset \<Rightarrow> entry list"
  pm_staged :: "ruleset \<Rightarrow> (u32 \<times> entry list) option"
  pm_pool :: "u32 \<times> pf_pooladdr list"
  pm_next :: u32

definition action_number :: "u8 \<Rightarrow> i32" where
  "action_number a =
     (if a = 0 \<or> a = 1 then 1 else if a = 4 \<or> a = 5 then 2 else if a = 8 \<or> a = 9 then 4 else 0)"

definition machine_view :: "pf_state pf_view" where
  "machine_view = \<lparr>pv_number = action_number, pv_active = pm_active, pv_staged = pm_staged,
     pv_pool = (\<lambda>s. snd (pm_pool s))\<rparr>"

definition machine_rule :: "request \<Rightarrow> fd \<Rightarrow> pfioc_rule \<Rightarrow> pf_state \<Rightarrow> i32 \<times> i32 \<times> pfioc_rule \<times> pf_state" where
  "machine_rule rq d a s =
    (let target = rule_target machine_view a; entry = (ir_rule a, snd (pm_pool s));
         rs = pm_active s target; i = unat (ir_nr a) in
     if rq = ioctl_request PfAddRule then
       (case pm_staged s target of
          Some (ticket, es) \<Rightarrow>
            if ticket = ir_ticket a \<and> fst (pm_pool s) = ir_pool_ticket a
            then (0, 0, a, s\<lparr>pm_staged := (pm_staged s)(target \<mapsto> (ticket, es @ [entry]))\<rparr>)
            else (- 1, 16, a, s)
        | None \<Rightarrow> (- 1, 16, a, s))
     else if rq = ioctl_request PfChangeRule then
       (if ir_action a = 6 then (0, 0, a\<lparr>ir_ticket := pm_next s\<rparr>, s\<lparr>pm_next := pm_next s + 1\<rparr>)
        else if ir_action a = 2 then
          (0, 0, a, s\<lparr>pm_active := (pm_active s)(target := pm_active s target @ [entry])\<rparr>)
        else (- 1, 22, a, s))
     else if rq = ioctl_request PfGetRules then (0, 0, a\<lparr>ir_nr := of_nat (length rs)\<rparr>, s)
     else if rq = ioctl_request PfGetRule \<and> i < length rs \<and> action_number (r_action (fst (rs ! i))) = fst target then
       (0, 0, a\<lparr>ir_rule := fst (rs ! i)\<rparr>, s)
     else if rq = ioctl_request PfInsertRule then
       (0, 0, a, s\<lparr>pm_active := (pm_active s)(target := (ir_rule a, []) # rs)\<rparr>)
     else if rq = ioctl_request PfDeleteRule \<and> i < length rs then
       (0, 0, a, s\<lparr>pm_active := (pm_active s)(target := take i rs @ drop (Suc i) rs)\<rparr>)
     else (- 1, 22, a, s))"

definition machine_pool :: "request \<Rightarrow> fd \<Rightarrow> pfioc_pooladdr \<Rightarrow> pf_state \<Rightarrow> i32 \<times> i32 \<times> pfioc_pooladdr \<times> pf_state" where
  "machine_pool rq d a s =
     (if rq = ioctl_request PfBeginAddrs then
        (0, 0, a\<lparr>ipa_ticket := pm_next s\<rparr>, s\<lparr>pm_pool := (pm_next s, []), pm_next := pm_next s + 1\<rparr>)
      else if fst (pm_pool s) = ipa_ticket a then
        (0, 0, a, s\<lparr>pm_pool := (fst (pm_pool s), snd (pm_pool s) @ [ipa_addr a])\<rparr>)
      else (- 1, 16, a, s))"

definition machine_trans :: "request \<Rightarrow> fd \<Rightarrow> pfioc_trans \<Rightarrow> pf_state \<Rightarrow> i32 \<times> i32 \<times> pfioc_trans \<times> pf_state" where
  "machine_trans rq d a s =
     (if rq = ioctl_request PfBeginTrans then
        (let a = a\<lparr>t_array := map (\<lambda>e. e\<lparr>te_ticket := pm_next s\<rparr>) (t_array a)\<rparr> in
         (0, 0, a, s\<lparr>pm_staged := opened (trans_elements a) (pm_staged s), pm_next := pm_next s + 1\<rparr>))
      else if rq = ioctl_request PfCommitTrans then
        (0, 0, a, s\<lparr>pm_active := switched (element_target ` set (trans_elements a)) (pm_staged s) (pm_active s)\<rparr>)
      else (- 1, 22, a, s))"

definition pf_machine :: "pf_state kernel" where
  "pf_machine =
     \<lparr>sys_open = (\<lambda>path s. (Inr 3, s)),
      sys_none = (\<lambda>rq d s. (0, 0, (), s)),
      sys_rule = machine_rule,
      sys_state_kill = (\<lambda>rq d a s. (0, 0, a, s)),
      sys_status = (\<lambda>rq d a s. (0, 0, a, s)),
      sys_states = (\<lambda>rq d a s. (0, 0, a, s)),
      sys_pooladdr = machine_pool,
      sys_trans = machine_trans,
      sys_iface = (\<lambda>rq d a s. (0, 0, a, s))\<rparr>"

lemma machine_numbers: "documented_numbers machine_view"
  by (simp add: documented_numbers_def machine_view_def action_number_def)

lemma machine_documented: "documented_pf pf_machine machine_view"
proof -
  note req = ioctl_request_inject
  have "documented_open pf_machine machine_view"
    by (simp add: documented_open_def pf_machine_def)
  moreover have "documented_pool pf_machine machine_view"
    by (auto simp: documented_pool_def pf_machine_def machine_pool_def machine_view_def pv_rules_def req
        simp del: ioctl_request.simps split: if_splits)
  moreover have "documented_add_rule pf_machine machine_view"
    by (auto simp: documented_add_rule_def pf_machine_def machine_rule_def machine_view_def req Let_def
        simp del: ioctl_request.simps split: if_splits option.splits)
  moreover have "documented_begin pf_machine machine_view"
    by (auto simp: documented_begin_def pf_machine_def machine_trans_def machine_view_def req Let_def
        element_target_def simp del: ioctl_request.simps)
  moreover have "documented_commit pf_machine machine_view"
    by (auto simp: documented_commit_def pf_machine_def machine_trans_def machine_view_def req
        simp del: ioctl_request.simps)
  moreover have "documented_change pf_machine machine_view"
    by (auto simp: documented_change_def pf_machine_def machine_rule_def machine_view_def req Let_def
        simp del: ioctl_request.simps split: if_splits)
  ultimately show ?thesis by (simp add: documented_pf_def machine_numbers)
qed

section \<open>Flushing\<close>

text \<open>The transaction of a flush has one element and no rule.\<close>

lemma flush_commits:
  "\<exists>t. (\<forall>w. flush_rules K X anchor k w = commit K X [anchor] t w) \<and> plan [anchor] t = [(k, anchor, [])]"
proof -
  define c where "c = (case k of
      RulesetKind_Filter \<Rightarrow> set_filter_rules [] anchor_change_new
    | RulesetKind_Nat \<Rightarrow> set_nat_rules [] anchor_change_new
    | RulesetKind_Redirect \<Rightarrow> set_redirect_rules [] anchor_change_new
    | RulesetKind_Scrub \<Rightarrow> set_scrub_rules [] anchor_change_new)"
  have "plan [anchor] (add_change anchor c transaction_new) = [(k, anchor, [])]"
    by (cases k) (simp_all add: c_def plan_def partition_changes_def List.map_filter_simps add_change_def
        transaction_new_def set_filter_rules_def set_nat_rules_def set_redirect_rules_def
        set_scrub_rules_def anchor_change_new_def)
  moreover have "flush_rules K X anchor k w = commit K X [anchor] (add_change anchor c transaction_new) w" for w
    by (cases k) (simp_all add: flush_rules_def c_def)
  ultimately show ?thesis by blast
qed

lemma flush_active:
  assumes "documented_pf K V" and "flush_rules K X anchor k w = (q, w')"
  shows "pv_active V (w_kernel w') =
    (if q = Ok () then (pv_active V (w_kernel w))(slot k anchor := []) else pv_active V (w_kernel w))"
proof -
  obtain t where t: "\<forall>w. flush_rules K X anchor k w = commit K X [anchor] t w" "plan [anchor] t = [(k, anchor, [])]"
    using flush_commits by blast
  have "if q = Ok () then replaced X [(k, anchor, [])] (pv_active V (w_kernel w)) (pv_active V (w_kernel w'))
      else pv_active V (w_kernel w') = pv_active V (w_kernel w)"
    using commit_effect [OF assms(1), of "[anchor]" t X w q w', unfolded t(2)] assms(2) t(1) by simp
  then show ?thesis by (auto simp: replaced_def fun_eq_iff)
qed

section \<open>Properties\<close>

text \<open>
  C1. A commit replaces rulesets atomically, on every kernel that behaves as documented: after a
  success, the active rules of every ruleset that the transaction changes are exactly the
  requested rules, in order, each as the struct it installs and with its pool addresses, and
  every other ruleset is as before; after any failure, at whatever call, all active rules are
  as before.
\<close>

theorem commit_replaces_rulesets:
  assumes "documented_pf K V" and "distinct order" and "set order = dom (change_by_anchor t)"
    and "length (plan order t) < 2 ^ 31" and "commit K X order t w = (q, w')"
  shows "if q = Ok () then
      (\<forall>a c k rs. change_by_anchor t a = Some c \<and> requested k c = Some rs \<longrightarrow>
         map (any_entry X) rs = map Ok (pv_active V (w_kernel w') (slot k a))) \<and>
      (\<forall>s. (\<forall>a c k. change_by_anchor t a = Some c \<and> requested k c \<noteq> None \<longrightarrow> s \<noteq> slot k a) \<longrightarrow>
         pv_active V (w_kernel w') s = pv_active V (w_kernel w) s)
    else pv_active V (w_kernel w') = pv_active V (w_kernel w)"
proof (cases "q = Ok ()")
  case True
  then have r: "replaced X (plan order t) (pv_active V (w_kernel w)) (pv_active V (w_kernel w'))"
    using commit_effect [OF assms(1,2,4,5)] by simp
  have in_plan: "(k, a, rs) \<in> set (plan order t) \<longleftrightarrow>
      (\<exists>c. change_by_anchor t a = Some c \<and> requested k c = Some rs)" for k a rs
    using assms(3) by (auto simp: in_plan_iff)
  have "pv_active V (w_kernel w') s = pv_active V (w_kernel w) s"
    if "\<forall>a c k. change_by_anchor t a = Some c \<and> requested k c \<noteq> None \<longrightarrow> s \<noteq> slot k a" for s
  proof -
    have "s \<notin> change_slot ` set (plan order t)" using that in_plan by fastforce
    then show ?thesis using r unfolding replaced_def by blast
  qed
  moreover have "map (any_entry X) rs = map Ok (pv_active V (w_kernel w') (slot k a))"
    if "change_by_anchor t a = Some c \<and> requested k c = Some rs" for a c k rs
    using that r in_plan [of k a rs] unfolding replaced_def by blast
  ultimately show ?thesis using True by auto
qed (use commit_effect [OF assms(1,2,4,5)] in simp)

text \<open>A kernel on which every ruleset holds one rule.\<close>

definition machine_world :: "pf_state world" where
  "machine_world = \<lparr>w_kernel = \<lparr>pm_active = (\<lambda>_. [(pf_rule_zeroed, [])]), pm_staged = (\<lambda>_. None),
     pm_pool = (0, []), pm_next = 1\<rparr>, w_calls = []\<rparr>"

lemma machine_sel [simp]:
  "pv_active machine_view = pm_active"
  "pm_active (w_kernel machine_world) = (\<lambda>_. [(pf_rule_zeroed, [])])"
  by (simp_all add: machine_view_def machine_world_def)

lemma commit_replaces_rulesets_witness:
  "case commit pf_machine macos [[97]] sample_transaction machine_world of (q, w') \<Rightarrow>
     if q = Ok () then pm_active (w_kernel w') (slot RulesetKind_Filter [97]) = [] \<and>
       pm_active (w_kernel w') (slot RulesetKind_Nat [97]) = [(pf_rule_zeroed, [])]
     else pm_active (w_kernel w') = (\<lambda>_. [(pf_rule_zeroed, [])])"
proof -
  obtain q w' where run: "commit pf_machine macos [[97]] sample_transaction machine_world = (q, w')"
    by fastforce
  have dom: "set [[97]] = dom (change_by_anchor sample_transaction)"
    by (simp add: sample_transaction_def add_change_def transaction_new_def)
  have size: "length (plan [[97]] sample_transaction) < 2 ^ 31"
    by (simp add: plan_def partition_changes_def List.map_filter_simps sample_transaction_def
        add_change_def transaction_new_def set_scrub_rules_def set_filter_rules_def anchor_change_new_def)
  have fits: "name_fits 1024 [97 :: u8]" by (simp add: name_fits_def)
  note * = commit_replaces_rulesets [OF machine_documented _ dom size run]
  have c: "change_by_anchor sample_transaction a = Some c \<and> requested k c = Some rs \<longleftrightarrow>
      a = [97] \<and> c = set_scrub_rules [\<lparr>sr_action = ScrubRuleAction_Scrub, sr_direction = Direction_In\<rparr>]
        (set_filter_rules [] anchor_change_new) \<and>
      (k = RulesetKind_Filter \<and> rs = [] \<or>
       k = RulesetKind_Scrub \<and> rs = [AnyScrub \<lparr>sr_action = ScrubRuleAction_Scrub, sr_direction = Direction_In\<rparr>])"
    for a c k rs
    by (cases k) (auto simp: sample_transaction_def add_change_def transaction_new_def set_scrub_rules_def
        set_filter_rules_def anchor_change_new_def)
  show ?thesis
  proof (cases "q = Ok ()")
    case True
    then have all: "\<forall>a c k rs. change_by_anchor sample_transaction a = Some c \<and> requested k c = Some rs \<longrightarrow>
        map (any_entry macos) rs = map Ok (pm_active (w_kernel w') (slot k a))"
      and other: "\<forall>s. (\<forall>a c k. change_by_anchor sample_transaction a = Some c \<and> requested k c \<noteq> None \<longrightarrow>
        s \<noteq> slot k a) \<longrightarrow> pm_active (w_kernel w') s = [(pf_rule_zeroed, [])]"
      using * by simp_all
    have "map (any_entry macos) [] = map Ok (pm_active (w_kernel w') (slot RulesetKind_Filter [97]))"
      using all c by blast
    then have "pm_active (w_kernel w') (slot RulesetKind_Filter [97]) = []" by simp
    moreover have "slot RulesetKind_Nat [97] \<noteq> slot k a"
      if "change_by_anchor sample_transaction a = Some c" "requested k c = Some rs" for a c k rs
    proof -
      have "a = [97]" "k \<noteq> RulesetKind_Nat" using that c [of a c k rs] by auto
      then show ?thesis using slot_inject [OF fits fits, of RulesetKind_Nat k] by simp
    qed
    then have "pm_active (w_kernel w') (slot RulesetKind_Nat [97]) = [(pf_rule_zeroed, [])]"
      using other by blast
    ultimately show ?thesis by (simp add: run True)
  next
    case False
    then show ?thesis using * by (simp add: run)
  qed
qed

text \<open>
  C18. Flushing the rules of a kind empties exactly that ruleset of the anchor on every kernel that
  behaves as documented, and changes no active rule when it fails.
\<close>

theorem flush_empties:
  assumes "documented_pf K V" and "flush_rules K X anchor k w = (q, w')"
  shows "pv_active V (w_kernel w') =
    (if q = Ok () then (pv_active V (w_kernel w))(slot k anchor := []) else pv_active V (w_kernel w))"
  using assms by (rule flush_active)

text \<open>On the reference kernel flushing succeeds.\<close>

lemma machine_flushes: "fst (flush_rules pf_machine macos [97] k machine_world) = Ok ()"
proof -
  have f: "name_fits 1024 [97 :: u8]" by (simp add: name_fits_def)
  define e where "e = \<lparr>te_rs_num = ruleset_kind_to_i32 k,
    te_anchor = nul_terminated [97] (zeros 1024), te_ticket = 0\<rparr>"
  have e: "new_trans_element [97] k = Ok e"
    by (simp only: new_trans_element_Ok_iff f e_def)
  obtain t where t: "\<forall>w. flush_rules pf_machine macos [97] k w = commit pf_machine macos [[97]] t w"
    and p: "plan [[97]] t = [(k, [97], [])]"
    using flush_commits by blast
  show ?thesis
    unfolding t [rule_format]
    by (simp add: commit_eq_spec commit_spec_def p plan_elements_def e Let_def ticketed_def
        io_bind_def io_return_def io_lift_def guarded_def call_def ioctl_guard_def IOCTL_ERROR_def
        open_pf_def pf_machine_def pf_begin_trans_def pf_commit_trans_def machine_trans_def
        ioctl_request_inject setup_trans_def overwrite_def del: ioctl_request.simps)
qed

lemma flush_empties_witness:
  "pm_active (w_kernel (snd (flush_rules pf_machine macos [97] RulesetKind_Nat machine_world))) =
     (\<lambda>_. [(pf_rule_zeroed, [])])(slot RulesetKind_Nat [97] := [])"
proof -
  obtain q w' where run: "flush_rules pf_machine macos [97] RulesetKind_Nat machine_world = (q, w')"
    by fastforce
  then have "q = Ok ()" using machine_flushes [of RulesetKind_Nat] by simp
  then show ?thesis
    using flush_empties [OF machine_documented run, unfolded machine_sel] by (simp add: run)
qed

text \<open>
  C17. Appending one rule outside a transaction: after a success exactly one entry was added, at the
  end of the ruleset of the rule's kind in the anchor, and it is the struct of the rule with its
  pool addresses (none for a filter rule, even one with a route); a failure changes no active
  rule.
\<close>

theorem append_rule_effect:
  assumes "documented_pf K V" and "append_any K X c anchor r w = (q, w')"
  shows "if q = Ok () then
      \<exists>e. appended_entry X r = Ok e \<and>
        pv_active V (w_kernel w') = appended_at (slot (any_kind r) anchor) e (pv_active V (w_kernel w))
    else pv_active V (w_kernel w') = pv_active V (w_kernel w)"
  using append_Ok [OF assms(1), of X c anchor r w w'] assms(2)
    fails_safeD [OF append_fails_safe [OF assms(1)] assms(2)] by (cases q) auto

lemma append_rule_effect_witness:
  "case append_any pf_machine macos \<lparr>ctl_file = 3\<rparr> [97] (AnyNat sample_nat_rule) machine_world of (q, w') \<Rightarrow>
     if q = Ok () then
       \<exists>e. appended_entry macos (AnyNat sample_nat_rule) = Ok e \<and>
         pm_active (w_kernel w') (slot RulesetKind_Nat [97]) = [(pf_rule_zeroed, []), e]
     else pm_active (w_kernel w') = (\<lambda>_. [(pf_rule_zeroed, [])])"
proof -
  obtain q w' where run:
    "append_any pf_machine macos \<lparr>ctl_file = 3\<rparr> [97] (AnyNat sample_nat_rule) machine_world = (q, w')"
    by fastforce
  show ?thesis
    using append_rule_effect [OF machine_documented run, unfolded machine_sel]
    unfolding run by (auto simp: appended_at_def)
qed

end
