(* ===== verification/Anchors.thy ===== *)
theory Anchors
  imports FirewallSpec
begin

text \<open>
  The firewall as a switch and the registry of anchors, as the operations of \<open>PfCtl\<close> (\<open>lib.rs\<close>) see
  them. The kernel is known by what the crate documents of the requests that start and stop it,
  insert and delete rules: a bit, and a list of rules for every ruleset number of the main
  ruleset. The operations refine a switch and a set of names for each kind of anchor, and
  an anchor that is added and removed again leaves the lists as they were.
\<close>

section \<open>The switch\<close>

text \<open>Starting and stopping: the kernel refuses to enter the state that it is in, with an error
  number of its own for it, and the status tells the state.\<close>

definition documented_switch :: "'k kernel \<Rightarrow> externals \<Rightarrow> ('k \<Rightarrow> bool) \<Rightarrow> bool" where
  "documented_switch K X R \<longleftrightarrow>
     (\<forall>d k ret errno u k'. sys_none K (ioctl_request PfStart) d k = (ret, errno, u, k') \<longrightarrow>
        (if ret \<noteq> - 1 then \<not> R k \<and> R k' else R k' = R k \<and> (errno = EEXIST X \<longleftrightarrow> R k))) \<and>
     (\<forall>d k ret errno u k'. sys_none K (ioctl_request PfStop) d k = (ret, errno, u, k') \<longrightarrow>
        (if ret \<noteq> - 1 then R k \<and> \<not> R k' else R k' = R k \<and> (errno = ENOENT X \<longleftrightarrow> \<not> R k))) \<and>
     (\<forall>d a k ret errno a' k'. sys_status K (ioctl_request PfGetStatus) d a k = (ret, errno, a', k') \<longrightarrow>
        R k' = R k \<and> (ret \<noteq> - 1 \<longrightarrow> (st_running a' = 1 \<longleftrightarrow> R k)))"

datatype switch_op = Op_Enable | Op_TryEnable | Op_Disable | Op_TryDisable

fun switch_run :: "'k kernel \<Rightarrow> externals \<Rightarrow> pfctl \<Rightarrow> switch_op \<Rightarrow> ('k, unit) io" where
  "switch_run K X c Op_Enable = enable K X c"
| "switch_run K X c Op_TryEnable = try_enable K X c"
| "switch_run K X c Op_Disable = disable K X c"
| "switch_run K X c Op_TryDisable = try_disable K X c"

text \<open>The abstract switch: result and state after.\<close>

fun switch_spec :: "switch_op \<Rightarrow> bool \<Rightarrow> unit result \<times> bool" where
  "switch_spec Op_Enable on = (if on then Err StateAlreadyActive else Ok (), True)"
| "switch_spec Op_TryEnable on = (Ok (), True)"
| "switch_spec Op_Disable on = (if on then Ok () else Err StateAlreadyActive, False)"
| "switch_spec Op_TryDisable on = (Ok (), False)"

lemma enable_switches:
  assumes D: "documented_switch K X R" and run: "enable K X c w = (q, w')"
  shows "(q, R (w_kernel w')) = switch_spec Op_Enable (R (w_kernel w)) \<or>
    (\<exists>e. q = Err (Ioctl e) \<and> R (w_kernel w') = R (w_kernel w))"
proof -
  obtain ret errno u k' where g: "sys_none K (ioctl_request PfStart) (ctl_file c) (w_kernel w) = (ret, errno, u, k')"
    by (metis surj_pair)
  have "if ret \<noteq> - 1 then \<not> R (w_kernel w) \<and> R k' else R k' = R (w_kernel w) \<and> (errno = EEXIST X \<longleftrightarrow> R (w_kernel w))"
    using D g unfolding documented_switch_def by blast
  then show ?thesis
    using run g by (auto simp: enable_def pf_start_def guarded_def call_def ioctl_guard_def IOCTL_ERROR_def
        simp del: ioctl_request.simps split: if_splits)
qed

lemma disable_switches:
  assumes D: "documented_switch K X R" and run: "disable K X c w = (q, w')"
  shows "(q, R (w_kernel w')) = switch_spec Op_Disable (R (w_kernel w)) \<or>
    (\<exists>e. q = Err (Ioctl e) \<and> R (w_kernel w') = R (w_kernel w))"
proof -
  obtain ret errno u k' where g: "sys_none K (ioctl_request PfStop) (ctl_file c) (w_kernel w) = (ret, errno, u, k')"
    by (metis surj_pair)
  have "if ret \<noteq> - 1 then R (w_kernel w) \<and> \<not> R k' else R k' = R (w_kernel w) \<and> (errno = ENOENT X \<longleftrightarrow> \<not> R (w_kernel w))"
    using D g unfolding documented_switch_def by blast
  then show ?thesis
    using run g by (auto simp: disable_def pf_stop_def guarded_def call_def ioctl_guard_def IOCTL_ERROR_def
        simp del: ioctl_request.simps split: if_splits)
qed

lemma ignoring_run:
  assumes "ignoring m k w = (q, w')"
  obtains r where "m w = (r, w')" and "q = ignore_error_kind r k"
  using assms by (cases "m w") (auto simp: ignoring_def)

lemma switch_refines:
  assumes D: "documented_switch K X R" and run: "switch_run K X c op w = (q, w')"
  shows "(q, R (w_kernel w')) = switch_spec op (R (w_kernel w)) \<or>
    (\<exists>e. q = Err (Ioctl e) \<and> R (w_kernel w') = R (w_kernel w))"
proof (cases op)
  case Op_TryEnable
  then obtain r where r: "enable K X c w = (r, w')" "q = ignore_error_kind r Kind_StateAlreadyActive"
    using run by (auto simp: try_enable_def elim: ignoring_run)
  then show ?thesis using enable_switches [OF D r(1)] Op_TryEnable by (auto split: if_splits)
next
  case Op_TryDisable
  then obtain r where r: "disable K X c w = (r, w')" "q = ignore_error_kind r Kind_StateAlreadyActive"
    using run by (auto simp: try_disable_def elim: ignoring_run)
  then show ?thesis using disable_switches [OF D r(1)] Op_TryDisable by (auto split: if_splits)
qed (use run enable_switches [OF D] disable_switches [OF D] in simp_all)

lemma is_enabled_tells:
  assumes D: "documented_switch K X R" and run: "is_enabled K X c w = (q, w')"
  shows "R (w_kernel w') = R (w_kernel w)" and "q = Ok b \<Longrightarrow> b = R (w_kernel w)"
proof -
  obtain ret errno a k' where
    g: "sys_status K (ioctl_request PfGetStatus) (ctl_file c) pf_status_zeroed (w_kernel w) = (ret, errno, a, k')"
    by (metis surj_pair)
  have "R k' = R (w_kernel w) \<and> (ret \<noteq> - 1 \<longrightarrow> (st_running a = 1 \<longleftrightarrow> R (w_kernel w)))"
    using D g unfolding documented_switch_def by blast
  then show "R (w_kernel w') = R (w_kernel w)" "q = Ok b \<Longrightarrow> b = R (w_kernel w)"
    using run g by (auto simp: is_enabled_def pf_get_status_def guarded_def call_def ioctl_guard_def
        IOCTL_ERROR_def io_bind_def io_return_def simp del: ioctl_request.simps split: if_splits)
qed

section \<open>The registry of anchors\<close>

text \<open>
  The main ruleset of every number, as a list of rules with the name of the anchor that each
  calls. The action of a rule decides the number. The requests that insert and delete single
  rules are not in the manual page of the kernel; what is stated here is what the crate
  documents and tests of them: adding an anchor "will fail if it already exists", with
  \<open>StateAlreadyActive\<close> (\<open>lib.rs\<close>, the documentation of the crate and of \<open>try_add_anchor\<close>;
  \<open>tests/anchors.rs\<close>), otherwise its rule is inserted, wherever that is; and the struct that
  \<open>with_anchor_rule\<close> found "can be used to modify or remove the anchor rule". Nothing is assumed
  of a request to delete with any other struct.
\<close>

type_synonym call_rules = "(i8 list \<times> pf_rule) list"

definition calls_name :: "rstring \<Rightarrow> i8 list \<times> pf_rule \<Rightarrow> bool" where
  "calls_name name e \<longleftrightarrow> cstr_until_nul (fst e) = Some name"

definition documented_insert ::
  "'k kernel \<Rightarrow> externals \<Rightarrow> (u8 \<Rightarrow> i32) \<Rightarrow> ('k \<Rightarrow> i32 \<Rightarrow> call_rules) \<Rightarrow> bool" where
  "documented_insert K X N A \<longleftrightarrow>
     (\<forall>d a k ret errno a' k' name. sys_rule K (ioctl_request PfInsertRule) d a k = (ret, errno, a', k') \<longrightarrow>
        cstr_until_nul (ir_anchor_call a) = Some name \<longrightarrow> name \<noteq> [] \<longrightarrow>
        (if ret = - 1 then A k' = A k \<and> (errno = EEXIST X \<longleftrightarrow> (\<exists>e \<in> set (A k (N (r_action (ir_rule a)))). calls_name name e))
         else (\<forall>e \<in> set (A k (N (r_action (ir_rule a)))). \<not> calls_name name e) \<and>
           (\<exists>xs ys. A k (N (r_action (ir_rule a))) = xs @ ys \<and>
             A k' = (A k)(N (r_action (ir_rule a)) := xs @ (ir_anchor_call a, ir_rule a) # ys))))"

definition documented_delete ::
  "'k kernel \<Rightarrow> (u8 \<Rightarrow> i32) \<Rightarrow> ('k \<Rightarrow> i32 \<Rightarrow> call_rules) \<Rightarrow> bool" where
  "documented_delete K N A \<longleftrightarrow>
     (\<forall>d a k ret errno a' k'. sys_rule K (ioctl_request PfDeleteRule) d a k = (ret, errno, a', k') \<longrightarrow>
        unat (ir_nr a) < length (A k (N (r_action (ir_rule a)))) \<longrightarrow>
        A k (N (r_action (ir_rule a))) ! unat (ir_nr a) = (ir_anchor_call a, ir_rule a) \<longrightarrow>
        (if ret = - 1 then A k' = A k
         else A k' = (A k)(N (r_action (ir_rule a)) :=
           take (unat (ir_nr a)) (A k (N (r_action (ir_rule a)))) @
           drop (Suc (unat (ir_nr a))) (A k (N (r_action (ir_rule a)))))))"

definition documented_anchors ::
  "'k kernel \<Rightarrow> externals \<Rightarrow> (u8 \<Rightarrow> i32) \<Rightarrow> ('k \<Rightarrow> i32 \<Rightarrow> call_rules) \<Rightarrow> bool" where
  "documented_anchors K X N A \<longleftrightarrow>
     inj (\<lambda>k. N (anchor_kind_to_u8 k)) \<and> lists_rules K (\<lambda>u k. A k (N u)) \<and>
     (\<forall>k n. \<forall>(c, r) \<in> set (A k n). N (r_action r) = n) \<and>
     documented_insert K X N A \<and> documented_delete K N A"

text \<open>The ruleset of a kind.\<close>

abbreviation kind_rules ::
  "(u8 \<Rightarrow> i32) \<Rightarrow> ('k \<Rightarrow> i32 \<Rightarrow> call_rules) \<Rightarrow> 'k \<Rightarrow> anchor_kind \<Rightarrow> call_rules" where
  "kind_rules N A k akind \<equiv> A k (N (anchor_kind_to_u8 akind))"

section \<open>Adding and removing\<close>

lemma find_enumerate:
  "find (\<lambda>(i, e). P e) (enumerate n xs) = (case find (\<lambda>(i, e). P e) (enumerate 0 xs) of
     None \<Rightarrow> None | Some (i, e) \<Rightarrow> Some (n + i, e))"
proof (induction xs arbitrary: n)
  case (Cons x xs)
  show ?case using Cons.IH [of "Suc n"] Cons.IH [of "Suc 0"] by (auto split: option.splits prod.splits)
qed simp

text \<open>The first rule that calls a name splits the list.\<close>

lemma find_anchor_split:
  "case find_anchor name rs of
     None \<Rightarrow> \<forall>e \<in> set rs. \<not> calls_name name e
   | Some (i, c, r) \<Rightarrow> \<exists>xs ys. rs = xs @ (c, r) # ys \<and> i = length xs \<and> calls_name name (c, r) \<and>
       (\<forall>e \<in> set xs. \<not> calls_name name e)"
proof (induction rs)
  case Nil
  then show ?case by (simp add: find_anchor_def)
next
  case (Cons e rs)
  have f: "find_anchor name rs = find (\<lambda>(i, e). calls_name name e) (enumerate 0 rs)" for rs
    by (simp add: find_anchor_def calls_name_def case_prod_beta')
  show ?case
  proof (cases "calls_name name e")
    case True
    then show ?thesis by (cases e) (auto simp: f)
  next
    case False
    then have "find_anchor name (e # rs) = (case find_anchor name rs of
        None \<Rightarrow> None | Some (i, e) \<Rightarrow> Some (Suc i, e))"
      unfolding f using find_enumerate [of "calls_name name" "Suc 0" rs]
      by (simp split: option.split prod.split)
    then show ?thesis
      using Cons.IH False by (auto split: option.splits prod.splits) (metis append_Cons length_Cons set_ConsD)
  qed
qed

lemma add_anchor_run:
  assumes D: "documented_anchors K X N A" and "name \<noteq> []"
    and run: "add_anchor K X c name akind w = (q, w')"
  shows "(\<exists>e. q = Err e \<and> kind e \<in> {Kind_Ioctl, Kind_InvalidAnchorName}) \<and> A (w_kernel w') = A (w_kernel w) \<or>
    (\<exists>e \<in> set (kind_rules N A (w_kernel w) akind). calls_name name e) \<and> q = Err StateAlreadyActive \<and>
      A (w_kernel w') = A (w_kernel w) \<or>
    (\<forall>e \<in> set (kind_rules N A (w_kernel w) akind). \<not> calls_name name e) \<and> q = Ok () \<and>
      (\<exists>e xs ys. calls_name name e \<and> kind_rules N A (w_kernel w) akind = xs @ ys \<and>
        A (w_kernel w') = (A (w_kernel w))(N (anchor_kind_to_u8 akind) := xs @ e # ys))"
proof (cases "name_fits 1024 name")
  case False
  then have "\<exists>s. q = Err (InvalidAnchorName s)" "w' = w"
    using run by (auto simp: add_anchor_def Let_def copy_anchor_name_cases pfioc_rule_zeroed_def io_bind_def io_lift_def)
  then show ?thesis by auto
next
  case True
  let ?z = "pfioc_rule_zeroed\<lparr>ir_rule := (ir_rule pfioc_rule_zeroed)\<lparr>r_action := anchor_kind_to_u8 akind\<rparr>\<rparr>"
  let ?a = "?z\<lparr>ir_anchor_call := nul_terminated name (ir_anchor_call ?z)\<rparr>"
  have copied: "copy_anchor_name name (ir_anchor_call ?z) = Ok (nul_terminated name (ir_anchor_call ?z))"
    using True by (simp add: copy_anchor_name_cases pfioc_rule_zeroed_def)
  have cstr: "cstr_until_nul (ir_anchor_call ?a) = Some name"
    using True cstr_nul_terminated by (simp add: name_fits_def)
  obtain ret errno a' k' where g: "sys_rule K (ioctl_request PfInsertRule) (ctl_file c) ?a (w_kernel w) = (ret, errno, a', k')"
    by (metis surj_pair)
  have doc: "if ret = - 1 then A k' = A (w_kernel w) \<and>
        (errno = EEXIST X \<longleftrightarrow> (\<exists>e \<in> set (kind_rules N A (w_kernel w) akind). calls_name name e))
      else (\<forall>e \<in> set (kind_rules N A (w_kernel w) akind). \<not> calls_name name e) \<and>
        (\<exists>xs ys. kind_rules N A (w_kernel w) akind = xs @ ys \<and>
          A k' = (A (w_kernel w))(N (anchor_kind_to_u8 akind) := xs @ (ir_anchor_call ?a, ir_rule ?a) # ys))"
    using D g cstr assms(2) unfolding documented_anchors_def documented_insert_def by fastforce
  have res: "q = (if ret = - 1 then Err (if errno = EEXIST X then StateAlreadyActive else Ioctl (OsError errno)) else Ok ())"
    "w_kernel w' = k'"
    using run g copied unfolding add_anchor_def Let_def
    by (auto simp: io_bind_def io_lift_def io_return_def pf_insert_rule_def guarded_def call_def ioctl_guard_def
        IOCTL_ERROR_def simp del: ioctl_request.simps split: if_splits)
  have new: "calls_name name (ir_anchor_call ?a, ir_rule ?a)" using cstr by (simp add: calls_name_def)
  show ?thesis
  proof (cases "ret = - 1")
    case True
    then show ?thesis using doc res by (cases "errno = EEXIST X") auto
  next
    case False
    then obtain xs ys where "kind_rules N A (w_kernel w) akind = xs @ ys"
      "A k' = (A (w_kernel w))(N (anchor_kind_to_u8 akind) := xs @ (ir_anchor_call ?a, ir_rule ?a) # ys)"
      using doc by auto
    moreover have "\<forall>e \<in> set (kind_rules N A (w_kernel w) akind). \<not> calls_name name e" "q = Ok ()"
      using doc res(1) False by simp_all
    ultimately show ?thesis unfolding res(2) using new by blast
  qed
qed

lemma listed_bound:
  assumes "lists_rules K rules"
  shows "length (rules u k) < 2 ^ 32"
proof -
  let ?a = "pfioc_rule_zeroed\<lparr>ir_rule := (ir_rule pfioc_rule_zeroed)\<lparr>r_action := u\<rparr>\<rparr>"
  obtain nr :: u32 where "unat nr = length (rules (r_action (ir_rule ?a)) k)"
    using assms unfolding lists_rules_def by blast
  moreover have "unat nr < 2 ^ LENGTH(32)" by (rule unsigned_less)
  ultimately show ?thesis by simp
qed

lemma remove_anchor_run:
  assumes D: "documented_anchors K X N A" and run: "remove_anchor K X c name akind w = (q, w')"
  shows "(\<exists>e. q = Err e \<and> kind e \<in> {Kind_Ioctl, Kind_StateAlreadyActive}) \<and> A (w_kernel w') = A (w_kernel w) \<or>
    (\<forall>e \<in> set (kind_rules N A (w_kernel w) akind). \<not> calls_name name e) \<and> q = Err AnchorDoesNotExist \<and>
      A (w_kernel w') = A (w_kernel w) \<or>
    q = Ok () \<and> (\<exists>e xs ys. calls_name name e \<and> (\<forall>e \<in> set xs. \<not> calls_name name e) \<and>
      kind_rules N A (w_kernel w) akind = xs @ e # ys \<and>
      A (w_kernel w') = (A (w_kernel w))(N (anchor_kind_to_u8 akind) := xs @ ys))"
proof -
  let ?rs = "kind_rules N A (w_kernel w) akind"
  let ?del = "\<lambda>b. io_bind (guarded (EEXIST X) (pf_delete_rule K (ctl_file c) b)) (\<lambda>_. io_return ())"
  have L: "lists_rules K (\<lambda>u k. A k (N u))" and del: "documented_delete K N A"
    using D by (simp_all add: documented_anchors_def)
  note found = with_anchor_rule_finds [OF L, where name = name and k = akind and w = w and X = X and c = c and f = ?del]
  show ?thesis
  proof (cases "find_anchor name ?rs")
    case None
    then show ?thesis
      using found run find_anchor_split [where name = name and rs = ?rs] by (auto simp: remove_anchor_def)
  next
    case (Some x)
    obtain i cs r where x: "x = (i, cs, r)" by (metis surj_pair)
    obtain xs ys where rs: "?rs = xs @ (cs, r) # ys" "i = length xs" "calls_name name (cs, r)"
      "\<forall>e \<in> set xs. \<not> calls_name name e"
      using find_anchor_split [where name = name and rs = ?rs] Some x by auto
    obtain b w1 where b: "with_anchor_rule K X c name akind ?del w = ?del b w1" "w_kernel w1 = w_kernel w"
      "ir_nr b = of_nat i" "ir_anchor_call b = cs" "ir_rule b = r"
      using found Some x by auto
    have "N (r_action r) = N (anchor_kind_to_u8 akind)"
    proof -
      have "(cs, r) \<in> set ?rs" by (simp add: rs(1))
      then show ?thesis using D unfolding documented_anchors_def by fast
    qed
    moreover have nr: "unat (ir_nr b) = length xs"
      using b(3) rs(1,2) listed_bound [OF L, where u = "anchor_kind_to_u8 akind" and k = "w_kernel w"]
      by (simp add: unat_of_nat)
    moreover obtain ret errno b' k' where
      g: "sys_rule K (ioctl_request PfDeleteRule) (ctl_file c) b (w_kernel w) = (ret, errno, b', k')"
      by (metis surj_pair)
    moreover have "unat (ir_nr b) < length ?rs" "?rs ! unat (ir_nr b) = (ir_anchor_call b, ir_rule b)"
      using rs(1) b(4,5) by (simp_all add: nr)
    ultimately have doc: "if ret = - 1 then A k' = A (w_kernel w)
        else A k' = (A (w_kernel w))(N (anchor_kind_to_u8 akind) := xs @ ys)"
      using del [unfolded documented_delete_def, rule_format, OF g] b(5) rs(1) by simp
    have "q = (if ret = - 1 then Err (if errno = EEXIST X then StateAlreadyActive else Ioctl (OsError errno)) else Ok ())"
      "w_kernel w' = k'"
      using run b(1,2) g unfolding remove_anchor_def
      by (auto simp: io_bind_def io_return_def pf_delete_rule_def guarded_def call_def ioctl_guard_def
          IOCTL_ERROR_def simp del: ioctl_request.simps split: if_splits)
    then show ?thesis using doc rs by (cases "ret = - 1") auto
  qed
qed

section \<open>Sets of names\<close>

definition anchors_of ::
  "(u8 \<Rightarrow> i32) \<Rightarrow> ('k \<Rightarrow> i32 \<Rightarrow> call_rules) \<Rightarrow> 'k \<Rightarrow> anchor_kind \<Rightarrow> rstring set" where
  "anchors_of N A k akind = {n. n \<noteq> [] \<and> (\<exists>e \<in> set (kind_rules N A k akind). calls_name n e)}"

text \<open>No anchor is called twice; rules that call no anchor have the empty name.\<close>

definition unique_calls :: "call_rules \<Rightarrow> bool" where
  "unique_calls rs \<longleftrightarrow> (\<forall>n. n \<noteq> [] \<longrightarrow> length (filter (calls_name n) rs) \<le> 1)"

datatype anchor_op = Op_Add | Op_TryAdd | Op_Remove | Op_TryRemove

fun anchor_run ::
  "'k kernel \<Rightarrow> externals \<Rightarrow> pfctl \<Rightarrow> anchor_op \<Rightarrow> rstring \<Rightarrow> anchor_kind \<Rightarrow> ('k, unit) io" where
  "anchor_run K X c Op_Add = add_anchor K X c"
| "anchor_run K X c Op_TryAdd = try_add_anchor K X c"
| "anchor_run K X c Op_Remove = remove_anchor K X c"
| "anchor_run K X c Op_TryRemove = try_remove_anchor K X c"

text \<open>The abstract registry of one kind: result and names after.\<close>

fun anchor_spec :: "anchor_op \<Rightarrow> rstring \<Rightarrow> rstring set \<Rightarrow> unit result \<times> rstring set" where
  "anchor_spec Op_Add n S = (if n \<in> S then Err StateAlreadyActive else Ok (), insert n S)"
| "anchor_spec Op_TryAdd n S = (Ok (), insert n S)"
| "anchor_spec Op_Remove n S = (if n \<in> S then Ok () else Err AnchorDoesNotExist, S - {n})"
| "anchor_spec Op_TryRemove n S = (Ok (), S - {n})"

text \<open>A refusal for another reason leaves the registry as it was. The kernel may refuse to delete with
  any error number, which the crate reports as one of two kinds.\<close>

fun refusals :: "anchor_op \<Rightarrow> error_kind set" where
  "refusals Op_Add = {Kind_Ioctl, Kind_InvalidAnchorName}"
| "refusals Op_TryAdd = {Kind_Ioctl, Kind_InvalidAnchorName}"
| "refusals Op_Remove = {Kind_Ioctl, Kind_StateAlreadyActive}"
| "refusals Op_TryRemove = {Kind_Ioctl, Kind_StateAlreadyActive}"

definition refused :: "anchor_op \<Rightarrow> unit result \<Rightarrow> bool" where
  "refused op q \<longleftrightarrow> (\<exists>e. q = Err e \<and> kind e \<in> refusals op)"

lemma calls_name_inject: "calls_name m e \<Longrightarrow> calls_name n e \<longleftrightarrow> m = n"
  by (auto simp: calls_name_def)

lemma unique_insert:
  assumes "unique_calls (xs @ ys)" and "calls_name n e" and "\<forall>e \<in> set (xs @ ys). \<not> calls_name n e"
  shows "unique_calls (xs @ e # ys)"
  unfolding unique_calls_def
proof (intro allI impI)
  fix m :: rstring assume "m \<noteq> []"
  show "length (filter (calls_name m) (xs @ e # ys)) \<le> 1"
  proof (cases "m = n")
    case True
    then have "filter (calls_name m) xs = []" "filter (calls_name m) ys = []"
      using assms(3) by (simp_all add: filter_empty_conv)
    then show ?thesis by simp
  next
    case False
    then have "\<not> calls_name m e" using calls_name_inject [OF assms(2)] by simp
    then show ?thesis using assms(1) \<open>m \<noteq> []\<close> by (simp add: unique_calls_def)
  qed
qed

lemma unique_remove:
  assumes "unique_calls (xs @ e # ys)"
  shows "unique_calls (xs @ ys)"
  unfolding unique_calls_def
proof (intro allI impI)
  fix m :: rstring assume "m \<noteq> []"
  have "length (filter (calls_name m) (xs @ ys)) \<le> length (filter (calls_name m) (xs @ e # ys))" by simp
  also have "\<dots> \<le> 1" using assms \<open>m \<noteq> []\<close> unfolding unique_calls_def by blast
  finally show "length (filter (calls_name m) (xs @ ys)) \<le> 1" .
qed

lemma unique_rest:
  assumes "unique_calls (xs @ e # ys)" and "calls_name n e" and "n \<noteq> []"
  shows "\<forall>e \<in> set (xs @ ys). \<not> calls_name n e"
proof -
  have "length (filter (calls_name n) xs) + length (filter (calls_name n) ys) = 0"
    using assms by (fastforce simp: unique_calls_def)
  then show ?thesis by (auto simp: filter_empty_conv)
qed

text \<open>What inserting and deleting does to the names of all kinds.\<close>

lemma anchors_of_inserted:
  assumes "inj (\<lambda>k. N (anchor_kind_to_u8 k))" and "kind_rules N A k akind = xs @ ys" and "calls_name n e" and "n \<noteq> []"
    and "A k' = (A k)(N (anchor_kind_to_u8 akind) := xs @ e # ys)"
  shows "anchors_of N A k' = (anchors_of N A k)(akind := insert n (anchors_of N A k akind))"
proof
  fix l
  have "N (anchor_kind_to_u8 l) = N (anchor_kind_to_u8 akind) \<longleftrightarrow> l = akind"
    using injD [OF assms(1)] by blast
  then show "anchors_of N A k' l = ((anchors_of N A k)(akind := insert n (anchors_of N A k akind))) l"
    using assms(2-) by (auto simp: anchors_of_def calls_name_inject [OF assms(3)])
qed

lemma anchors_of_deleted:
  assumes "inj (\<lambda>k. N (anchor_kind_to_u8 k))" and "kind_rules N A k akind = xs @ e # ys" and "calls_name n e" and "n \<noteq> []"
    and "unique_calls (xs @ e # ys)" and "A k' = (A k)(N (anchor_kind_to_u8 akind) := xs @ ys)"
  shows "anchors_of N A k' = (anchors_of N A k)(akind := anchors_of N A k akind - {n})"
proof
  fix l
  have "N (anchor_kind_to_u8 l) = N (anchor_kind_to_u8 akind) \<longleftrightarrow> l = akind"
    using injD [OF assms(1)] by blast
  then show "anchors_of N A k' l = ((anchors_of N A k)(akind := anchors_of N A k akind - {n})) l"
    using assms(2,6) unique_rest [OF assms(5,3,4)]
    by (auto simp: anchors_of_def calls_name_inject [OF assms(3)])
qed

lemma registry_same: "A k' = A k \<Longrightarrow> anchors_of N A k' = anchors_of N A k"
  by (simp add: fun_eq_iff anchors_of_def)

section \<open>The operations on the registry\<close>

lemma add_anchor_refines:
  assumes D: "documented_anchors K X N A" and n: "name \<noteq> []" and u: "\<forall>s. unique_calls (A (w_kernel w) s)"
    and run: "add_anchor K X c name akind w = (q, w')"
  shows "(\<forall>s. unique_calls (A (w_kernel w') s)) \<and>
    (refused Op_Add q \<and> anchors_of N A (w_kernel w') = anchors_of N A (w_kernel w) \<or>
     (\<exists>S. anchor_spec Op_Add name (anchors_of N A (w_kernel w) akind) = (q, S) \<and>
        anchors_of N A (w_kernel w') = (anchors_of N A (w_kernel w))(akind := S)))"
  using add_anchor_run [OF D n run]
proof (elim disjE conjE exE)
  assume "\<exists>e \<in> set (kind_rules N A (w_kernel w) akind). calls_name name e"
  then have "name \<in> anchors_of N A (w_kernel w) akind" using n by (simp add: anchors_of_def)
  moreover assume "q = Err StateAlreadyActive" and same: "A (w_kernel w') = A (w_kernel w)"
  ultimately show ?thesis using u registry_same [where A = A, OF same] by (simp add: insert_absorb)
next
  fix e xs ys
  assume none: "\<forall>e \<in> set (kind_rules N A (w_kernel w) akind). \<not> calls_name name e" and q: "q = Ok ()"
    and e: "calls_name name e" and rs: "kind_rules N A (w_kernel w) akind = xs @ ys"
    and A: "A (w_kernel w') = (A (w_kernel w))(N (anchor_kind_to_u8 akind) := xs @ e # ys)"
  have "inj (\<lambda>k. N (anchor_kind_to_u8 k))" using D by (simp add: documented_anchors_def)
  then have "anchors_of N A (w_kernel w') =
      (anchors_of N A (w_kernel w))(akind := insert name (anchors_of N A (w_kernel w) akind))"
    using rs e n A by (rule anchors_of_inserted)
  moreover have "name \<notin> anchors_of N A (w_kernel w) akind" using none by (auto simp: anchors_of_def)
  moreover have "unique_calls (xs @ e # ys)"
    using unique_insert [OF _ e] u rs none by metis
  ultimately show ?thesis using q u by (simp add: A)
next
  fix e
  assume "q = Err e" "kind e \<in> {Kind_Ioctl, Kind_InvalidAnchorName}" and same: "A (w_kernel w') = A (w_kernel w)"
  then have "refused Op_Add q" by (simp add: refused_def)
  then show ?thesis using u registry_same [where A = A, OF same] same by simp
qed

lemma remove_anchor_refines:
  assumes D: "documented_anchors K X N A" and n: "name \<noteq> []" and u: "\<forall>s. unique_calls (A (w_kernel w) s)"
    and run: "remove_anchor K X c name akind w = (q, w')"
  shows "(\<forall>s. unique_calls (A (w_kernel w') s)) \<and>
    (refused Op_Remove q \<and> anchors_of N A (w_kernel w') = anchors_of N A (w_kernel w) \<or>
     (\<exists>S. anchor_spec Op_Remove name (anchors_of N A (w_kernel w) akind) = (q, S) \<and>
        anchors_of N A (w_kernel w') = (anchors_of N A (w_kernel w))(akind := S)))"
  using remove_anchor_run [OF D run]
proof (elim disjE conjE exE)
  fix e assume "q = Err e" "kind e \<in> {Kind_Ioctl, Kind_StateAlreadyActive}" and same: "A (w_kernel w') = A (w_kernel w)"
  then have "refused Op_Remove q" by (simp add: refused_def)
  then show ?thesis using u registry_same [where A = A, OF same] same by simp
next
  assume "\<forall>e \<in> set (kind_rules N A (w_kernel w) akind). \<not> calls_name name e"
  then have "name \<notin> anchors_of N A (w_kernel w) akind" by (auto simp: anchors_of_def)
  moreover assume "q = Err AnchorDoesNotExist" and same: "A (w_kernel w') = A (w_kernel w)"
  ultimately show ?thesis using u registry_same [where A = A, OF same] same by simp
next
  fix e xs ys
  assume q: "q = Ok ()" and e: "calls_name name e" and rs: "kind_rules N A (w_kernel w) akind = xs @ e # ys"
    and A: "A (w_kernel w') = (A (w_kernel w))(N (anchor_kind_to_u8 akind) := xs @ ys)"
  have inj: "inj (\<lambda>k. N (anchor_kind_to_u8 k))" using D by (simp add: documented_anchors_def)
  have uq: "unique_calls (xs @ e # ys)" using u rs by metis
  have "anchors_of N A (w_kernel w') =
      (anchors_of N A (w_kernel w))(akind := anchors_of N A (w_kernel w) akind - {name})"
    using inj rs e n uq A by (rule anchors_of_deleted)
  moreover have "name \<in> anchors_of N A (w_kernel w) akind" using rs e n by (auto simp: anchors_of_def)
  ultimately show ?thesis using q u unique_remove [OF uq] by (simp add: A)
qed

lemma anchor_refines:
  assumes D: "documented_anchors K X N A" and n: "name \<noteq> []" and u: "\<forall>s. unique_calls (A (w_kernel w) s)"
    and run: "anchor_run K X c op name akind w = (q, w')"
  shows "(\<forall>s. unique_calls (A (w_kernel w') s)) \<and>
    (refused op q \<and> anchors_of N A (w_kernel w') = anchors_of N A (w_kernel w) \<or>
     (\<exists>S. anchor_spec op name (anchors_of N A (w_kernel w) akind) = (q, S) \<and>
        anchors_of N A (w_kernel w') = (anchors_of N A (w_kernel w))(akind := S)))"
proof (cases op)
  case Op_TryAdd
  then obtain r where r: "add_anchor K X c name akind w = (r, w')" "q = ignore_error_kind r Kind_StateAlreadyActive"
    using run by (auto simp: try_add_anchor_def elim: ignoring_run)
  then show ?thesis
    using add_anchor_refines [OF D n u r(1)] Op_TryAdd by (auto simp: refused_def split: if_splits)
next
  case Op_TryRemove
  then obtain r where r: "remove_anchor K X c name akind w = (r, w')" "q = ignore_error_kind r Kind_AnchorDoesNotExist"
    using run by (auto simp: try_remove_anchor_def elim: ignoring_run)
  then show ?thesis
    using remove_anchor_refines [OF D n u r(1)] Op_TryRemove by (auto simp: refused_def split: if_splits)
qed (use run add_anchor_refines [OF D n u] remove_anchor_refines [OF D n u] in simp_all)

section \<open>Sequences of operations on the registry\<close>

type_synonym anchor_command = "anchor_op \<times> rstring \<times> anchor_kind"

text \<open>All commands, one after the other, with their results.\<close>

fun anchor_runs ::
  "'k kernel \<Rightarrow> externals \<Rightarrow> pfctl \<Rightarrow> anchor_command list \<Rightarrow> 'k world \<Rightarrow> (anchor_command \<times> unit result) list \<times> 'k world" where
  "anchor_runs K X c [] w = ([], w)"
| "anchor_runs K X c ((op, name, akind) # cmds) w =
     (case anchor_run K X c op name akind w of (q, w1) \<Rightarrow>
        (case anchor_runs K X c cmds w1 of (hist, w2) \<Rightarrow> (((op, name, akind), q) # hist, w2)))"

text \<open>The abstract registry: a command has its result and its effect, or it is refused.\<close>

inductive registry_run ::
  "(anchor_command \<times> unit result) list \<Rightarrow> (anchor_kind \<Rightarrow> rstring set) \<Rightarrow> (anchor_kind \<Rightarrow> rstring set) \<Rightarrow> bool" where
  no_command: "registry_run [] S S"
| refusal: "refused op q \<Longrightarrow> registry_run hist S S' \<Longrightarrow> registry_run (((op, name, akind), q) # hist) S S'"
| effect: "anchor_spec op name (S akind) = (q, T) \<Longrightarrow> registry_run hist (S(akind := T)) S' \<Longrightarrow>
    registry_run (((op, name, akind), q) # hist) S S'"

lemma anchor_runs_refine:
  assumes "documented_anchors K X N A" and "\<forall>(op, name, akind) \<in> set cmds. name \<noteq> []"
    and "\<forall>s. unique_calls (A (w_kernel w) s)" and "anchor_runs K X c cmds w = (hist, w')"
  shows "map fst hist = cmds \<and> (\<forall>s. unique_calls (A (w_kernel w') s)) \<and>
    registry_run hist (anchors_of N A (w_kernel w)) (anchors_of N A (w_kernel w'))"
  using assms(2-)
proof (induction cmds arbitrary: w hist)
  case Nil
  then show ?case by (simp add: no_command)
next
  case (Cons cmd cmds)
  obtain op name akind where cmd: "cmd = (op, name, akind)" by (metis surj_pair)
  obtain q w1 where one: "anchor_run K X c op name akind w = (q, w1)" by fastforce
  obtain rest where rest: "anchor_runs K X c cmds w1 = (rest, w')" "hist = (cmd, q) # rest"
    using Cons.prems(3) one by (auto simp: cmd split: prod.splits)
  have n: "name \<noteq> []" using Cons.prems(1) cmd by simp
  note step = anchor_refines [OF assms(1) n Cons.prems(2) one]
  have "\<forall>(op, name, akind) \<in> set cmds. name \<noteq> []" using Cons.prems(1) by simp
  from Cons.IH [OF this step [THEN conjunct1] rest(1)]
  have ih: "map fst rest = cmds" "\<forall>s. unique_calls (A (w_kernel w') s)"
    "registry_run rest (anchors_of N A (w_kernel w1)) (anchors_of N A (w_kernel w'))" by blast+
  have "registry_run hist (anchors_of N A (w_kernel w)) (anchors_of N A (w_kernel w'))"
    using step [THEN conjunct2] ih(3) unfolding rest(2) cmd by (metis refusal effect)
  then show ?case using ih rest(2) by simp
qed

text \<open>The rule that was inserted is the only one of its name, so that it is the one that is found.\<close>

lemma single_split:
  assumes "xs @ e # ys = us @ d # vs" and "P d" and "\<forall>e \<in> set (xs @ ys). \<not> P e"
  shows "xs = us" and "ys = vs"
proof -
  have P: "P x \<longleftrightarrow> x = e" if "x \<in> set (xs @ e # ys)" for x
  proof -
    have "d \<in> set (xs @ e # ys)" using assms(1) by simp
    then have "d = e" using assms(2,3) by auto
    then show ?thesis using that assms(2,3) by auto
  qed
  have "d \<in> set (xs @ e # ys)" using assms(1) by simp
  then have de: "d = e" using P assms(2) by blast
  then have "P e" using assms(2) by simp
  then have "e \<notin> set xs" "e \<notin> set ys" using assms(3) by auto
  then show "xs = us" "ys = vs"
    using assms(1) append_Cons_eq_iff [of e xs ys us vs] de by auto
qed

lemma add_then_remove:
  assumes D: "documented_anchors K X N A" and n: "name \<noteq> []"
    and add: "add_anchor K X c name akind w = (Ok (), w1)"
    and remove: "remove_anchor K X c name akind w1 = (q, w2)"
  shows "q = Ok () \<and> A (w_kernel w2) = A (w_kernel w) \<or>
    (\<exists>e. q = Err e \<and> kind e \<in> {Kind_Ioctl, Kind_StateAlreadyActive}) \<and> A (w_kernel w2) = A (w_kernel w1)"
proof -
  let ?s = "N (anchor_kind_to_u8 akind)"
  obtain e xs ys where added: "calls_name name e" "A (w_kernel w) ?s = xs @ ys"
    "A (w_kernel w1) = (A (w_kernel w))(?s := xs @ e # ys)"
    and none: "\<forall>e \<in> set (xs @ ys). \<not> calls_name name e"
    using add_anchor_run [OF D n add] by auto
  then have at: "A (w_kernel w1) ?s = xs @ e # ys" by simp
  from remove_anchor_run [OF D remove] consider
      "\<exists>e. q = Err e \<and> kind e \<in> {Kind_Ioctl, Kind_StateAlreadyActive}" "A (w_kernel w2) = A (w_kernel w1)"
    | "\<forall>e \<in> set (xs @ e # ys). \<not> calls_name name e"
    | d us vs where "q = Ok ()" "calls_name name d" "xs @ e # ys = us @ d # vs"
      "A (w_kernel w2) = (A (w_kernel w1))(?s := us @ vs)"
    unfolding at by blast
  then show ?thesis
  proof cases
    case 3
    then have "xs = us" "ys = vs" using single_split [where P = "calls_name name"] none by blast+
    then have "A (w_kernel w2) = (A (w_kernel w))(?s := A (w_kernel w) ?s)"
      using 3(4) added(2,3) by simp
    then show ?thesis using 3(1) by simp
  qed (use added(1) in auto)
qed

section \<open>A kernel with a switch and a registry\<close>

text \<open>The state is the switch and the listed rules. A ruleset holds at most a thousand rules, all
  of its own number and with terminated names, and no name twice.\<close>

type_synonym registry = "bool \<times> (i32 \<Rightarrow> call_rules)"

definition listed :: "registry \<Rightarrow> i32 \<Rightarrow> call_rules" where
  "listed s n = take 1000 (filter (\<lambda>(c, r). 0 \<in> set c \<and> action_number (r_action r) = n) (snd s n))"

definition registry_rule ::
  "request \<Rightarrow> fd \<Rightarrow> pfioc_rule \<Rightarrow> registry \<Rightarrow> i32 \<times> i32 \<times> pfioc_rule \<times> registry" where
  "registry_rule rq d a s =
    (let n = action_number (r_action (ir_rule a)); rs = listed s n; i = unat (ir_nr a) in
     if rq = ioctl_request PfGetRules then (0, 0, a\<lparr>ir_nr := of_nat (length rs)\<rparr>, s)
     else if rq = ioctl_request PfGetRule \<and> i < length rs then
       (0, 0, a\<lparr>ir_anchor_call := fst (rs ! i), ir_rule := snd (rs ! i)\<rparr>, s)
     else if rq = ioctl_request PfInsertRule then
       (case cstr_until_nul (ir_anchor_call a) of
          None \<Rightarrow> (- 1, 22, a, s)
        | Some name \<Rightarrow>
            if \<exists>e \<in> set rs. calls_name name e then (- 1, 17, a, s)
            else if length rs \<ge> 1000 then (- 1, 12, a, s)
            else (0, 0, a, (fst s, (snd s)(n := (ir_anchor_call a, ir_rule a) # rs))))
     else if rq = ioctl_request PfDeleteRule \<and> i < length rs then
       (0, 0, a, (fst s, (snd s)(n := take i rs @ drop (Suc i) rs)))
     else (- 1, 22, a, s))"

definition registry_kernel :: "registry kernel" where
  "registry_kernel =
     \<lparr>sys_open = (\<lambda>path s. (Inr 3, s)),
      sys_none = (\<lambda>rq d s.
        if rq = ioctl_request PfStart then (if fst s then (- 1, 17, (), s) else (0, 0, (), (True, snd s)))
        else if rq = ioctl_request PfStop then (if fst s then (0, 0, (), (False, snd s)) else (- 1, 2, (), s))
        else (- 1, 22, (), s)),
      sys_rule = registry_rule,
      sys_state_kill = (\<lambda>rq d a s. (0, 0, a, s)),
      sys_status = (\<lambda>rq d a s. (0, 0, a\<lparr>st_running := if fst s then 1 else 0\<rparr>, s)),
      sys_states = (\<lambda>rq d a s. (0, 0, a, s)),
      sys_pooladdr = (\<lambda>rq d a s. (0, 0, a, s)),
      sys_trans = (\<lambda>rq d a s. (0, 0, a, s)),
      sys_iface = (\<lambda>rq d a s. (0, 0, a, s))\<rparr>"

lemma registry_kernel_sel [simp]:
  "sys_rule registry_kernel = registry_rule"
  "sys_status registry_kernel = (\<lambda>rq d a s. (0, 0, a\<lparr>st_running := if fst s then 1 else 0\<rparr>, s))"
  by (simp_all add: registry_kernel_def)

lemma registry_switch: "documented_switch registry_kernel macos fst"
  by (simp add: documented_switch_def registry_kernel_def ioctl_request_inject macos_def
      del: ioctl_request.simps)

lemma listed_in: "(c, r) \<in> set (listed s n) \<Longrightarrow> 0 \<in> set c \<and> action_number (r_action r) = n"
  unfolding listed_def by (auto dest: in_set_takeD)

lemma listed_proper:
  "set rs \<subseteq> set (listed s n) \<Longrightarrow> \<forall>(c, r) \<in> set rs. 0 \<in> set c \<and> action_number (r_action r) = n"
  using listed_in by blast

lemma listed_length: "length (listed s n) \<le> 1000"
  by (simp add: listed_def)

text \<open>A list of proper rules that is short enough is what is listed after it is stored.\<close>

lemma listed_stored:
  assumes "\<forall>(c, r) \<in> set rs. 0 \<in> set c \<and> action_number (r_action r) = n" and "length rs \<le> 1000"
  shows "listed (b, (snd s)(n := rs)) = (listed s)(n := rs)"
proof -
  have "filter (\<lambda>(c, r). 0 \<in> set c \<and> action_number (r_action r) = n) rs = rs"
    using assms(1) by (auto simp: filter_id_conv)
  then show ?thesis using assms(2) by (simp add: listed_def fun_eq_iff)
qed

lemma registry_lists: "lists_rules registry_kernel (\<lambda>u k. listed k (action_number u))"
proof -
  have "unat (of_nat (length (listed s n)) :: u32) = length (listed s n)" for s n
  proof -
    have "length (listed s n) < 2 ^ LENGTH(32)" using listed_length [of s n] by simp
    then show ?thesis by (simp add: unat_of_nat)
  qed
  moreover have "0 \<in> set c \<and> action_number (r_action r) = n" if "i < length (listed s n)" "listed s n ! i = (c, r)" for s n i c r
    using that listed_in nth_mem by metis
  ultimately show ?thesis
    by (auto simp: lists_rules_def registry_rule_def Let_def ioctl_request_inject
        simp del: ioctl_request.simps intro!: exI)
qed

lemma registry_insert_step:
  assumes "cstr_until_nul (ir_anchor_call a) = Some name"
  shows "sys_rule registry_kernel (ioctl_request PfInsertRule) d a k =
    (let n = action_number (r_action (ir_rule a)) in
     if \<exists>e \<in> set (listed k n). calls_name name e then (- 1, 17, a, k)
     else if length (listed k n) \<ge> 1000 then (- 1, 12, a, k)
     else (0, 0, a, (fst k, (snd k)(n := (ir_anchor_call a, ir_rule a) # listed k n))))"
  using assms by (simp add: registry_rule_def ioctl_request_inject Let_def del: ioctl_request.simps)

lemma registry_insert: "documented_insert registry_kernel macos action_number listed"
  unfolding documented_insert_def
proof (intro allI impI)
  fix d k ret errno a' k' name and a :: pfioc_rule
  let ?n = "action_number (r_action (ir_rule a))"
  assume run: "sys_rule registry_kernel (ioctl_request PfInsertRule) d a k = (ret, errno, a', k')"
    and name: "cstr_until_nul (ir_anchor_call a) = Some name"
  have z: "0 \<in> set (ir_anchor_call a)" using name by (auto simp: cstr_until_nul_def split: if_splits)
  note run = run [unfolded registry_insert_step [OF name] Let_def]
  show "if ret = - 1
      then listed k' = listed k \<and> (errno = EEXIST macos \<longleftrightarrow> (\<exists>e \<in> set (listed k ?n). calls_name name e))
      else (\<forall>e \<in> set (listed k ?n). \<not> calls_name name e) \<and>
        (\<exists>xs ys. listed k ?n = xs @ ys \<and>
          listed k' = (listed k)(?n := xs @ (ir_anchor_call a, ir_rule a) # ys))"
  proof (cases "\<exists>e \<in> set (listed k ?n). calls_name name e")
    case True
    have "ret = - 1" "errno = 17" "k' = k" using run [unfolded if_P [OF True] prod.inject] by blast+
    then show ?thesis using True by (simp add: macos_def)
  next
    case False
    note run = run [unfolded if_not_P [OF False]]
    show ?thesis
    proof (cases "1000 \<le> length (listed k ?n)")
      case True
      have "ret = - 1" "errno = 12" "k' = k" using run [unfolded if_P [OF True] prod.inject] by blast+
      then show ?thesis using False by (simp add: macos_def)
    next
      case room: False
      have ret: "ret = 0" and k': "k' = (fst k, (snd k)(?n := (ir_anchor_call a, ir_rule a) # listed k ?n))"
        using run [unfolded if_not_P [OF room] prod.inject] by blast+
      have "\<forall>(c, r) \<in> set ((ir_anchor_call a, ir_rule a) # listed k ?n). 0 \<in> set c \<and> action_number (r_action r) = ?n"
        using z listed_proper [OF order_refl, of k ?n] by simp
      then have "listed k' = (listed k)(?n := (ir_anchor_call a, ir_rule a) # listed k ?n)"
        unfolding k' using room by (intro listed_stored) simp_all
      then have "\<exists>xs ys. listed k ?n = xs @ ys \<and> listed k' = (listed k)(?n := xs @ (ir_anchor_call a, ir_rule a) # ys)"
        by (intro exI [of _ "[]"] exI conjI) simp_all
      moreover have "ret \<noteq> - 1" unfolding ret by simp
      moreover have "\<forall>e \<in> set (listed k ?n). \<not> calls_name name e" using False by blast
      ultimately show ?thesis by (subst if_not_P) blast+
    qed
  qed
qed

lemma registry_delete: "documented_delete registry_kernel action_number listed"
  unfolding documented_delete_def
proof (intro allI impI)
  fix d k ret errno a' k' and a :: pfioc_rule
  let ?n = "action_number (r_action (ir_rule a))" and ?i = "unat (ir_nr a)"
  let ?rs = "take ?i (listed k ?n) @ drop (Suc ?i) (listed k ?n)"
  assume "sys_rule registry_kernel (ioctl_request PfDeleteRule) d a k = (ret, errno, a', k')"
  then consider "(ret, errno, a', k') = (0, 0, a, (fst k, (snd k)(?n := ?rs)))"
    | "(ret, errno, a', k') = (- 1, 22, a, k)"
    by (auto simp: registry_rule_def Let_def ioctl_request_inject simp del: ioctl_request.simps split: if_splits)
  then show "if ret = - 1 then listed k' = listed k else listed k' = (listed k)(?n := ?rs)"
  proof cases
    case 1
    have "\<forall>(c, r) \<in> set ?rs. 0 \<in> set c \<and> action_number (r_action r) = ?n"
      by (rule listed_proper [where s = k]) (auto dest: in_set_takeD in_set_dropD)
    moreover have "length ?rs \<le> 1000" using listed_length [of k ?n] by simp
    ultimately have "listed k' = (listed k)(?n := ?rs)" using 1 listed_stored by simp
    then show ?thesis using 1 by simp
  qed simp
qed

lemma registry_anchors: "documented_anchors registry_kernel macos action_number listed"
proof -
  have "inj (\<lambda>k. action_number (anchor_kind_to_u8 k))"
  proof (rule injI)
    fix k l assume "action_number (anchor_kind_to_u8 k) = action_number (anchor_kind_to_u8 l)"
    then show "k = l" by (cases k; cases l) (simp_all add: action_number_def)
  qed
  moreover have "\<forall>k n. \<forall>(c, r) \<in> set (listed k n). action_number (r_action r) = n"
    using listed_in by blast
  ultimately show ?thesis using registry_lists registry_insert registry_delete by (simp add: documented_anchors_def)
qed

section \<open>Properties\<close>

text \<open>
  C6. The registry of anchors: on a kernel that inserts and deletes rules as the crate documents it,
  every sequence of \<open>add_anchor\<close>, \<open>try_add_anchor\<close>, \<open>remove_anchor\<close> and \<open>try_remove_anchor\<close> with
  names that are not empty is a run of an abstract registry that keeps a set of names for each
  kind of anchor: each operation has the result and the effect of insertion into or removal from
  the set of its kind, unless the kernel refuses for a reason of its own or the name does not
  fit, and then no set changes. No name is ever listed twice. (The empty name is excluded
  because every rule that calls no anchor has it: removing it removes such a rule.)
\<close>

theorem anchors_refine_registry:
  assumes "documented_anchors K X N A" and "\<forall>(op, name, akind) \<in> set cmds. name \<noteq> []"
    and "\<forall>s. unique_calls (A (w_kernel w) s)" and "anchor_runs K X c cmds w = (hist, w')"
  shows "map fst hist = cmds \<and> (\<forall>s. unique_calls (A (w_kernel w') s)) \<and>
    registry_run hist (anchors_of N A (w_kernel w)) (anchors_of N A (w_kernel w'))"
  using assms by (rule anchor_runs_refine)

definition registry_world :: "registry world" where
  "registry_world = \<lparr>w_kernel = (False, \<lambda>_. []), w_calls = []\<rparr>"

lemma registry_world_empty: "listed (w_kernel registry_world) = (\<lambda>_. [])"
  by (simp add: registry_world_def listed_def fun_eq_iff)

lemma anchors_refine_registry_witness:
  "case anchor_runs registry_kernel macos \<lparr>ctl_file = 3\<rparr>
       [(Op_Add, [97], AnchorKind_Nat), (Op_TryRemove, [97], AnchorKind_Filter), (Op_Remove, [97], AnchorKind_Nat)]
       registry_world of (hist, w') \<Rightarrow>
     registry_run hist (\<lambda>_. {}) (anchors_of action_number listed (w_kernel w')) \<and> length hist = 3"
proof -
  let ?cmds = "[(Op_Add, [97], AnchorKind_Nat), (Op_TryRemove, [97], AnchorKind_Filter), (Op_Remove, [97], AnchorKind_Nat)]"
  obtain hist w' where run: "anchor_runs registry_kernel macos \<lparr>ctl_file = 3\<rparr> ?cmds registry_world = (hist, w')"
    by fastforce
  have e: "anchors_of action_number listed (w_kernel registry_world) = (\<lambda>_. {})"
    "\<forall>s. unique_calls (listed (w_kernel registry_world) s)"
    by (simp_all add: registry_world_empty anchors_of_def unique_calls_def fun_eq_iff)
  have names: "\<forall>(op, name, akind) \<in> set ?cmds. name \<noteq> []" by simp
  have "map fst hist = ?cmds \<and> registry_run hist (\<lambda>_. {}) (anchors_of action_number listed (w_kernel w'))"
    using anchors_refine_registry [where A = listed and N = action_number, OF registry_anchors names e(2) run] e(1) by simp
  moreover have "length hist = length (map fst hist)" by simp
  ultimately show ?thesis unfolding run prod.case by simp
qed

text \<open>
  C12. Adding and removing an anchor is a round trip, on a kernel that inserts and deletes rules as the
  crate documents it and for a name that is not empty: after \<open>add_anchor\<close> succeeded,
  \<open>remove_anchor\<close> never reports that the anchor is missing; it restores every ruleset exactly, the
  order of the other rules included, or the kernel refuses and the rulesets stay with the anchor.
\<close>

theorem anchor_roundtrip:
  assumes "documented_anchors K X N A" and "name \<noteq> []"
    and "add_anchor K X c name akind w = (Ok (), w1)" and "remove_anchor K X c name akind w1 = (q, w2)"
  shows "q = Ok () \<and> A (w_kernel w2) = A (w_kernel w) \<or>
    (\<exists>e. q = Err e \<and> kind e \<in> {Kind_Ioctl, Kind_StateAlreadyActive}) \<and> A (w_kernel w2) = A (w_kernel w1)"
  using assms by (rule add_then_remove)

lemma registry_adds:
  "\<exists>w1. add_anchor registry_kernel macos \<lparr>ctl_file = 3\<rparr> [97] AnchorKind_Filter registry_world = (Ok (), w1)"
proof -
  have "name_fits 1024 [97]" by (simp add: name_fits_def)
  moreover have "cstr_until_nul (nul_terminated [97] (zeros 1024)) = Some [97]"
    by (rule cstr_nul_terminated) simp_all
  ultimately show ?thesis
    by (simp add: add_anchor_def copy_anchor_name_cases pfioc_rule_zeroed_def io_bind_def io_lift_def io_return_def
        pf_insert_rule_def guarded_def call_def ioctl_guard_def IOCTL_ERROR_def registry_rule_def ioctl_request_inject
        registry_world_empty Let_def del: ioctl_request.simps)
qed

lemma anchor_roundtrip_witness:
  "case add_anchor registry_kernel macos \<lparr>ctl_file = 3\<rparr> [97] AnchorKind_Filter registry_world of (p, w1) \<Rightarrow>
     p = Ok () \<and>
     (case remove_anchor registry_kernel macos \<lparr>ctl_file = 3\<rparr> [97] AnchorKind_Filter w1 of (q, w2) \<Rightarrow>
        q = Ok () \<and> listed (w_kernel w2) = (\<lambda>_. []) \<or>
        (\<exists>e. q = Err e \<and> kind e \<in> {Kind_Ioctl, Kind_StateAlreadyActive}) \<and> listed (w_kernel w2) = listed (w_kernel w1))"
proof -
  obtain w1 where add: "add_anchor registry_kernel macos \<lparr>ctl_file = 3\<rparr> [97] AnchorKind_Filter registry_world = (Ok (), w1)"
    using registry_adds by blast
  obtain q w2 where remove: "remove_anchor registry_kernel macos \<lparr>ctl_file = 3\<rparr> [97] AnchorKind_Filter w1 = (q, w2)"
    by fastforce
  show ?thesis
    using anchor_roundtrip [where A = listed and N = action_number, OF registry_anchors _ add remove]
    by (simp add: add remove registry_world_empty)
qed

text \<open>
  C13. The firewall is a switch: on a kernel that starts and stops as documented, \<open>enable\<close>,
  \<open>try_enable\<close>, \<open>disable\<close> and \<open>try_disable\<close> have the result and the effect of the abstract switch,
  or the kernel refuses for a reason of its own, which all four report, and nothing changes; and
  \<open>is_enabled\<close> tells the state that it leaves.
\<close>

theorem switch_state:
  assumes "documented_switch K X R" and "switch_run K X c op w = (q, w')" and "is_enabled K X c w' = (Ok b, w'')"
  shows "((q, R (w_kernel w')) = switch_spec op (R (w_kernel w)) \<or>
      (\<exists>e. q = Err (Ioctl e)) \<and> R (w_kernel w') = R (w_kernel w)) \<and>
    b = R (w_kernel w') \<and> R (w_kernel w'') = R (w_kernel w')"
  using switch_refines [OF assms(1,2)] is_enabled_tells [OF assms(1,3)] by blast

lemma switch_state_witness:
  "case switch_run registry_kernel macos \<lparr>ctl_file = 3\<rparr> Op_TryEnable registry_world of (q, w') \<Rightarrow>
     case is_enabled registry_kernel macos \<lparr>ctl_file = 3\<rparr> w' of (p, w'') \<Rightarrow>
       q = Ok () \<and> p = Ok True \<and> fst (w_kernel w'')"
proof -
  obtain w' where q: "switch_run registry_kernel macos \<lparr>ctl_file = 3\<rparr> Op_TryEnable registry_world = (Ok (), w')" and on: "fst (w_kernel w')"
    by (simp add: try_enable_def enable_def ignoring_def pf_start_def guarded_def call_def ioctl_guard_def
        IOCTL_ERROR_def registry_kernel_def registry_world_def ioctl_request_inject del: ioctl_request.simps)
  obtain b w'' where p: "is_enabled registry_kernel macos \<lparr>ctl_file = 3\<rparr> w' = (Ok b, w'')"
    by (simp add: is_enabled_def pf_get_status_def guarded_def call_def ioctl_guard_def
        IOCTL_ERROR_def io_bind_def io_return_def del: ioctl_request.simps)
  show ?thesis
    using switch_state [where R = fst, OF registry_switch q p] on unfolding q by (simp add: p)
qed

end
