(* ===== verification/Conversions.thy ===== *)
theory Conversions
  imports PfCtl
begin

text \<open>
  What callers build rules from: the conversions into endpoints, NAT endpoints, interfaces, user
  and group ids, routes and flags (the \<open>From\<close> and \<open>Default\<close> implementations of \<open>rule/endpoint.rs\<close>,
  \<open>rule/mod.rs\<close>, \<open>rule/interface.rs\<close>, \<open>rule/uid.rs\<close>, \<open>rule/gid.rs\<close>, \<open>rule/route.rs\<close>,
  \<open>rule/tcp_flags.rs\<close>, \<open>transaction.rs\<close>), the error of a builder and the descriptor of a \<open>PfCtl\<close>. The lemmas show
  that the conversions agree with one another and which bytes a converted host stands for in a rule.
\<close>

section \<open>Endpoints\<close>

definition endpoint_ip :: "endpoint \<Rightarrow> ip" where
  "endpoint_ip self = ep_ip self"

definition endpoint_port :: "endpoint \<Rightarrow> port" where
  "endpoint_port self = ep_port self"

definition endpoint_from_ipv4 :: "externals \<Rightarrow> ipv4addr \<Rightarrow> endpoint result" where
  "endpoint_from_ipv4 X a = obind (ip_from_ipv4 X a) (\<lambda>i. Ok (endpoint_from_ip i))"

definition endpoint_from_ipv6 :: "externals \<Rightarrow> ipv6addr \<Rightarrow> endpoint result" where
  "endpoint_from_ipv6 X a = obind (ip_from_ipv6 X a) (\<lambda>i. Ok (endpoint_from_ip i))"

text \<open>The flow information and scope of an IPv6 socket address are not read.\<close>

definition endpoint_from_socket_v4 :: "externals \<Rightarrow> ipv4addr \<Rightarrow> u16 \<Rightarrow> endpoint result" where
  "endpoint_from_socket_v4 X a p =
     obind (ip_from_ipv4 X a) (\<lambda>i. Ok (endpoint_new i (port_from_u16 p)))"

definition endpoint_from_socket_v6 :: "externals \<Rightarrow> ipv6addr \<Rightarrow> u16 \<Rightarrow> endpoint result" where
  "endpoint_from_socket_v6 X a p =
     obind (ip_from_ipv6 X a) (\<lambda>i. Ok (endpoint_new i (port_from_u16 p)))"

definition nat_endpoint_from_endpoint :: "endpoint \<Rightarrow> nat_endpoint" where
  "nat_endpoint_from_endpoint e = NatEndpoint e"

definition nat_endpoint_from_ipv4 :: "externals \<Rightarrow> ipv4addr \<Rightarrow> nat_endpoint result" where
  "nat_endpoint_from_ipv4 X a = obind (ip_from_ipv4 X a) (\<lambda>i. Ok (nat_endpoint_from_ip i))"

definition nat_endpoint_from_ipv6 :: "externals \<Rightarrow> ipv6addr \<Rightarrow> nat_endpoint result" where
  "nat_endpoint_from_ipv6 X a = obind (ip_from_ipv6 X a) (\<lambda>i. Ok (nat_endpoint_from_ip i))"

section \<open>Interfaces, ids, routes and flags\<close>

text \<open>\<open>InterfaceName\<close>, \<open>Uid\<close> and \<open>Gid\<close> are structs around one value.\<close>

type_synonym interface_name = rstring
type_synonym uid = id
type_synonym gid = id

definition interface_name_as_ref :: "interface_name \<Rightarrow> rstring" where
  "interface_name_as_ref self = self"

definition interface_from :: "rstring \<Rightarrow> interface" where
  "interface_from name = Interface_Name name"

definition uid_default :: uid where
  "uid_default = Id_Any"

definition uid_from :: "id \<Rightarrow> uid" where
  "uid_from i = i"

definition gid_default :: gid where
  "gid_default = Id_Any"

definition gid_from :: "id \<Rightarrow> gid" where
  "gid_from i = i"

definition route_to :: "pool_addr \<Rightarrow> route" where
  "route_to a = RouteTo a"

definition reply_to :: "pool_addr \<Rightarrow> route" where
  "reply_to a = ReplyTo a"

definition dup_to :: "pool_addr \<Rightarrow> route" where
  "dup_to a = DupTo a"

definition tcp_flags_from :: "tcp_flag list \<times> tcp_flag list \<Rightarrow> tcp_flags" where
  "tcp_flags_from p = tcp_flags_new (fst p) (snd p)"

section \<open>Transactions, errors and the device\<close>

definition transaction_default :: transaction where
  "transaction_default = transaction_new"

definition anchor_change_default :: anchor_change where
  "anchor_change_default = anchor_change_new"

text \<open>The error of a builder whose mandatory field was not set; it is known by that field.\<close>

definition error_from_uninitialized_field :: "string \<Rightarrow> error" where
  "error_from_uninitialized_field value = UninitializedFieldError value"

definition pfctl_fd :: "pfctl \<Rightarrow> fd" where
  "pfctl_fd self = ctl_file self"

lemma uninitialized_field_kind:
  "kind (error_from_uninitialized_field f) = Kind_UninitializedFieldError"
  by (simp add: error_from_uninitialized_field_def)

section \<open>The conversions agree\<close>

lemma endpoint_from_addr_versions:
  "endpoint_from_addr X (IpAddr_V4 a) = endpoint_from_ipv4 X a"
  "endpoint_from_addr X (IpAddr_V6 b) = endpoint_from_ipv6 X b"
  by (simp_all add: endpoint_from_addr_def endpoint_from_ipv4_def endpoint_from_ipv6_def)

lemma endpoint_from_socket_versions:
  "endpoint_from_socket_addr X (SocketAddr (IpAddr_V4 a) p) = endpoint_from_socket_v4 X a p"
  "endpoint_from_socket_addr X (SocketAddr (IpAddr_V6 b) p) = endpoint_from_socket_v6 X b p"
  by (simp_all add: endpoint_from_socket_v4_def endpoint_from_socket_v6_def)

lemma endpoint_accessors:
  "endpoint_ip (endpoint_new i p) = i" "endpoint_port (endpoint_new i p) = p"
  "endpoint_new (endpoint_ip e) (endpoint_port e) = e"
  by (simp_all add: endpoint_ip_def endpoint_port_def endpoint_new_def)

lemma nat_endpoint_conversions:
  "nat_endpoint_deref (nat_endpoint_from_endpoint e) = e"
  "obind (endpoint_from_ipv4 X a) (\<lambda>e. Ok (ep_ip e)) =
     obind (nat_endpoint_from_ipv4 X a) (\<lambda>n. Ok (ep_ip (nat_endpoint_deref n)))"
  "obind (endpoint_from_ipv6 X b) (\<lambda>e. Ok (ep_ip e)) =
     obind (nat_endpoint_from_ipv6 X b) (\<lambda>n. Ok (ep_ip (nat_endpoint_deref n)))"
  by (simp_all add: nat_endpoint_from_endpoint_def endpoint_from_ipv4_def endpoint_from_ipv6_def
      nat_endpoint_from_ipv4_def nat_endpoint_from_ipv6_def endpoint_from_ip_def nat_endpoint_from_ip_def
      endpoint_new_def obind_assoc)

text \<open>The pool address of a route is the one it was built from.\<close>

lemma route_pool_addr:
  "get_pool_addr (route_to a) = Some a" "get_pool_addr (reply_to a) = Some a"
  "get_pool_addr (dup_to a) = Some a"
  by (simp_all add: route_to_def reply_to_def dup_to_def)

text \<open>Default ids constrain nothing: a zeroed struct stays zeroed.\<close>

lemma default_ids_copied:
  "uid_copy_to uid_default pf_rule_uid_zeroed = pf_rule_uid_zeroed"
  "gid_copy_to gid_default pf_rule_gid_zeroed = pf_rule_gid_zeroed"
  by (simp_all add: uid_default_def gid_default_def pf_rule_uid_zeroed_def pf_rule_gid_zeroed_def
      pf_constants list_update_same_conv)

section \<open>The mask of a host\<close>

lemma be_bytes_ones: "be_bytes (- 1 :: 'w::len word) = replicate (LENGTH('w) div 8) 255"
proof -
  have "ucast (drop_bit (8 * i) (- 1 :: 'w word)) = (255 :: u8)" if "i < LENGTH('w) div 8" for i
  proof (rule bit_word_eqI)
    fix j assume j: "j < LENGTH(8)"
    then have "bit (255 :: u8) j" using bit_mask_iff [of 8 j, where 'a = u8] by (simp add: mask_eq_exp_minus_1)
    moreover have "8 * i + j < LENGTH('w)" using that j by simp
    ultimately show "bit (ucast (drop_bit (8 * i) (- 1 :: 'w word)) :: u8) j = bit (255 :: u8) j"
      using j by (simp add: bit_ucast_iff bit_drop_bit_eq drop_bit_minus_one bit_mask_iff)
  qed
  then have "le_bytes (- 1 :: 'w word) = map (\<lambda>i. 255) [0..<LENGTH('w) div 8]"
    unfolding le_bytes_def by (intro map_cong) simp_all
  then show ?thesis by (simp add: be_bytes_def map_replicate_const)
qed

section \<open>Properties\<close>

text \<open>
  C30. A rule made from a socket address is about exactly that host and port: the conversion cannot
  fail, the endpoint has the family of the address and can be copied, and the copied struct
  holds the address and the port in network order, compares the port for equality, and masks
  with all ones, in as many bytes as the address has.
\<close>

theorem host_endpoint_struct:
  assumes "documented_ipnetwork X" and "pf_rule_addr_wf d"
  shows "\<exists>e d'. endpoint_from_socket_addr X (SocketAddr a p) = Ok e \<and>
    endpoint_get_af e = addr_family_of a \<and> endpoint_copy_to X e d = Ok d' \<and>
    am_addr (aw_v (ra_addr d')) = ip_addr_copy_to a (am_addr (aw_v (ra_addr d))) \<and>
    take (case a of IpAddr_V4 _ \<Rightarrow> 4 | IpAddr_V6 _ \<Rightarrow> 16) (pfa (am_mask (aw_v (ra_addr d')))) =
      replicate (case a of IpAddr_V4 _ \<Rightarrow> 4 | IpAddr_V6 _ \<Rightarrow> 16) 255 \<and>
    concat (map le_bytes (pr_port (ra_xport d'))) = be_bytes p @ [0, 0] \<and>
    pr_op (ra_xport d') = 2"
proof -
  have wf: "pf_addr_wf (am_mask (aw_v (ra_addr d)))" "pf_port_range_wf (ra_xport d)"
    using assms(2) by (simp_all add: pf_rule_addr_wf_def pf_addr_wrap_wf_def pf_addr_mask_wf_def)
  have net: "\<exists>net. ip_from_addr X a = Ok (Ip_Net net) \<and> net_ip net = a \<and>
      net_mask net = (case a of IpAddr_V4 _ \<Rightarrow> IpAddr_V4 (- 1) | IpAddr_V6 _ \<Rightarrow> IpAddr_V6 (- 1))"
    using assms(1) by (cases a) (simp_all add: documented_ipnetwork_def ip_from_ipv4_def ip_from_ipv6_def)
  then obtain net where net: "ip_from_addr X a = Ok (Ip_Net net)" "net_ip net = a"
    "net_mask net = (case a of IpAddr_V4 _ \<Rightarrow> IpAddr_V4 (- 1) | IpAddr_V6 _ \<Rightarrow> IpAddr_V6 (- 1))" by blast
  let ?e = "endpoint_new (Ip_Net net) (port_from_u16 p)"
  have "\<exists>d'. endpoint_copy_to X ?e d = Ok d'"
    by (simp add: endpoint_copy_ok [OF assms(1)] endpoint_new_def port_from_u16_def)
  then obtain d' where d': "endpoint_copy_to X ?e d = Ok d'" by blast
  then have addr: "ra_addr d' = network_copy_to net (ra_addr d)"
    and port: "port_copy_to_range (port_from_u16 p) (ra_xport d) = Ok (ra_xport d')"
    by (auto simp: endpoint_copy_to_def endpoint_new_def outcome_simps)
  have mask: "pfa (am_mask (aw_v (ra_addr d'))) = pfa (ip_addr_copy_to (net_mask net) (am_mask (aw_v (ra_addr d))))"
    by (simp add: addr network_copy_to_def)
  have ones: "take (case a of IpAddr_V4 _ \<Rightarrow> 4 | IpAddr_V6 _ \<Rightarrow> 16) (pfa (am_mask (aw_v (ra_addr d')))) =
      replicate (case a of IpAddr_V4 _ \<Rightarrow> 4 | IpAddr_V6 _ \<Rightarrow> 16) 255"
    unfolding mask net(3) by (cases a)
      (simp_all only: ip_addr.case pfa_copy_v4 [OF wf(1)] pfa_copy_v6 [OF wf(1)] be_bytes_ones, simp_all)
  have "be_bytes (0 :: u16) = [0, 0]" by (simp add: be_bytes_def le_bytes_def upt_rec)
  then have ports: "concat (map le_bytes (pr_port (ra_xport d'))) = be_bytes p @ [0, 0]" "pr_op (ra_xport d') = 2"
    using port_range_copied_bytes [OF wf(2) port] arg_cong [OF port, of "\<lambda>q. case q of Ok r \<Rightarrow> pr_op r | _ \<Rightarrow> 0"]
    by (simp_all add: port_from_u16_def pf_constants)
  have "endpoint_get_af ?e = addr_family_of a"
    using net(2) by (cases net) (auto simp: endpoint_get_af_def endpoint_new_def)
  then show ?thesis
    using d' net(1,2) ones ports by (intro exI [of _ ?e] exI [of _ d']) (simp add: addr network_copy_to_def)
qed


text \<open>The host 127.0.0.1:443, written into a zeroed struct.\<close>

lemma host_endpoint_struct_witness:
  "case obind (endpoint_from_socket_addr macos (SocketAddr (IpAddr_V4 0x7F000001) 443))
      (\<lambda>e. endpoint_copy_to macos e pf_rule_addr_zeroed) of
     Ok d \<Rightarrow> take 4 (pfa (am_mask (aw_v (ra_addr d)))) = [255, 255, 255, 255] \<and>
       concat (map le_bytes (pr_port (ra_xport d))) = [1, 187, 0, 0]
   | _ \<Rightarrow> False"
proof -
  have "be_bytes (443 :: u16) = [1, 187]" by (simp add: be_bytes_def le_bytes_def upt_rec drop_bit_eq_div)
  then show ?thesis
    using host_endpoint_struct [OF macos_ipnetwork pf_rule_addr_zeroed_wf, of "IpAddr_V4 0x7F000001" 443]
    by (auto simp: numeral_eq_Suc)
qed

end
