(* ===== verification/Examples.thy ===== *)
theory Examples
  imports Conversions PfStates
begin

text \<open>
  The five programs of \<open>examples/\<close>, which compose the operations of the crate: enabling the
  firewall, adding anchors, flushing them, setting the rules of an anchor in one transaction and
  appending rules one by one. An \<open>expect\<close> or \<open>unwrap\<close> on an error is a panic, the arguments of the
  command line are a parameter, and what is printed is left out. A builder chain is the record that
  the setters leave in a builder whose mandatory fields are set; a setter converts its argument.
\<close>

section \<open>Expecting success\<close>

fun expected :: "'a result \<Rightarrow> 'a result" where
  "expected (Ok x) = Ok x"
| "expected (Err e) = Panic"
| "expected Panic = Panic"

definition io_expect :: "('k, 'a) io \<Rightarrow> ('k, 'a) io" where
  "io_expect m = (\<lambda>w. case m w of (r, w') \<Rightarrow> (expected r, w'))"

definition ipv4addr_new :: "u8 \<Rightarrow> u8 \<Rightarrow> u8 \<Rightarrow> u8 \<Rightarrow> ipv4addr" where
  "ipv4addr_new a b c d = push_bit 24 (ucast a) + push_bit 16 (ucast b) + push_bit 8 (ucast c) + ucast d"

section \<open>\<open>enable.rs\<close>\<close>

definition enable_main :: "'k kernel \<Rightarrow> externals \<Rightarrow> ('k, unit) io" where
  "enable_main K X =
     io_bind (io_expect (pfctl_new K)) (\<lambda>pf. \<lambda>w.
       case enable K X pf w of
         (Ok _, w') \<Rightarrow> (Ok (), w')
       | (Err e, w') \<Rightarrow> (if kind e = Kind_StateAlreadyActive then Ok () else Panic, w')
       | (Panic, w') \<Rightarrow> (Panic, w'))"

section \<open>\<open>add_anchor.rs\<close>\<close>

definition add_anchor_main :: "'k kernel \<Rightarrow> externals \<Rightarrow> rstring list \<Rightarrow> ('k, unit) io" where
  "add_anchor_main K X args =
     io_bind (io_expect (pfctl_new K)) (\<lambda>pf.
     io_for args (\<lambda>anchor_name.
       io_bind (io_expect (try_add_anchor K X pf anchor_name AnchorKind_Filter)) (\<lambda>_.
       io_bind (io_expect (try_add_anchor K X pf anchor_name AnchorKind_Redirect)) (\<lambda>_.
       io_expect (try_add_anchor K X pf anchor_name AnchorKind_Scrub)))))"

section \<open>\<open>flush_rules.rs\<close>\<close>

definition flush_rules_main :: "'k kernel \<Rightarrow> externals \<Rightarrow> rstring list \<Rightarrow> ('k, unit) io" where
  "flush_rules_main K X args =
     io_bind (io_expect (pfctl_new K)) (\<lambda>pf.
     io_for args (\<lambda>anchor_name.
       io_bind (io_expect (flush_rules K X anchor_name RulesetKind_Filter)) (\<lambda>_.
       io_bind (io_expect (flush_rules K X anchor_name RulesetKind_Nat)) (\<lambda>_.
       io_bind (io_expect (flush_rules K X anchor_name RulesetKind_Redirect)) (\<lambda>_.
       io_expect (flush_rules K X anchor_name RulesetKind_Scrub))))))"

section \<open>\<open>transaction.rs\<close>\<close>

definition ANCHOR_NAME :: rstring where
  "ANCHOR_NAME = map of_char ''test.anchor''"

definition trans_rule1 :: "externals \<Rightarrow> filter_rule result" where
  "trans_rule1 X =
     obind (endpoint_from_ipv4 X (ipv4addr_new 192 168 234 1)) (\<lambda>from.
     Ok ((filter_rule_default (FilterRuleAction_Drop DropAction_Drop))\<lparr>fr_from := from\<rparr>))"

definition trans_rule2 :: "externals \<Rightarrow> filter_rule result" where
  "trans_rule2 X =
     obind (endpoint_from_ipv4 X (ipv4addr_new 192 168 234 2)) (\<lambda>from.
     Ok ((filter_rule_default (FilterRuleAction_Drop DropAction_Drop))
       \<lparr>fr_from := from, fr_to := endpoint_from_port (port_from_u16 80)\<rparr>))"

text \<open>The redirect rule that the builder makes when only the mandatory fields are set.\<close>

definition redirect_rule_default :: "redirect_rule_action \<Rightarrow> endpoint \<Rightarrow> redirect_rule" where
  "redirect_rule_default action redirect_to =
     \<lparr>rr_action = action, rr_direction = Direction_Any, rr_quick = False, rr_log = RuleLogSet [],
      rr_interface = Interface_Any, rr_proto = Proto_Any, rr_af = AddrFamily_Any,
      rr_from = endpoint_new Ip_Any Port_Any, rr_to = endpoint_new Ip_Any Port_Any,
      rr_label = [], rr_user = Id_Any, rr_group = Id_Any, rr_redirect_to = redirect_to\<rparr>"

definition scrub_rule_default :: "scrub_rule_action \<Rightarrow> scrub_rule" where
  "scrub_rule_default action = \<lparr>sr_action = action, sr_direction = Direction_Any\<rparr>"

definition trans_rule3 :: redirect_rule where
  "trans_rule3 =
     (redirect_rule_default RedirectRuleAction_Redirect (endpoint_from_port (port_from_u16 1338)))
       \<lparr>rr_to := endpoint_from_port (port_from_u16 1337)\<rparr>"

definition trans_rule4 :: scrub_rule where
  "trans_rule4 = scrub_rule_default ScrubRuleAction_Scrub"

definition trans_change :: "filter_rule \<Rightarrow> filter_rule \<Rightarrow> redirect_rule \<Rightarrow> scrub_rule \<Rightarrow> anchor_change" where
  "trans_change rule1 rule2 rule3 rule4 =
    (let trans_change = anchor_change_new;
         trans_change = set_filter_rules [rule1, rule2] trans_change;
         trans_change = set_redirect_rules [rule3] trans_change
     in set_scrub_rules [rule4] trans_change)"

definition transaction_main :: "'k kernel \<Rightarrow> externals \<Rightarrow> ('k, unit) io" where
  "transaction_main K X =
     io_bind (io_expect (pfctl_new K)) (\<lambda>pf.
     io_bind (io_expect (try_add_anchor K X pf ANCHOR_NAME AnchorKind_Filter)) (\<lambda>_.
     io_bind (io_expect (try_add_anchor K X pf ANCHOR_NAME AnchorKind_Redirect)) (\<lambda>_.
     io_bind (io_expect (try_add_anchor K X pf ANCHOR_NAME AnchorKind_Scrub)) (\<lambda>_.
     io_bind (io_lift (trans_rule1 X)) (\<lambda>rule1.
     io_bind (io_lift (trans_rule2 X)) (\<lambda>rule2.
     io_expect (set_rules K X ANCHOR_NAME (trans_change rule1 rule2 trans_rule3 trans_rule4))))))))"

section \<open>\<open>add_rules.rs\<close>\<close>

abbreviation pass_rule :: filter_rule where
  "pass_rule \<equiv> filter_rule_default FilterRuleAction_Pass"

definition pass_all_rule :: filter_rule where
  "pass_all_rule = pass_rule"

definition pass_all_ipv4_quick_rule :: filter_rule where
  "pass_all_ipv4_quick_rule = pass_rule\<lparr>fr_af := AddrFamily_Ipv4, fr_quick := True\<rparr>"

definition pass_all_ipv6_on_utun0_rule :: filter_rule where
  "pass_all_ipv6_on_utun0_rule =
     pass_rule\<lparr>fr_af := AddrFamily_Ipv6, fr_interface := interface_from (map of_char ''utun0'')\<rparr>"

definition pass_all_icmp_echo_req :: filter_rule where
  "pass_all_icmp_echo_req =
     pass_rule\<lparr>fr_af := AddrFamily_Ipv4, fr_proto := Proto_Icmp, fr_icmp_type := Some EchoReq\<rparr>"

definition pass_all_icmp_port_unreach :: filter_rule where
  "pass_all_icmp_port_unreach =
     pass_rule\<lparr>fr_af := AddrFamily_Ipv4, fr_proto := Proto_Icmp, fr_icmp_type := Some (Unreach PortUnreach)\<rparr>"

definition pass_all_icmp_timex_transit :: filter_rule where
  "pass_all_icmp_timex_transit =
     pass_rule\<lparr>fr_af := AddrFamily_Ipv4, fr_proto := Proto_Icmp, fr_icmp_type := Some (Timex Transit)\<rparr>"

definition pass_all_icmp_timex_reassembly :: filter_rule where
  "pass_all_icmp_timex_reassembly =
     pass_rule\<lparr>fr_af := AddrFamily_Ipv4, fr_proto := Proto_Icmp, fr_icmp_type := Some (Timex Reassembly)\<rparr>"

definition block_a_private_net_rule :: "externals \<Rightarrow> filter_rule result" where
  "block_a_private_net_rule X =
     obind (unwrap (ipv4network_new X (ipv4addr_new 10 0 0 0) 8)) (\<lambda>(addr, mask).
     Ok ((filter_rule_default (FilterRuleAction_Drop DropAction_Drop))
       \<lparr>fr_from := endpoint_from_ip (ip_from_network (IpNetwork_V4 addr mask))\<rparr>))"

definition redirect_incoming_tcp_from_port_3000_to_4000 :: "externals \<Rightarrow> redirect_rule result" where
  "redirect_incoming_tcp_from_port_3000_to_4000 X =
     obind (ip_from_ipv4 X (ipv4addr_new 127 0 0 1)) (\<lambda>ip.
     Ok ((redirect_rule_default RedirectRuleAction_Redirect (endpoint_new ip (Port_One 4000 PortUnary_Equal)))
       \<lparr>rr_af := AddrFamily_Ipv4, rr_proto := Proto_Tcp, rr_direction := Direction_In,
        rr_to := endpoint_from_port (Port_One 3000 PortUnary_Equal)\<rparr>))"

definition example_scrub_rule :: scrub_rule where
  "example_scrub_rule = scrub_rule_default ScrubRuleAction_Scrub"

definition add_rules_main :: "'k kernel \<Rightarrow> externals \<Rightarrow> ('k, unit) io" where
  "add_rules_main K X =
     io_bind (io_expect (pfctl_new K)) (\<lambda>pf.
     io_bind (io_expect (try_add_anchor K X pf ANCHOR_NAME AnchorKind_Filter)) (\<lambda>_.
     io_bind (io_expect (try_add_anchor K X pf ANCHOR_NAME AnchorKind_Redirect)) (\<lambda>_.
     io_bind (io_lift (block_a_private_net_rule X)) (\<lambda>block_rule.
     io_bind (io_lift (redirect_incoming_tcp_from_port_3000_to_4000 X)) (\<lambda>redirect_rule.
     io_bind (io_expect (add_rule K X pf ANCHOR_NAME pass_all_rule)) (\<lambda>_.
     io_bind (io_expect (add_rule K X pf ANCHOR_NAME pass_all_ipv4_quick_rule)) (\<lambda>_.
     io_bind (io_expect (add_rule K X pf ANCHOR_NAME pass_all_ipv6_on_utun0_rule)) (\<lambda>_.
     io_bind (io_expect (add_rule K X pf ANCHOR_NAME block_rule)) (\<lambda>_.
     io_bind (io_expect (add_rule K X pf ANCHOR_NAME pass_all_icmp_echo_req)) (\<lambda>_.
     io_bind (io_expect (add_rule K X pf ANCHOR_NAME pass_all_icmp_port_unreach)) (\<lambda>_.
     io_bind (io_expect (add_rule K X pf ANCHOR_NAME pass_all_icmp_timex_transit)) (\<lambda>_.
     io_bind (io_expect (add_rule K X pf ANCHOR_NAME pass_all_icmp_timex_reassembly)) (\<lambda>_.
     io_bind (io_expect (add_redirect_rule_now K X pf ANCHOR_NAME redirect_rule)) (\<lambda>_.
     io_expect (add_scrub_rule_now K X pf ANCHOR_NAME example_scrub_rule)))))))))))))))"

end
