(* ===== verification/Sessions.thy ===== *)
theory Sessions
  imports FirewallSpec PfStatesSpec
begin

text \<open>
  Every request that the crate makes is well formed, in any sequence of its operations. A command
  is one call of the public interface; a session is a sequence of commands on one handle, in
  which a state can be killed only after it was obtained from the kernel. The invariant, by rule
  induction on sessions, is that all structs handed to the kernel have buffers of their declared
  sizes, that every name in them is terminated, and that the sizes announced for arrays are
  those of the arrays.
\<close>

section \<open>Well-formed requests\<close>

definition terminated :: "i8 list \<Rightarrow> bool" where
  "terminated b \<longleftrightarrow> 0 \<in> set b"

definition rule_names_ok :: "pf_rule \<Rightarrow> bool" where
  "rule_names_ok r \<longleftrightarrow> terminated (r_ifname r) \<and> terminated (r_label r)"

definition rule_arg_ok :: "pfioc_rule \<Rightarrow> bool" where
  "rule_arg_ok x \<longleftrightarrow> pfioc_rule_wf x \<and> terminated (ir_anchor x) \<and> terminated (ir_anchor_call x) \<and>
     rule_names_ok (ir_rule x)"

definition pooladdr_arg_ok :: "pfioc_pooladdr \<Rightarrow> bool" where
  "pooladdr_arg_ok p \<longleftrightarrow> pfioc_pooladdr_wf p \<and> terminated (ipa_anchor p) \<and>
     terminated (pa_ifname (ipa_addr p))"

definition element_ok :: "pfioc_trans_e \<Rightarrow> bool" where
  "element_ok e \<longleftrightarrow> pfioc_trans_e_wf e \<and> terminated (te_anchor e)"

definition trans_arg_ok :: "pfioc_trans \<Rightarrow> bool" where
  "trans_arg_ok t \<longleftrightarrow> t_size t = of_nat (length (t_array t)) \<and>
     t_esize t = of_nat (size_of pfioc_trans_pfioc_trans_e_layout) \<and> list_all element_ok (t_array t)"

definition state_kill_arg_ok :: "pfioc_state_kill \<Rightarrow> bool" where
  "state_kill_arg_ok k \<longleftrightarrow> pfioc_state_kill_wf k \<and> terminated (psk_ifname k)"

definition sync_state_ok :: "pfsync_state \<Rightarrow> bool" where
  "sync_state_ok s \<longleftrightarrow> pfsync_state_wf s \<and> terminated (s_ifname s)"

definition states_arg_ok :: "pfioc_states \<Rightarrow> bool" where
  "states_arg_ok p \<longleftrightarrow> unat (ps_len p) = size_of pfsync_state_layout * length (ps_u p) \<and>
     list_all sync_state_ok (ps_u p)"

definition iface_name_ok :: "pfioc_iface \<Rightarrow> bool" where
  "iface_name_ok i \<longleftrightarrow> pfioc_iface_wf i \<and> terminated (pfiio_name i)"

definition ifaces_arg_ok :: "pfioc_iface \<Rightarrow> bool" where
  "ifaces_arg_ok i \<longleftrightarrow> iface_name_ok i \<and> pfiio_size i = of_nat (length (pfiio_buffer i)) \<and>
     pfiio_esize i = of_nat (size_of pfi_kif_layout)"

fun request_ok :: "event \<Rightarrow> bool" where
  "request_ok (OpenDevice p) \<longleftrightarrow> p = PF_DEV_PATH"
| "request_ok (CallNone c) \<longleftrightarrow> c = PfStart \<or> c = PfStop"
| "request_ok (CallRule c x) \<longleftrightarrow> rule_arg_ok x"
| "request_ok (CallStateKill c k) \<longleftrightarrow> state_kill_arg_ok k"
| "request_ok (CallStatus c s) \<longleftrightarrow> pf_status_wf s"
| "request_ok (CallStates c p) \<longleftrightarrow> states_arg_ok p"
| "request_ok (CallPoolAddr c p) \<longleftrightarrow> pooladdr_arg_ok p"
| "request_ok (CallTrans c t) \<longleftrightarrow> trans_arg_ok t"
| "request_ok (CallIface c i) \<longleftrightarrow> (if c = PfGetIfaces then ifaces_arg_ok i else iface_name_ok i)"

text \<open>What the crate relies on in the answers that it passes on to later requests: the kernel
  leaves well-formed structs well formed and the sizes of a transaction as they were, and the
  states that it writes are well formed.\<close>

abbreviation answer :: "i32 \<times> i32 \<times> 'a \<times> 'k \<Rightarrow> 'a" where
  "answer r \<equiv> fst (snd (snd r))"

definition keeps_requests_ok :: "'k kernel \<Rightarrow> bool" where
  "keeps_requests_ok K \<longleftrightarrow>
     (\<forall>rq d a k. rule_arg_ok a \<longrightarrow> rule_arg_ok (answer (sys_rule K rq d a k))) \<and>
     (\<forall>rq d a k. trans_arg_ok a \<longrightarrow> trans_arg_ok (answer (sys_trans K rq d a k)) \<and>
        t_size (answer (sys_trans K rq d a k)) = t_size a) \<and>
     (\<forall>rq d a k. list_all sync_state_ok (ps_u a) \<longrightarrow>
        list_all sync_state_ok (ps_u (answer (sys_states K rq d a k)))) \<and>
     (\<forall>rq d a k. ifaces_arg_ok a \<longrightarrow> iface_name_ok (answer (sys_iface K rq d a k)) \<and>
        pfiio_esize (answer (sys_iface K rq d a k)) = pfiio_esize a)"

section \<open>Programs with well-formed requests\<close>

text \<open>All requests of every run are well formed, and the result satisfies a condition.\<close>

definition secures :: "('a \<Rightarrow> bool) \<Rightarrow> ('k, 'a) io \<Rightarrow> bool" where
  "secures Q m \<longleftrightarrow>
     (\<forall>w r w'. m w = (r, w') \<longrightarrow>
        (\<exists>evs. w_calls w' = w_calls w @ evs \<and> list_all request_ok evs) \<and> (\<forall>x. r = Ok x \<longrightarrow> Q x))"

abbreviation secure :: "('k, 'a) io \<Rightarrow> bool" where
  "secure \<equiv> secures (\<lambda>_. True)"

named_theorems secures_intros "programs with well-formed requests"

lemma securesD:
  assumes "secures Q m" and "m w = (r, w')"
  shows "\<exists>evs. w_calls w' = w_calls w @ evs \<and> list_all request_ok evs" and "r = Ok x \<Longrightarrow> Q x"
  using assms by (simp_all add: secures_def)

lemma secures_weaken: "secures Q m \<Longrightarrow> (\<And>x. Q x \<Longrightarrow> R x) \<Longrightarrow> secures R m"
  unfolding secures_def by blast

lemma secures_emits: "secures Q m \<Longrightarrow> emits request_ok m"
  unfolding secures_def emits_def by blast

lemma secure_emits: "emits request_ok m \<Longrightarrow> secure m"
  unfolding secures_def emits_def by blast

lemma secures_return [secures_intros]: "Q x \<Longrightarrow> secures Q (io_return x)"
  by (simp add: secures_def io_return_def)

lemma secures_lift [secures_intros]: "(\<And>x. r = Ok x \<Longrightarrow> Q x) \<Longrightarrow> secures Q (io_lift r)"
  by (simp add: secures_def io_lift_def)

lemma secures_bind:
  assumes m: "secures Q m" and f: "\<And>x. Q x \<Longrightarrow> secures R (f x)"
  shows "secures R (io_bind m f)"
  unfolding secures_def
proof (intro allI impI)
  fix w r w''
  assume run: "io_bind m f w = (r, w'')"
  obtain s w' where s: "m w = (s, w')" by fastforce
  then obtain evs where evs: "w_calls w' = w_calls w @ evs" "list_all request_ok evs"
    using securesD(1) [OF m] by blast
  show "(\<exists>evs. w_calls w'' = w_calls w @ evs \<and> list_all request_ok evs) \<and> (\<forall>x. r = Ok x \<longrightarrow> R x)"
  proof (cases s)
    case (Ok x)
    then have run': "f x w' = (r, w'')" using run s by (simp add: io_bind_def)
    have fx: "secures R (f x)" by (rule f, rule securesD(2) [OF m s Ok])
    obtain more where "w_calls w'' = w_calls w' @ more" "list_all request_ok more"
      using securesD(1) [OF fx run'] by blast
    moreover have "\<forall>x. r = Ok x \<longrightarrow> R x" using securesD(2) [OF fx run'] by blast
    ultimately have "\<exists>evs. w_calls w'' = w_calls w' @ evs \<and> list_all request_ok evs" "\<forall>x. r = Ok x \<longrightarrow> R x"
      by simp_all
    with evs show ?thesis by auto
  qed (use run s evs in \<open>auto simp: io_bind_def\<close>)
qed

lemma secures_lift_bind [secures_intros]:
  "(\<And>x. r = Ok x \<Longrightarrow> secures R (f x)) \<Longrightarrow> secures R (io_bind (io_lift r) f)"
  by (rule secures_bind [of "\<lambda>x. r = Ok x"]) (simp_all add: secures_lift)

lemma secure_bind [secures_intros]:
  "secure m \<Longrightarrow> (\<And>x. secures R (f x)) \<Longrightarrow> secures R (io_bind m f)"
  by (rule secures_bind [of "\<lambda>_. True"])

lemma secures_call:
  "request_ok ev \<Longrightarrow> (\<And>k. Q (answer (f k))) \<Longrightarrow> secures Q (guarded a (call ev f))"
  by (auto simp: secures_def guarded_def call_def outcome_simps split: prod.splits) (metis fst_conv snd_conv)

lemma secure_call [secures_intros]: "request_ok ev \<Longrightarrow> secure (guarded a (call ev f))"
  by (rule secures_call) simp_all

lemma secure_open_pf [secures_intros]: "secure (open_pf K)"
  by (intro secure_emits emits_open_pf) simp

lemma secure_for [secures_intros]:
  "(\<And>x. x \<in> set xs \<Longrightarrow> secure (f x)) \<Longrightarrow> secure (io_for xs f)"
  by (induction xs) (auto intro: secures_intros)

lemma secure_collect [secures_intros]:
  "(\<And>x. x \<in> set xs \<Longrightarrow> secure (f x)) \<Longrightarrow> secure (io_collect xs f)"
  by (induction xs) (auto intro: secures_intros)

lemma secure_ignoring [secures_intros]: "secure m \<Longrightarrow> secure (ignoring m k)"
  by (auto simp: secures_def ignoring_def split: prod.splits)

section \<open>Names and rules\<close>

lemma terminated_nul [simp]: "terminated (nul_terminated n d)"
  by (simp add: terminated_def nul_terminated_def)

lemma terminated_zeros [simp]: "terminated (zeros n) \<longleftrightarrow> 0 < n"
  by (auto simp: terminated_def)

lemma interface_copied: "interface_copy_to i d = Ok d' \<Longrightarrow> length d' = length d \<and> terminated d'"
  by (cases i) (auto simp: outcome_simps)

lemma label_copied: "str_try_copy_to s d = Ok d' \<Longrightarrow> length d' = length d \<and> terminated d'"
  by (auto simp: str_try_copy_to_Ok_iff)

lemma anchor_copied: "copy_anchor_name a d = Ok d' \<Longrightarrow> length d' = length d \<and> terminated d'"
  by (auto simp: copy_anchor_name_Ok_iff)

lemma rule_names_zeroed [simp]: "rule_names_ok pf_rule_zeroed"
  by (simp add: rule_names_ok_def pf_rule_zeroed_def)

text \<open>A copied rule has terminated names, and storing a pool keeps it well formed.\<close>

lemma filter_copied:
  "filter_rule_copy_to X f pf_rule_zeroed = Ok p \<Longrightarrow> pf_rule_wf p \<and> rule_names_ok p"
  using filter_cp.copy_wf [OF pf_rule_zeroed_wf, of X f p]
  by (auto simp: filter_rule_copy_Ok_iff rule_names_ok_def dest!: interface_copied label_copied)

lemma nat_copied:
  "nat_rule_copy_to X n pf_rule_zeroed = Ok p \<Longrightarrow> pf_rule_wf p \<and> rule_names_ok p"
  using nat_cp.copy_wf [OF pf_rule_zeroed_wf, of X n p] rule_names_zeroed
  by (auto simp: nat_rule_copy_Ok_iff rule_names_ok_def dest!: interface_copied)

lemma redirect_copied:
  "redirect_rule_copy_to X q pf_rule_zeroed = Ok p \<Longrightarrow> pf_rule_wf p \<and> rule_names_ok p"
  using redirect_cp.copy_wf [OF pf_rule_zeroed_wf, of X q p]
  by (auto simp: redirect_rule_copy_Ok_iff rule_names_ok_def dest!: interface_copied label_copied)

lemma scrub_copied:
  "scrub_rule_copy_to s pf_rule_zeroed = Ok p \<Longrightarrow> pf_rule_wf p \<and> rule_names_ok p"
  using scrub_cp.copy_wf [OF pf_rule_zeroed_wf, of s p] rule_names_zeroed
  by (auto simp: scrub_rule_copy_to_def rule_names_ok_def)

lemma pool_stored_wf: "pf_rule_wf p \<Longrightarrow> pf_pool_wf q \<Longrightarrow> pf_rule_wf (p\<lparr>r_rpool := q\<rparr>)"
  by (simp add: pf_rule_wf_def)

lemma rule_pool_wf: "pf_rule_wf p \<Longrightarrow> pf_pool_wf (r_rpool p)"
  by (simp add: pf_rule_wf_def)

lemma install_pool_wf: "pf_rule_wf p \<Longrightarrow> pf_rule_wf (install_pool l p)"
  unfolding install_pool_def by (intro pool_stored_wf) (auto simp: pf_pool_wf_def dest: rule_pool_wf)

lemma rule_names_pool [simp]: "rule_names_ok (p\<lparr>r_rpool := q\<rparr>) = rule_names_ok p"
  by (simp add: rule_names_ok_def)

lemma install_endpoint_wf:
  assumes "install_endpoint X e p = Ok q" and "pf_rule_wf p \<and> rule_names_ok p"
  shows "pf_rule_wf q \<and> rule_names_ok q"
proof -
  obtain l pool where pool: "port_copy_to_pool (ep_port e) (r_rpool (install_pool l p)) = Ok pool"
    and q: "q = p\<lparr>r_rpool := pool\<rparr>"
    using assms(1) by (auto simp: install_endpoint_def outcome_simps)
  have "pf_pool_wf pool"
    using port_pool_cp.copy_wf [OF rule_pool_wf [OF install_pool_wf] pool] assms(2) by blast
  then show ?thesis using assms(2) q by (simp add: pool_stored_wf)
qed

lemma finish_filter_wf:
  "finish_filter X r p = Ok q \<Longrightarrow> pf_rule_wf p \<and> rule_names_ok p \<Longrightarrow> pf_rule_wf q \<and> rule_names_ok q"
  by (auto simp: finish_filter_def outcome_simps install_pool_wf install_pool_def [symmetric]
      split: option.splits) (simp add: install_pool_def)

lemma finish_nat_wf:
  "finish_nat X r p = Ok q \<Longrightarrow> pf_rule_wf p \<and> rule_names_ok p \<Longrightarrow> pf_rule_wf q \<and> rule_names_ok q"
  by (auto simp: finish_nat_def dest: install_endpoint_wf split: option.splits)

section \<open>The helpers\<close>

lemma pfioc_rule_built:
  assumes "copy_anchor_name a (zeros 1024) = Ok buf" and "pf_rule_wf p \<and> rule_names_ok p"
  shows "rule_arg_ok (pfioc_rule_zeroed\<lparr>ir_anchor := buf, ir_rule := p\<rparr>)"
  using anchor_copied [OF assms(1)] assms(2) by (simp add: rule_arg_ok_def pfioc_rule_wf_def)

lemma rule_arg_tickets [simp]:
  "rule_arg_ok (x\<lparr>ir_ticket := t\<rparr>) = rule_arg_ok x"
  "rule_arg_ok (x\<lparr>ir_pool_ticket := t\<rparr>) = rule_arg_ok x"
  "rule_arg_ok (x\<lparr>ir_action := t\<rparr>) = rule_arg_ok x"
  "rule_arg_ok (x\<lparr>ir_nr := t\<rparr>) = rule_arg_ok x"
  by (simp_all add: rule_arg_ok_def pfioc_rule_wf_def)

lemma rule_arg_zeroed [simp]: "rule_arg_ok pfioc_rule_zeroed"
  by (simp add: rule_arg_ok_def)

lemma rule_arg_action [simp]:
  "rule_arg_ok (x\<lparr>ir_rule := (ir_rule x)\<lparr>r_action := t\<rparr>\<rparr>) = rule_arg_ok x"
  by (simp add: rule_arg_ok_def pfioc_rule_wf_def pf_rule_wf_def rule_names_ok_def)

lemma pooladdr_zeroed_ok [simp]: "pooladdr_arg_ok pfioc_pooladdr_zeroed"
proof -
  have "pa_ifname pf_pooladdr_zeroed = zeros 16" by (simp add: pf_pooladdr_zeroed_def)
  then show ?thesis by (simp add: pooladdr_arg_ok_def pfioc_pooladdr_zeroed_def pfioc_pooladdr_wf_def)
qed

lemma pooladdr_built:
  "pool_addr_copy_to X p pf_pooladdr_zeroed = Ok a \<Longrightarrow>
     pooladdr_arg_ok (pfioc_pooladdr_zeroed\<lparr>ipa_ticket := t, ipa_addr := a\<rparr>)"
  using pool_addr_copy_wf [of X p a]
  by (auto simp: pooladdr_arg_ok_def pfioc_pooladdr_wf_def pfioc_pooladdr_zeroed_def pool_addr_copy_to_def
      outcome_simps dest!: interface_copied)

lemma secure_pool_address [secures_intros]: "secure (add_pool_address K X d p t)"
  unfolding add_pool_address_def Let_def pf_add_addr_def
  by (intro secures_intros) (auto simp: pooladdr_built intro: secures_intros)

lemma secure_pool_ticket [secures_intros]: "secure (get_pool_ticket K X d)"
  unfolding get_pool_ticket_def pf_begin_addrs_def by (intro secures_intros) simp_all

lemma secure_ticket [secures_intros]: "secure (get_ticket K X d anchor k)"
proof -
  have "rule_arg_ok (pfioc_rule_zeroed\<lparr>ir_action := c, ir_rule := (ir_rule pfioc_rule_zeroed)\<lparr>r_action := a\<rparr>,
      ir_anchor := buf\<rparr>)" if "copy_anchor_name anchor (zeros 1024) = Ok buf" for c a buf
    using anchor_copied [OF that] rule_arg_zeroed
    by (simp add: rule_arg_ok_def pfioc_rule_wf_def pf_rule_wf_def rule_names_ok_def)
  then show ?thesis
    unfolding get_ticket_def Let_def pf_change_rule_def
    by (intro secures_intros) simp_all
qed

lemma secure_add_with:
  assumes copy: "\<And>p. copy r pf_rule_zeroed = Ok p \<Longrightarrow> pf_rule_wf p \<and> rule_names_ok p"
    and finish: "\<And>p q. finish r p = Ok q \<Longrightarrow> pf_rule_wf p \<and> rule_names_ok p \<Longrightarrow> pf_rule_wf q \<and> rule_names_ok q"
  shows "secure (add_with K X d copy pools finish anchor r ticket)"
  unfolding add_with_def pf_add_rule_def
  by (intro secures_intros) (simp_all add: pfioc_rule_built copy finish)

lemma secure_add_any [secures_intros]: "secure (add_any K X d anchor r ticket)"
proof (cases r)
  case (AnyFilter f)
  then show ?thesis
    by (simp add: add_filter_rule_eq)
      (rule secure_add_with; blast intro: filter_copied finish_filter_wf dest: filter_copied finish_filter_wf)
next
  case (AnyNat n)
  then show ?thesis
    by (simp add: add_nat_rule_eq) (rule secure_add_with; blast dest: nat_copied finish_nat_wf)
next
  case (AnyRedirect q)
  then show ?thesis
    by (simp add: add_redirect_rule_eq) (rule secure_add_with; blast dest: redirect_copied install_endpoint_wf)
next
  case (AnyScrub q)
  then show ?thesis
    by (simp add: add_scrub_rule_eq) (rule secure_add_with; (blast dest: scrub_copied)?; simp)
qed

section \<open>Appending rules\<close>

lemma secure_append_plain:
  assumes "\<And>p. copy pf_rule_zeroed = Ok p \<Longrightarrow> pf_rule_wf p \<and> rule_names_ok p"
  shows "secure (append_plain K X d copy anchor k)"
proof -
  have "rule_arg_ok (pfioc_rule_zeroed\<lparr>ir_pool_ticket := t, ir_ticket := u, ir_anchor := buf, ir_rule := p,
      ir_action := c\<rparr>)"
    if "copy_anchor_name anchor (zeros 1024) = Ok buf" "copy pf_rule_zeroed = Ok p" for t u buf p c
    using anchor_copied [OF that(1)] assms [OF that(2)] by (simp add: rule_arg_ok_def pfioc_rule_wf_def)
  then show ?thesis
    unfolding append_plain_def pf_change_rule_def by (intro secures_intros) simp_all
qed

lemma secure_append_pool:
  assumes copy: "\<And>p. copy pf_rule_zeroed = Ok p \<Longrightarrow> pf_rule_wf p \<and> rule_names_ok p"
    and finish: "\<And>p q. finish p = Ok q \<Longrightarrow> pf_rule_wf p \<and> rule_names_ok p \<Longrightarrow> pf_rule_wf q \<and> rule_names_ok q"
  shows "secure (append_pool K X d copy pools finish anchor k)"
  unfolding append_pool_def pf_change_rule_def
  by (intro secures_intros) (simp_all add: pfioc_rule_built copy finish)

lemma secure_append_any [secures_intros]: "secure (append_any K X c anchor r)"
proof (cases r)
  case (AnyFilter f)
  then show ?thesis by (simp only: append_any_eq) (rule secure_append_plain, rule filter_copied)
next
  case (AnyNat n)
  then show ?thesis
    by (simp only: append_any_eq) (rule secure_append_pool, erule nat_copied, erule (1) finish_nat_wf)
next
  case (AnyRedirect q)
  then show ?thesis
    by (simp only: append_any_eq) (rule secure_append_pool, erule redirect_copied, erule (1) install_endpoint_wf)
next
  case (AnyScrub q)
  then show ?thesis by (simp only: append_any_eq) (rule secure_append_plain, rule scrub_copied)
qed

section \<open>Transactions\<close>

lemma element_built: "new_trans_element a k = Ok e \<Longrightarrow> element_ok e"
  by (auto simp: new_trans_element_Ok_iff element_ok_def pfioc_trans_e_wf_def name_fits_def length_nul_terminated)

lemma plan_elements_built: "plan_elements p = Ok es \<Longrightarrow> list_all element_ok es"
proof (induction p arbitrary: es)
  case (Cons c p)
  obtain k a rs where c: "c = (k, a, rs)" by (metis surj_pair)
  from Cons.prems obtain e es' where "es = e # es'" "new_trans_element a k = Ok e" "plan_elements p = Ok es'"
    by (auto simp: c plan_elements_def outcome_simps)
  then show ?case using Cons.IH element_built by simp
qed (simp add: plan_elements_def)

lemma setup_trans_ok: "list_all element_ok es \<Longrightarrow> trans_arg_ok (setup_trans pfioc_trans_zeroed es)"
  by (simp add: trans_arg_ok_def setup_trans_def)

lemma list_all_overwrite: "list_all P xs \<Longrightarrow> list_all P ys \<Longrightarrow> list_all P (overwrite xs ys)"
  unfolding overwrite_def list_all_iff by (metis Un_iff in_set_dropD in_set_takeD set_append)

lemma committed_ok:
  assumes "trans_arg_ok tr" and "t_size tr = of_nat (length es)" and "list_all element_ok es"
  shows "trans_arg_ok (tr\<lparr>t_array := overwrite (t_array tr) es\<rparr>)"
  using assms by (simp add: trans_arg_ok_def list_all_overwrite)

lemma secure_commit [secures_intros]:
  assumes K: "keeps_requests_ok K"
  shows "secure (commit K X order t)"
proof -
  have begun: "secures (\<lambda>tr. trans_arg_ok tr \<and> t_size tr = of_nat (length es))
      (guarded e (pf_begin_trans K d (setup_trans pfioc_trans_zeroed es)))" if "list_all element_ok es" for es e d
    unfolding pf_begin_trans_def
    using K setup_trans_ok [OF that]
    by (intro secures_call) (simp_all add: keeps_requests_ok_def setup_trans_def del: ioctl_request.simps)
  have rest: "secure (let es' = overwrite (t_array tr) es in
      io_bind (io_for (ticketed (plan order t) es')
        (\<lambda>((anchor, rules), ticket). io_for rules (\<lambda>r. add_any K X d anchor r ticket))) (\<lambda>_.
      io_bind (guarded (EEXIST X) (pf_commit_trans K d (tr\<lparr>t_array := es'\<rparr>))) (\<lambda>_. io_return ())))"
    if "list_all element_ok es" "trans_arg_ok tr \<and> t_size tr = of_nat (length es)" for es tr d
    unfolding Let_def pf_commit_trans_def
    using committed_ok that by (auto intro!: secures_intros split: prod.split)
  show ?thesis
    unfolding commit_eq_spec commit_spec_def
    by (intro secure_bind secure_open_pf secures_lift_bind secures_bind [OF begun rest])
      (simp_all add: plan_elements_built)
qed

section \<open>Anchors\<close>

lemma secures_rule_call:
  "keeps_requests_ok K \<Longrightarrow> rule_arg_ok a \<Longrightarrow>
     secures rule_arg_ok (guarded e (call (CallRule c a) (sys_rule K rq d a)))"
  by (intro secures_call) (simp_all add: keeps_requests_ok_def)

lemma secure_anchor_loop:
  assumes K: "keeps_requests_ok K" and f: "\<And>b. rule_arg_ok b \<Longrightarrow> secure (f b)" and a: "rule_arg_ok a"
  shows "secure (anchor_rule_loop K X d name ix a f)"
  using a
proof (induction ix arbitrary: a)
  case Nil
  then show ?case by (simp add: secures_lift)
next
  case (Cons i ix)
  have one: "secures rule_arg_ok (guarded (EEXIST X) (pf_get_rule K d (a\<lparr>ir_nr := i\<rparr>)))"
    unfolding pf_get_rule_def using Cons.prems by (intro secures_rule_call K) simp
  show ?case
    unfolding anchor_rule_loop.simps
    by (rule secures_bind [OF one], rule secures_lift_bind) (simp add: f Cons.IH)
qed

lemma anchor_kind_request [simp]:
  "rule_arg_ok (pfioc_rule_zeroed\<lparr>ir_rule := pf_rule_zeroed\<lparr>r_action := t\<rparr>\<rparr>)"
  using rule_arg_action [where x = pfioc_rule_zeroed and t = t] by simp

lemma secure_with_anchor_rule:
  assumes K: "keeps_requests_ok K" and f: "\<And>b. rule_arg_ok b \<Longrightarrow> secure (f b)"
  shows "secure (with_anchor_rule K X c name k f)"
  unfolding with_anchor_rule_def Let_def pf_get_rules_def
  by (rule secures_bind [OF secures_rule_call [OF K]]) (simp_all add: secure_anchor_loop K f)

lemma secure_remove_anchor [secures_intros]:
  "keeps_requests_ok K \<Longrightarrow> secure (remove_anchor K X c name k)"
  unfolding remove_anchor_def pf_delete_rule_def
  by (intro secure_with_anchor_rule secures_intros) simp_all

lemma secure_add_anchor [secures_intros]: "secure (add_anchor K X c name k)"
proof -
  have "rule_arg_ok (pfioc_rule_zeroed\<lparr>ir_rule := (ir_rule pfioc_rule_zeroed)\<lparr>r_action := a\<rparr>, ir_anchor_call := buf\<rparr>)"
    if "copy_anchor_name name (zeros 1024) = Ok buf" for a buf
    using anchor_copied [OF that] anchor_kind_request [of a]
    by (simp add: rule_arg_ok_def pfioc_rule_wf_def)
  then show ?thesis
    unfolding add_anchor_def Let_def pf_insert_rule_def by (intro secures_intros) simp_all
qed

section \<open>States\<close>

lemma kill_request_ok:
  assumes "sync_state_ok s"
  shows "state_kill_arg_ok (setup_pfioc_state_kill s pfioc_state_kill_zeroed)"
proof -
  have "pf_addr_wf (h_addr (s_lan s))" "pf_addr_wf (h_addr (s_ext_lan s))" "length (s_ifname s) = 16"
    using assms by (simp_all add: sync_state_ok_def pfsync_state_wf_def pfsync_state_host_wf_def)
  then show ?thesis
    using assms pfioc_state_kill_zeroed_wf
    by (simp add: state_kill_arg_ok_def sync_state_ok_def setup_pfioc_state_kill_def Let_def
        pfioc_state_kill_wf_def pfioc_state_addr_kill_wf_def pf_addr_wrap_wf_def pf_addr_mask_wf_def)
qed

lemma zeroed_state_ok [simp]: "sync_state_ok pfsync_state_zeroed"
proof -
  have "s_ifname pfsync_state_zeroed = zeros 16" by (simp add: pfsync_state_zeroed_def)
  then show ?thesis by (simp add: sync_state_ok_def)
qed

lemma states_request_ok:
  assumes "setup_pfioc_states (len div pfsync_state_size_u32) = Ok (p, states)"
  shows "states_arg_ok p" and "list_all sync_state_ok states"
proof -
  let ?n = "len div pfsync_state_size_u32"
  have small: "297 * unat ?n < 2 ^ 31" and p: "p = pfioc_states_zeroed\<lparr>ps_len := 297 * ?n,
      ps_u := replicate (unat ?n) pfsync_state_zeroed\<rparr>" and states: "states = replicate (unat ?n) pfsync_state_zeroed"
    using assms setup_pfioc_states_eq [OF num_states_bound, of len] by (auto split: if_splits)
  have "unat (297 * ?n) = 297 * unat ?n" using small unat_mult_lem [of 297 ?n] by simp
  then show "states_arg_ok p" "list_all sync_state_ok states"
    using pfsync_state_size(1) by (simp_all add: states_arg_ok_def p states list_all_iff)
qed

lemma zeroed_states_request [simp]: "states_arg_ok pfioc_states_zeroed"
  by (simp add: states_arg_ok_def pfioc_states_zeroed_def)

lemma get_num_states_secure:
  "secures (\<lambda>n. \<exists>len. n = len div pfsync_state_size_u32) (get_num_states K X c)"
  unfolding get_num_states_def Let_def pf_get_states_def by (intro secures_intros) auto

lemma get_states_inner_secure:
  assumes K: "keeps_requests_ok K"
  shows "secures (list_all sync_state_ok) (get_states_inner K X c)"
proof -
  have fill: "secures (\<lambda>q. list_all sync_state_ok (ps_u q)) (guarded e (pf_get_states K d p))"
    if "states_arg_ok p" for e d p
    using K that unfolding pf_get_states_def
    by (intro secures_call) (simp_all add: keeps_requests_ok_def states_arg_ok_def)
  have filled: "secures (list_all sync_state_ok)
      (io_bind (io_lift (setup_pfioc_states n)) (\<lambda>(pfioc_states, pfsync_states).
       io_bind (guarded (EEXIST X) (pf_get_states K (ctl_file c) pfioc_states)) (\<lambda>pfioc_states.
       io_return (overwrite (ps_u pfioc_states) pfsync_states))))"
    if n: "\<exists>len. n = len div pfsync_state_size_u32" for n
  proof (rule secures_lift_bind)
    fix x
    assume x: "setup_pfioc_states n = Ok x"
    obtain p states where ps: "x = (p, states)" by fastforce
    have "states_arg_ok p" "list_all sync_state_ok states"
      using x n states_request_ok unfolding ps by blast+
    then show "secures (list_all sync_state_ok) (case x of (pfioc_states, pfsync_states) \<Rightarrow>
       io_bind (guarded (EEXIST X) (pf_get_states K (ctl_file c) pfioc_states)) (\<lambda>pfioc_states.
       io_return (overwrite (ps_u pfioc_states) pfsync_states)))"
      unfolding ps by (auto intro!: secures_bind [OF fill] secures_return list_all_overwrite)
  qed
  show ?thesis
    unfolding get_states_inner_def
    by (rule secures_bind [OF get_num_states_secure]) (simp add: filled secures_return)
qed

lemma get_states_secure:
  "keeps_requests_ok K \<Longrightarrow> secures (list_all (\<lambda>s. sync_state_ok (as_raw s))) (get_states K X c)"
  unfolding get_states_def
  by (rule secures_bind [OF get_states_inner_secure])
    (auto intro!: secures_return simp: list_all_iff as_raw_def state_new_def)

lemma secure_kill_matching [secures_intros]: "sync_state_ok s \<Longrightarrow> secure (kill_matching K X c s)"
  unfolding kill_matching_def pf_kill_states_def by (intro secures_intros) (simp_all add: kill_request_ok)

lemma secure_clear_states [secures_intros]:
  assumes K: "keeps_requests_ok K"
  shows "secure (clear_states K X c name k)"
proof -
  have "secure (with_anchor_rule K X c name k (\<lambda>anchor_rule.
      io_bind (io_collect (filter (\<lambda>s. s_anchor s = ir_nr anchor_rule) states) (kill_matching K X c)) (\<lambda>counts.
      io_lift (checked_sum counts 0))))" if "list_all sync_state_ok states" for states
    using that by (intro secure_with_anchor_rule K secures_intros) (auto simp: list_all_iff)
  then show ?thesis
    unfolding clear_states_def
    by (auto intro!: secures_bind [OF get_states_inner_secure [OF K]] secures_return)
qed

lemma kill_named:
  "interface_copy_to i (psk_ifname pfioc_state_kill_zeroed) = Ok name \<Longrightarrow>
     state_kill_arg_ok (pfioc_state_kill_zeroed\<lparr>psk_ifname := name\<rparr>)"
  using pfioc_state_kill_zeroed_wf
  by (auto simp: state_kill_arg_ok_def pfioc_state_kill_wf_def dest!: interface_copied)

lemma secure_clear_interface_states [secures_intros]: "secure (clear_interface_states K X c i)"
  unfolding clear_interface_states_def Let_def pf_clear_states_def
  by (intro secures_intros) (simp_all add: kill_named)

lemma secure_kill_state [secures_intros]: "sync_state_ok (as_raw s) \<Longrightarrow> secure (kill_state K X c s)"
  unfolding kill_state_def pf_kill_states_def by (intro secures_intros) (simp_all add: kill_request_ok)

section \<open>Interfaces\<close>

lemma iface_named:
  "interface_copy_to i (pfiio_name pfioc_iface_zeroed) = Ok name \<Longrightarrow>
     iface_name_ok (pfioc_iface_zeroed\<lparr>pfiio_name := name\<rparr>)"
  using pfioc_iface_zeroed_wf by (auto simp: iface_name_ok_def pfioc_iface_wf_def dest!: interface_copied)

lemma iface_name_fields [simp]:
  "iface_name_ok (x\<lparr>pfiio_flags := f\<rparr>) = iface_name_ok x"
  "iface_name_ok (x\<lparr>pfiio_buffer := b\<rparr>) = iface_name_ok x"
  "iface_name_ok (x\<lparr>pfiio_size := n\<rparr>) = iface_name_ok x"
  "iface_name_ok (x\<lparr>pfiio_esize := n\<rparr>) = iface_name_ok x"
  by (simp_all add: iface_name_ok_def pfioc_iface_wf_def)

lemma secure_iface_flags [secures_intros]:
  "secure (set_interface_flag K X c i flags)" "secure (clear_interface_flag K X c i flags)"
  unfolding set_interface_flag_def clear_interface_flag_def Let_def pf_set_iface_flag_def
    pf_clear_iface_flag_def
  by (intro secures_intros, simp_all add: iface_named)+

lemma secure_interfaces_loop:
  assumes K: "keeps_requests_ok K" and "iface_name_ok iface"
    and "pfiio_esize iface = of_nat (size_of pfi_kif_layout)"
  shows "secure (get_interfaces_loop K X d retry buf iface)"
  using assms
proof (induction K X d retry buf iface rule: get_interfaces_loop.induct)
  case (1 K X d retry buf iface)
  let ?i = "iface\<lparr>pfiio_buffer := buf, pfiio_size := of_nat (length buf)\<rparr>"
  have "ifaces_arg_ok ?i" using "1.prems" by (simp add: ifaces_arg_ok_def)
  then have one: "secures (\<lambda>i. iface_name_ok i \<and> pfiio_esize i = of_nat (size_of pfi_kif_layout))
      (guarded (EEXIST X) (pf_get_ifaces K d ?i))"
    using "1.prems"(1,3) unfolding pf_get_ifaces_def
    by (intro secures_call) (simp_all add: keeps_requests_ok_def ifaces_arg_ok_def del: ioctl_request.simps)
  show ?case
    by (subst get_interfaces_loop.simps, unfold Let_def, rule secures_bind [OF one])
      (use "1.IH" "1.prems"(1) in \<open>auto simp: Let_def intro!: secures_lift_bind secures_return\<close>)
qed


lemma secure_get_interfaces [secures_intros]:
  assumes K: "keeps_requests_ok K"
  shows "secure (get_interfaces K X c i)"
  unfolding get_interfaces_def Let_def
  by (intro secures_lift_bind secure_bind [OF secure_interfaces_loop [OF K]] secures_lift)
    (simp_all add: iface_named)

section \<open>Sessions\<close>

datatype command =
    Enable | TryEnable | Disable | TryDisable | IsEnabled
  | AddAnchor rstring anchor_kind | TryAddAnchor rstring anchor_kind
  | RemoveAnchor rstring anchor_kind | TryRemoveAnchor rstring anchor_kind
  | AppendRule rstring any_rule | SetRules rstring anchor_change | FlushRules rstring ruleset_kind
  | Commit "rstring list" transaction
  | ClearStates rstring anchor_kind | ClearInterfaceStates interface | GetStates | KillState state
  | SetInterfaceFlag interface interface_flags | ClearInterfaceFlag interface interface_flags
  | GetInterfaces interface

text \<open>A command that obtains no states.\<close>

abbreviation quiet :: "('k, 'a) io \<Rightarrow> ('k, state list) io" where
  "quiet m \<equiv> io_bind m (\<lambda>_. io_return [])"

fun perform :: "'k kernel \<Rightarrow> externals \<Rightarrow> pfctl \<Rightarrow> command \<Rightarrow> ('k, state list) io" where
  "perform K X c Enable = quiet (enable K X c)"
| "perform K X c TryEnable = quiet (try_enable K X c)"
| "perform K X c Disable = quiet (disable K X c)"
| "perform K X c TryDisable = quiet (try_disable K X c)"
| "perform K X c IsEnabled = quiet (is_enabled K X c)"
| "perform K X c (AddAnchor name k) = quiet (add_anchor K X c name k)"
| "perform K X c (TryAddAnchor name k) = quiet (try_add_anchor K X c name k)"
| "perform K X c (RemoveAnchor name k) = quiet (remove_anchor K X c name k)"
| "perform K X c (TryRemoveAnchor name k) = quiet (try_remove_anchor K X c name k)"
| "perform K X c (AppendRule anchor r) = quiet (append_any K X c anchor r)"
| "perform K X c (SetRules anchor change) = quiet (set_rules K X anchor change)"
| "perform K X c (FlushRules anchor k) = quiet (flush_rules K X anchor k)"
| "perform K X c (Commit order t) = quiet (commit K X order t)"
| "perform K X c (ClearStates name k) = quiet (clear_states K X c name k)"
| "perform K X c (ClearInterfaceStates i) = quiet (clear_interface_states K X c i)"
| "perform K X c GetStates = get_states K X c"
| "perform K X c (KillState s) = quiet (kill_state K X c s)"
| "perform K X c (SetInterfaceFlag i flags) = quiet (set_interface_flag K X c i flags)"
| "perform K X c (ClearInterfaceFlag i flags) = quiet (clear_interface_flag K X c i flags)"
| "perform K X c (GetInterfaces i) = quiet (get_interfaces K X c i)"

text \<open>The states that a command needs to have been obtained before.\<close>

fun needs :: "command \<Rightarrow> state list" where
  "needs (KillState s) = [s]"
| "needs _ = []"

fun obtained :: "state list result \<Rightarrow> state list" where
  "obtained (Ok ss) = ss"
| "obtained _ = []"

inductive session ::
  "'k kernel \<Rightarrow> externals \<Rightarrow> pfctl \<Rightarrow> 'k world \<Rightarrow> 'k world \<Rightarrow> state list \<Rightarrow> bool"
  for K :: "'k kernel" and X :: externals and c :: pfctl and w0 :: "'k world" where
  start: "session K X c w0 w0 []"
| command: "session K X c w0 w known \<Longrightarrow> set (needs cmd) \<subseteq> set known \<Longrightarrow>
    perform K X c cmd w = (q, w') \<Longrightarrow> session K X c w0 w' (known @ obtained q)"

lemma perform_secure:
  assumes K: "keeps_requests_ok K" and n: "\<forall>s \<in> set (needs cmd). sync_state_ok (as_raw s)"
  shows "secures (list_all (\<lambda>s. sync_state_ok (as_raw s))) (perform K X c cmd)"
proof -
  have q: "secures (list_all (\<lambda>s. sync_state_ok (as_raw s))) (quiet m)" if "secure m" for m :: "('a, 'b) io"
    by (rule secure_bind [OF that]) (simp add: secures_return)
  have status: "secure (enable K X c)" "secure (disable K X c)" "secure (is_enabled K X c)"
    unfolding enable_def disable_def is_enabled_def pf_start_def pf_stop_def pf_get_status_def
    by (intro secures_intros; simp)+
  have tries: "secure (try_enable K X c)" "secure (try_disable K X c)"
    "secure (try_add_anchor K X c name k)" "secure (try_remove_anchor K X c name k)" for name k
    unfolding try_enable_def try_disable_def try_add_anchor_def try_remove_anchor_def
    by (intro secures_intros status K)+
  have changes: "secure (set_rules K X anchor change)" "secure (flush_rules K X anchor rk)" for anchor change rk
    unfolding set_rules_def flush_rules_def Let_def by (intro secure_commit K)+
  show ?thesis
    using n by (cases cmd) (simp_all add: q status tries changes get_states_secure K secures_intros)
qed

section \<open>Properties\<close>

text \<open>
  C5. In every session, whatever commands are given and in whatever order, every request that
  reaches the kernel is well formed: buffers have their declared sizes, all names of anchors,
  interfaces, rules and labels are terminated, and the announced sizes of arrays (the elements
  of a transaction, the buffers for states and interfaces) are those of the arrays. It holds of
  every kernel that leaves well-formed structs well formed.
\<close>

theorem sessions_well_formed:
  assumes "session K X c w0 w known" and "keeps_requests_ok K"
  shows "\<exists>evs. w_calls w = w_calls w0 @ evs \<and> list_all request_ok evs \<and>
    list_all (\<lambda>s. sync_state_ok (as_raw s)) known"
  using assms(1)
proof (induction rule: session.induct)
  case start
  show ?case by simp
next
  case (command w known cmd q w')
  then obtain evs where evs: "w_calls w = w_calls w0 @ evs" "list_all request_ok evs"
    "list_all (\<lambda>s. sync_state_ok (as_raw s)) known" by blast
  have "\<forall>s \<in> set (needs cmd). sync_state_ok (as_raw s)"
    using command.hyps(2) evs(3) by (auto simp: list_all_iff)
  then have s: "secures (list_all (\<lambda>s. sync_state_ok (as_raw s))) (perform K X c cmd)"
    by (rule perform_secure [OF assms(2)])
  obtain more where "w_calls w' = w_calls w @ more" "list_all request_ok more"
    using securesD(1) [OF s command.hyps(3)] by blast
  moreover have "list_all (\<lambda>s. sync_state_ok (as_raw s)) (obtained q)"
    using securesD(2) [OF s command.hyps(3)] by (cases q) simp_all
  ultimately show ?case using evs by auto
qed

lemma granting_keeps: "keeps_requests_ok granting"
proof -
  have "rule_arg_ok a \<Longrightarrow> rule_arg_ok (answer (sys_rule granting rq d a k))" for rq d a k
    by (simp add: granting_def)
  moreover have "trans_arg_ok a \<Longrightarrow> trans_arg_ok (answer (sys_trans granting rq d a k)) \<and>
      t_size (answer (sys_trans granting rq d a k)) = t_size a" for rq d a k
    by (auto simp: granting_def trans_arg_ok_def list_all_iff element_ok_def pfioc_trans_e_wf_def)
  moreover have "list_all sync_state_ok (ps_u a) \<Longrightarrow>
      list_all sync_state_ok (ps_u (answer (sys_states granting rq d a k)))" for rq d a k
    by (simp add: granting_def)
  moreover have "ifaces_arg_ok a \<Longrightarrow> iface_name_ok (answer (sys_iface granting rq d a k)) \<and>
      pfiio_esize (answer (sys_iface granting rq d a k)) = pfiio_esize a" for rq d a k
    by (simp add: granting_def ifaces_arg_ok_def)
  ultimately show ?thesis by (simp add: keeps_requests_ok_def)
qed

lemma sessions_well_formed_witness:
  "list_all request_ok (w_calls (snd (perform granting macos \<lparr>ctl_file = 3\<rparr>
     (AppendRule [97] (AnyNat sample_nat_rule))
     (snd (perform granting macos \<lparr>ctl_file = 3\<rparr> GetStates fresh_world)))))"
proof -
  let ?c = "\<lparr>ctl_file = 3\<rparr>"
  obtain q1 w1 where 1: "perform granting macos ?c GetStates fresh_world = (q1, w1)" by fastforce
  obtain q2 w2 where 2: "perform granting macos ?c (AppendRule [97] (AnyNat sample_nat_rule)) w1 = (q2, w2)"
    by fastforce
  have "session granting macos ?c fresh_world w1 ([] @ obtained q1)"
    by (rule session.command [OF session.start _ 1]) simp
  then have "session granting macos ?c fresh_world w2 (([] @ obtained q1) @ obtained q2)"
    by (rule session.command [OF _ _ 2]) simp
  from sessions_well_formed [OF this granting_keeps] show ?thesis
    unfolding 1 snd_conv 2 by (simp add: fresh_world_def)
qed

end
