(* ===== verification/RuleReplacement.thy ===== *)
theory RuleReplacement
  imports FirewallSpec
begin

text \<open>
  The two ways to give an anchor its rules: \<open>PfCtl::set_rules\<close>, which is one transaction, and
  flushing followed by one \<open>PfCtl::add_*_rule\<close> per rule, as the examples of the crate do it. On a
  kernel that behaves as documented they end in the same active rules when both succeed; the
  second is not atomic, and what a failure leaves behind is stated.
\<close>

section \<open>Appending a list of rules\<close>

definition append_each ::
  "'k kernel \<Rightarrow> externals \<Rightarrow> pfctl \<Rightarrow> rstring \<Rightarrow> any_rule list \<Rightarrow> ('k, unit) io" where
  "append_each K X c anchor rs = io_for rs (append_any K X c anchor)"

definition flush_and_append ::
  "'k kernel \<Rightarrow> externals \<Rightarrow> pfctl \<Rightarrow> rstring \<Rightarrow> ruleset_kind \<Rightarrow> any_rule list \<Rightarrow> ('k, unit) io" where
  "flush_and_append K X c anchor k rs =
     io_bind (flush_rules K X anchor k) (\<lambda>_. append_each K X c anchor rs)"

text \<open>Rules that both ways install alike: all but filter rules with a route.\<close>

fun routeless :: "any_rule \<Rightarrow> bool" where
  "routeless (AnyFilter r) = (get_pool_addr (get_route r) = None)"
| "routeless _ = True"

lemma routeless_entry: "routeless r \<Longrightarrow> appended_entry X r = any_entry X r"
proof (cases r)
  case (AnyFilter f)
  moreover have "obind m Ok = m" for m :: "pf_rule result" by (cases m) simp_all
  moreover assume "routeless r"
  ultimately show ?thesis
    by (simp add: appended_entry_def any_entry_def entry_of_def install_filter_def filter_pools_def)
qed (simp_all add: appended_entry_def any_entry_def entry_of_def)

definition extended_at :: "ruleset \<Rightarrow> entry list \<Rightarrow> (ruleset \<Rightarrow> entry list) \<Rightarrow> ruleset \<Rightarrow> entry list" where
  "extended_at s es act = act(s := act s @ es)"

lemma extended_at_simps [simp]:
  "extended_at s [] act = act"
  "extended_at s es (appended_at s e act) = extended_at s (e # es) act"
  by (simp_all add: extended_at_def appended_at_def)

text \<open>However the appending ends, the first so many rules were added and nothing else changed.\<close>

lemma append_each_effect:
  assumes D: "documented_pf K V" and "\<forall>r \<in> set rs. any_kind r = k"
    and "append_each K X c anchor rs w = (q, w')"
  shows "\<exists>m es. m \<le> length rs \<and> (q = Ok () \<longrightarrow> m = length rs) \<and>
    map (appended_entry X) (take m rs) = map Ok es \<and>
    pv_active V (w_kernel w') = extended_at (slot k anchor) es (pv_active V (w_kernel w))"
  using assms(2,3)
proof (induction rs arbitrary: w)
  case Nil
  then show ?case by (simp add: append_each_def io_return_def)
next
  case (Cons r rs)
  obtain q1 w1 where one: "append_any K X c anchor r w = (q1, w1)" by fastforce
  show ?case
  proof (cases "q1 = Ok ()")
    case True
    then obtain e where e: "appended_entry X r = Ok e"
      "pv_active V (w_kernel w1) = appended_at (slot k anchor) e (pv_active V (w_kernel w))"
      using append_Ok [OF D one [unfolded True]] Cons.prems(1) by auto
    have "append_each K X c anchor rs w1 = (q, w')"
      using Cons.prems(2) one True by (simp add: append_each_def io_bind_def)
    then obtain m es where "m \<le> length rs" "q = Ok () \<longrightarrow> m = length rs"
      "map (appended_entry X) (take m rs) = map Ok es"
      "pv_active V (w_kernel w') = extended_at (slot k anchor) es (pv_active V (w_kernel w1))"
      using Cons.IH Cons.prems(1) by (metis list.set_intros(2))
    then show ?thesis using e by (intro exI [of _ "Suc m"] exI [of _ "e # es"]) simp
  next
    case False
    then have "pv_active V (w_kernel w1) = pv_active V (w_kernel w)"
      using fails_safeD [OF append_fails_safe [OF D] one] by (cases q1) simp_all
    moreover have "w' = w1" "q \<noteq> Ok ()"
      using Cons.prems(2) one False by (auto simp: append_each_def io_bind_def split: outcome.splits)
    ultimately show ?thesis by (intro exI [of _ 0] exI [of _ "[]"]) simp
  qed
qed

section \<open>One transaction for one kind of rules\<close>

lemma plan_single:
  assumes "requested k change = Some rs" and "\<forall>l. l \<noteq> k \<longrightarrow> requested l change = None"
  shows "plan [anchor] (add_change anchor change transaction_new) = [(k, anchor, rs)]"
  using assms(1) assms(2)[rule_format, of RulesetKind_Filter] assms(2)[rule_format, of RulesetKind_Nat]
    assms(2)[rule_format, of RulesetKind_Redirect] assms(2)[rule_format, of RulesetKind_Scrub]
  by (cases k) (auto simp: plan_def partition_changes_def List.map_filter_simps add_change_def
      transaction_new_def)

lemma requested_kinds: "requested k change = Some rs \<Longrightarrow> \<forall>r \<in> set rs. any_kind r = k"
  by (cases k) auto

lemma set_rules_active:
  assumes "documented_pf K V" and "requested k change = Some rs" and "\<forall>l. l \<noteq> k \<longrightarrow> requested l change = None"
    and "set_rules K X anchor change w = (Ok (), w')"
  obtains es where "map (any_entry X) rs = map Ok es"
    and "pv_active V (w_kernel w') = (pv_active V (w_kernel w))(slot k anchor := es)"
proof
  let ?t = "add_change anchor change transaction_new"
  note p = plan_single [OF assms(2,3), of anchor]
  have "replaced X [(k, anchor, rs)] (pv_active V (w_kernel w)) (pv_active V (w_kernel w'))"
    using commit_effect [OF assms(1), of "[anchor]" ?t X w "Ok ()" w', unfolded p] assms(4)
    by (simp add: set_rules_def)
  then show "map (any_entry X) rs = map Ok (pv_active V (w_kernel w') (slot k anchor))"
    "pv_active V (w_kernel w') = (pv_active V (w_kernel w))(slot k anchor := pv_active V (w_kernel w') (slot k anchor))"
    by (auto simp: replaced_def fun_eq_iff)
qed

section \<open>Properties\<close>

text \<open>
  C4. On a kernel that behaves as documented, a successful \<open>set_rules\<close> of one kind of rules, none of
  them a filter rule with a route, is equivalent to flushing that kind in the anchor and
  appending the new rules one by one, when that succeeds as well: all rulesets end the same. When
  the second way fails, it leaves the rules as they were or, after the flush, the first so many
  of the new rules, where the transaction is all or nothing. (A route is excluded because
  \<open>add_rule\<close> drops its pool.)
\<close>

theorem set_rules_is_flush_and_append:
  assumes "documented_pf K V" and "requested k change = Some rs"
    and "\<forall>l. l \<noteq> k \<longrightarrow> requested l change = None" and "list_all routeless rs"
    and "set_rules K X anchor change w = (Ok (), w1)"
    and "flush_and_append K X c anchor k rs w = (q, w2)"
  shows "if q = Ok () then pv_active V (w_kernel w2) = pv_active V (w_kernel w1)
    else pv_active V (w_kernel w2) = pv_active V (w_kernel w) \<or>
      (\<exists>m \<le> length rs. pv_active V (w_kernel w2) =
         (pv_active V (w_kernel w1))(slot k anchor := take m (pv_active V (w_kernel w1) (slot k anchor))))"
proof -
  let ?act = "\<lambda>w. pv_active V (w_kernel w)"
  obtain es where es: "map (any_entry X) rs = map Ok es" "?act w1 = (?act w)(slot k anchor := es)"
    by (rule set_rules_active [OF assms(1-3,5)])
  obtain qf wf where flush: "flush_rules K X anchor k w = (qf, wf)" by fastforce
  note f = flush_active [OF assms(1) flush]
  show ?thesis
  proof (cases "qf = Ok ()")
    case False
    then have "w2 = wf" "q \<noteq> Ok ()"
      using assms(6) flush by (auto simp: flush_and_append_def io_bind_def split: outcome.splits)
    then show ?thesis using f False by simp
  next
    case True
    then have "append_each K X c anchor rs wf = (q, w2)"
      using assms(6) flush by (simp add: flush_and_append_def io_bind_def)
    then obtain m new where m: "m \<le> length rs" "q = Ok () \<longrightarrow> m = length rs"
      "map (appended_entry X) (take m rs) = map Ok new"
      "?act w2 = extended_at (slot k anchor) new (?act wf)"
      using append_each_effect [OF assms(1) requested_kinds [OF assms(2)]] by blast
    have "map (appended_entry X) (take m rs) = map (any_entry X) (take m rs)"
      using assms(4) by (intro map_cong refl routeless_entry) (auto simp: list_all_iff dest: in_set_takeD)
    also have "\<dots> = map Ok (take m es)" using es(1) by (metis take_map)
    finally have "map Ok new = (map Ok (take m es) :: entry result list)" using m(3) by simp
    then have new: "new = take m es" by (simp add: inj_map_eq_map inj_def)
    have len: "length es = length rs" using es(1) by (metis length_map)
    have "?act w2 = (?act w1)(slot k anchor := take m es)"
      using m(4) f True by (simp add: extended_at_def es(2) new)
    then show ?thesis using m(1,2) len by (auto simp: es(2))
  qed
qed

text \<open>On the reference kernel: one scrub rule, set by a transaction and by flushing and appending.\<close>

definition scrub_in :: scrub_rule where
  "scrub_in = \<lparr>sr_action = ScrubRuleAction_Scrub, sr_direction = Direction_In\<rparr>"

lemma machine_adds_scrub:
  assumes fits: "name_fits 1024 a"
    and staged: "pm_staged (w_kernel w) (slot RulesetKind_Scrub a) = Some (ticket, es)"
  shows "fst (add_scrub_rule pf_machine macos d a s ticket w) = Ok ()"
proof -
  obtain p where p: "scrub_rule_copy_to s pf_rule_zeroed = Ok p" by (simp add: scrub_rule_copy_to_def)
  have t: "rule_target machine_view (pfioc_rule_zeroed\<lparr>ir_anchor := nul_terminated a (zeros 1024), ir_rule := p,
      ir_ticket := ticket, ir_pool_ticket := pt\<rparr>) = slot RulesetKind_Scrub a" for pt
    using install_target [OF machine_documented, of macos "AnyScrub s"] p by (simp add: install_scrub_def)
  show ?thesis
    by (simp add: add_scrub_rule_eq add_with_def copy_anchor_name_zeros [OF fits] p io_bind_def io_return_def
        io_lift_def get_pool_ticket_def pf_begin_addrs_def pf_add_rule_def guarded_def call_def ioctl_guard_def
        IOCTL_ERROR_def pf_machine_def machine_pool_def machine_rule_def t staged ioctl_request_inject
        del: ioctl_request.simps)
qed

lemma machine_sets:
  "fst (set_rules pf_machine macos [97] (set_scrub_rules [scrub_in] anchor_change_new) machine_world) = Ok ()"
proof -
  have f: "name_fits 1024 [97 :: u8]" by (simp add: name_fits_def)
  define e where "e = \<lparr>te_rs_num = ruleset_kind_to_i32 RulesetKind_Scrub,
    te_anchor = nul_terminated [97] (zeros 1024), te_ticket = 0\<rparr>"
  have e: "new_trans_element [97] RulesetKind_Scrub = Ok e"
    by (simp only: new_trans_element_Ok_iff f e_def)
  have p: "plan [[97]] (add_change [97] (set_scrub_rules [scrub_in] anchor_change_new) transaction_new) =
      [(RulesetKind_Scrub, [97], [AnyScrub scrub_in])]"
    by (rule plan_single) (simp add: set_scrub_rules_def, intro allI, case_tac l,
        simp_all add: set_scrub_rules_def anchor_change_new_def)
  define w1 :: "pf_state world" where "w1 = machine_world\<lparr>w_calls := [OpenDevice PF_DEV_PATH]\<rparr>"
  define tr where "tr = setup_trans pfioc_trans_zeroed [e\<lparr>te_ticket := 1\<rparr>]"
  have opened: "open_pf pf_machine machine_world = (Ok 3, w1)"
    by (simp add: open_pf_def pf_machine_def machine_world_def w1_def)
  obtain w2 where begins: "guarded 17 (pf_begin_trans pf_machine 3 (setup_trans pfioc_trans_zeroed [e])) w1 = (Ok tr, w2)"
    and staged: "pm_staged (w_kernel w2) = opened (trans_elements tr) (\<lambda>_. None)"
    by (simp add: guarded_def call_def ioctl_guard_def IOCTL_ERROR_def pf_machine_def pf_begin_trans_def
        machine_trans_def Let_def w1_def machine_world_def setup_trans_def tr_def del: ioctl_request.simps)
  have "trans_elements tr = [e\<lparr>te_ticket := 1\<rparr>]"
    by (simp add: tr_def setup_trans_def trans_elements_def)
  then have "pm_staged (w_kernel w2) (slot RulesetKind_Scrub [97]) = Some (1, [])"
    by (simp add: staged opened_def element_target_def slot_def e_def)
  then obtain w3 where adds: "add_scrub_rule pf_machine macos 3 [97] scrub_in 1 w2 = (Ok (), w3)"
    using machine_adds_scrub [OF f, of w2 1 "[]" 3 scrub_in] by (metis prod.collapse)
  obtain y w4 where commits: "guarded 17 (pf_commit_trans pf_machine 3 tr) w3 = (Ok y, w4)"
    by (simp add: guarded_def call_def ioctl_guard_def IOCTL_ERROR_def pf_machine_def pf_commit_trans_def
        machine_trans_def ioctl_request_inject del: ioctl_request.simps)
  have same: "tr\<lparr>t_array := overwrite (t_array tr) [e]\<rparr> = tr" "overwrite (t_array tr) [e] = [e\<lparr>te_ticket := 1\<rparr>]"
    "tr\<lparr>t_array := [e\<lparr>te_ticket := 1\<rparr>]\<rparr> = tr"
    by (simp_all add: tr_def setup_trans_def overwrite_def)
  have "EEXIST macos = 17" by (simp add: macos_def)
  then show ?thesis
    by (simp add: set_rules_def commit_eq_spec commit_spec_def p plan_elements_def e ticketed_def Let_def
        io_bind_def io_return_def io_lift_def opened begins same adds commits)
qed

lemma machine_flush_appends:
  "fst (flush_and_append pf_machine macos \<lparr>ctl_file = 3\<rparr> [97] RulesetKind_Scrub [AnyScrub scrub_in] machine_world) = Ok ()"
proof -
  have f: "name_fits 1024 [97 :: u8]" by (simp add: name_fits_def)
  obtain w1 where flush: "flush_rules pf_machine macos [97] RulesetKind_Scrub machine_world = (Ok (), w1)"
    using machine_flushes [of RulesetKind_Scrub] by (metis prod.collapse)
  obtain p where p: "scrub_rule_copy_to scrub_in pf_rule_zeroed = Ok p" by (simp add: scrub_rule_copy_to_def)
  have "fst (append_any pf_machine macos \<lparr>ctl_file = 3\<rparr> [97] (AnyScrub scrub_in) w1) = Ok ()"
    unfolding append_any_eq
    by (simp add: append_plain_def get_ticket_def get_pool_ticket_def Let_def
        copy_anchor_name_zeros [OF f] p io_bind_def io_return_def io_lift_def guarded_def call_def
        ioctl_guard_def IOCTL_ERROR_def pf_machine_def pf_begin_addrs_def pf_change_rule_def
        machine_pool_def machine_rule_def pfioc_rule_zeroed_def PF_CHANGE_ADD_TAIL_u32_def ioctl_request_inject
        del: ioctl_request.simps)
  then show ?thesis
    using flush by (auto simp: flush_and_append_def append_each_def io_bind_def io_return_def split: prod.splits)
qed

lemma set_rules_is_flush_and_append_witness:
  "pm_active (w_kernel (snd (flush_and_append pf_machine macos \<lparr>ctl_file = 3\<rparr> [97] RulesetKind_Scrub
     [AnyScrub scrub_in] machine_world))) =
   pm_active (w_kernel (snd (set_rules pf_machine macos [97] (set_scrub_rules [scrub_in] anchor_change_new)
     machine_world)))"
proof -
  have one: "requested RulesetKind_Scrub (set_scrub_rules [scrub_in] anchor_change_new) = Some [AnyScrub scrub_in]"
    by (simp add: set_scrub_rules_def)
  have other: "\<forall>l. l \<noteq> RulesetKind_Scrub \<longrightarrow> requested l (set_scrub_rules [scrub_in] anchor_change_new) = None"
    by (intro allI, case_tac l) (simp_all add: set_scrub_rules_def anchor_change_new_def)
  obtain w1 where set: "set_rules pf_machine macos [97] (set_scrub_rules [scrub_in] anchor_change_new)
      machine_world = (Ok (), w1)"
    using machine_sets by (metis prod.collapse)
  obtain w2 where flush: "flush_and_append pf_machine macos \<lparr>ctl_file = 3\<rparr> [97] RulesetKind_Scrub
      [AnyScrub scrub_in] machine_world = (Ok (), w2)"
    using machine_flush_appends by (metis prod.collapse)
  show ?thesis
    using set_rules_is_flush_and_append [OF machine_documented one other _ set flush] by (simp add: set flush)
qed

end
