(* ===== verification/FirewallRuns.thy ===== *)
theory FirewallRuns
  imports Sessions RuleReplacement
begin

text \<open>
  Sequences of operations against an abstract firewall. The firewall is a map from rulesets to
  their entries, and each operation has a step on it: appending an entry, replacing the rulesets
  of a transaction, emptying one ruleset, one entry more or less in the main ruleset for an anchor,
  or nothing. Every sequence of operations on a kernel that behaves as documented is a
  run of the abstract firewall; so the rules of an anchor that no operation names are never
  touched.
\<close>

section \<open>The requests that change no rules\<close>

text \<open>
  The documented behaviour of the remaining requests: rules are listed, statistics, states and
  interfaces are managed without changing a rule; a rule of an anchor call is inserted into or
  deleted from the rulesets of the anchor that the request names. Listing leaves that name.
\<close>

abbreviation same_active :: "'k pf_view \<Rightarrow> 'k \<Rightarrow> i32 \<times> i32 \<times> 'a \<times> 'k \<Rightarrow> bool" where
  "same_active V k r \<equiv> pv_active V (snd (snd (snd r))) = pv_active V k"

definition documented_others :: "'k kernel \<Rightarrow> 'k pf_view \<Rightarrow> bool" where
  "documented_others K V \<longleftrightarrow>
     (\<forall>rq d k. same_active V k (sys_none K rq d k)) \<and>
     (\<forall>rq d a k. same_active V k (sys_status K rq d a k)) \<and>
     (\<forall>rq d a k. same_active V k (sys_states K rq d a k)) \<and>
     (\<forall>rq d a k. same_active V k (sys_state_kill K rq d a k)) \<and>
     (\<forall>rq d a k. same_active V k (sys_iface K rq d a k)) \<and>
     (\<forall>c \<in> {PfGetRules, PfGetRule}. \<forall>d a k. same_active V k (sys_rule K (ioctl_request c) d a k) \<and>
        ir_anchor (answer (sys_rule K (ioctl_request c) d a k)) = ir_anchor a) \<and>
     (\<forall>c \<in> {PfInsertRule, PfDeleteRule}. \<forall>d a k s. snd s \<noteq> ir_anchor a \<longrightarrow>
        pv_active V (snd (snd (snd (sys_rule K (ioctl_request c) d a k)))) s = pv_active V k s)"

text \<open>
  The rules of anchors. The manual page does not describe the requests that insert and delete
  them; this is what the crate documents and relies on (\<open>lib.rs\<close>): an inserted rule is one entry
  more in the ruleset of its action, the struct that was listed for an index "can be used to
  remove" the rule at that index, and nothing is assumed of a request to delete with any other
  struct. A refused request changes nothing.
\<close>

definition listed_struct :: "'k pf_view \<Rightarrow> 'k \<Rightarrow> pfioc_rule \<Rightarrow> bool" where
  "listed_struct V k a \<longleftrightarrow>
     unat (ir_nr a) < length (pv_active V k (rule_target V a)) \<and>
     fst (pv_active V k (rule_target V a) ! unat (ir_nr a)) = ir_rule a"

definition without_nth :: "nat \<Rightarrow> 'a list \<Rightarrow> 'a list" where
  "without_nth i xs = take i xs @ drop (Suc i) xs"

definition documented_anchor_rules :: "'k kernel \<Rightarrow> 'k pf_view \<Rightarrow> bool" where
  "documented_anchor_rules K V \<longleftrightarrow>
     (\<forall>d a k ret errno a' k'. sys_rule K (ioctl_request PfInsertRule) d a k = (ret, errno, a', k') \<longrightarrow>
        (if ret = - 1 then pv_active V k' = pv_active V k
         else \<exists>xs ys ps. pv_active V k (rule_target V a) = xs @ ys \<and>
           pv_active V k' = (pv_active V k)(rule_target V a := xs @ (ir_rule a, ps) # ys))) \<and>
     (\<forall>d a k ret errno a' k'. sys_rule K (ioctl_request PfGetRules) d a k = (ret, errno, a', k') \<longrightarrow>
        ret \<noteq> - 1 \<longrightarrow> rule_target V a' = rule_target V a) \<and>
     (\<forall>d a k ret errno a' k'. sys_rule K (ioctl_request PfGetRule) d a k = (ret, errno, a', k') \<longrightarrow>
        ret \<noteq> - 1 \<longrightarrow> rule_target V a' = rule_target V a \<and> listed_struct V k a') \<and>
     (\<forall>d a k ret errno a' k'. sys_rule K (ioctl_request PfDeleteRule) d a k = (ret, errno, a', k') \<longrightarrow>
        listed_struct V k a \<longrightarrow>
        (if ret = - 1 then pv_active V k' = pv_active V k
         else pv_active V k' = (pv_active V k)
           (rule_target V a := without_nth (unat (ir_nr a)) (pv_active V k (rule_target V a)))))"

section \<open>Programs that keep an observation and promise a result\<close>

definition keeps_for :: "('k \<Rightarrow> 'o) \<Rightarrow> ('a \<Rightarrow> bool) \<Rightarrow> ('k, 'a) io \<Rightarrow> bool" where
  "keeps_for f Q m \<longleftrightarrow>
     (\<forall>w q w'. m w = (q, w') \<longrightarrow> f (w_kernel w') = f (w_kernel w) \<and> (\<forall>x. q = Ok x \<longrightarrow> Q x))"

lemma keeps_for_keeps: "keeps_for f Q m \<Longrightarrow> keeps f m"
  unfolding keeps_for_def keeps_def by blast

lemma keeps_for_bind:
  assumes "keeps_for f Q m" and "\<And>x. Q x \<Longrightarrow> keeps f (g x)"
  shows "keeps f (io_bind m g)"
  unfolding keeps_def
proof (intro allI impI)
  fix w r w''
  assume run: "io_bind m g w = (r, w'')"
  obtain q w' where q: "m w = (q, w')" by fastforce
  then have same: "f (w_kernel w') = f (w_kernel w)" and "\<forall>x. q = Ok x \<longrightarrow> Q x"
    using assms(1) unfolding keeps_for_def by blast+
  with run q show "f (w_kernel w'') = f (w_kernel w)"
    by (cases q) (auto simp: io_bind_def same dest: keepsD [OF assms(2)])
qed

lemma keeps_for_call:
  assumes "\<And>k. f (snd (snd (snd (g k)))) = f k" and "\<And>k. Q (answer (g k))"
  shows "keeps_for f Q (guarded a (call ev g))"
  unfolding keeps_for_def
proof (intro allI impI)
  fix w q w'
  assume run: "guarded a (call ev g) w = (q, w')"
  obtain ret errno x k where g: "g (w_kernel w) = (ret, errno, x, k)" by (metis surj_pair)
  have "w_kernel w' = k" "\<forall>y. q = Ok y \<longrightarrow> y = x"
    using run g by (auto simp: guarded_def call_def ioctl_guard_def split: if_splits)
  then show "f (w_kernel w') = f (w_kernel w) \<and> (\<forall>x. q = Ok x \<longrightarrow> Q x)"
    using assms [of "w_kernel w"] g by auto
qed

lemma keeps_ignoring [keeps_intros]: "keeps f m \<Longrightarrow> keeps f (ignoring m k)"
  unfolding keeps_def ignoring_def by (auto split: prod.splits)

lemma keeps_collect [keeps_intros]: "(\<And>x. x \<in> set xs \<Longrightarrow> keeps f (g x)) \<Longrightarrow> keeps f (io_collect xs g)"
  by (induction xs) (auto intro: keeps_intros)

section \<open>What keeps the active rules\<close>

text \<open>The rules of all anchors but the main ruleset, whose path is empty.\<close>

abbreviation main_path :: "i8 list" where
  "main_path \<equiv> zeros 1024"

definition below_main :: "(ruleset \<Rightarrow> entry list) \<Rightarrow> ruleset \<Rightarrow> entry list" where
  "below_main act s = (if snd s = main_path then [] else act s)"

lemma other_calls_keep:
  assumes D: "documented_others K V"
  shows "keeps (pv_active V) (guarded e (pf_start K d))" "keeps (pv_active V) (guarded e (pf_stop K d))"
    and "keeps (pv_active V) (guarded e (pf_get_status K d st))"
    and "keeps (pv_active V) (guarded e (pf_get_states K d ss))"
    and "keeps (pv_active V) (guarded e (pf_kill_states K d sk))"
    and "keeps (pv_active V) (guarded e (pf_clear_states K d sk))"
    and "keeps (pv_active V) (guarded e (pf_get_ifaces K d i))"
    and "keeps (pv_active V) (guarded e (pf_set_iface_flag K d i))"
    and "keeps (pv_active V) (guarded e (pf_clear_iface_flag K d i))"
  using D unfolding documented_others_def ioctl_defs
  by (auto intro!: keeps_call simp del: ioctl_request.simps)

lemma listing_calls_keep:
  assumes D: "documented_others K V" and a: "ir_anchor a = main_path"
  shows "keeps_for (\<lambda>k. h (pv_active V k)) (\<lambda>x. ir_anchor x = main_path) (guarded e (pf_get_rules K d a))"
    and "keeps_for (\<lambda>k. h (pv_active V k)) (\<lambda>x. ir_anchor x = main_path) (guarded e (pf_get_rule K d a))"
  using D a unfolding documented_others_def ioctl_defs
  by (auto intro!: keeps_for_call simp del: ioctl_request.simps)

lemma main_calls_keep:
  assumes D: "documented_others K V" and a: "ir_anchor a = main_path"
  shows "keeps (\<lambda>k. below_main (pv_active V k)) (guarded e (pf_insert_rule K d a))"
    and "keeps (\<lambda>k. below_main (pv_active V k)) (guarded e (pf_delete_rule K d a))"
  using D a unfolding documented_others_def ioctl_defs
  by (auto intro!: keeps_call simp: below_main_def fun_eq_iff simp del: ioctl_request.simps)

lemma anchor_loop_keeps:
  assumes D: "documented_others K V"
    and f: "\<And>x. ir_anchor x = main_path \<Longrightarrow> keeps (\<lambda>k. h (pv_active V k)) (f x)"
  shows "ir_anchor a = main_path \<Longrightarrow> keeps (\<lambda>k. h (pv_active V k)) (anchor_rule_loop K X d name ix a f)"
proof (induction ix arbitrary: a)
  case Nil
  then show ?case by (simp add: keeps_lift)
next
  case (Cons i ix)
  then have "ir_anchor (a\<lparr>ir_nr := i\<rparr>) = main_path" by simp
  note one = listing_calls_keep(2) [OF D this]
  show ?case
    unfolding anchor_rule_loop.simps
    by (rule keeps_for_bind [OF one]) (auto intro!: keeps_bind [OF keeps_lift] f Cons.IH)
qed

lemma with_anchor_rule_keeps:
  assumes D: "documented_others K V"
    and f: "\<And>x. ir_anchor x = main_path \<Longrightarrow> keeps (\<lambda>k. h (pv_active V k)) (f x)"
  shows "keeps (\<lambda>k. h (pv_active V k)) (with_anchor_rule K X c name k f)"
  unfolding with_anchor_rule_def Let_def
  by (rule keeps_for_bind [OF listing_calls_keep(1) [OF D]])
    (simp_all add: anchor_loop_keeps [OF D f] pfioc_rule_zeroed_def)

section \<open>The operations that change no rules\<close>

lemma quiet_operations_keep:
  assumes D: "documented_others K V"
  shows "keeps (pv_active V) (enable K X c)" "keeps (pv_active V) (disable K X c)"
    and "keeps (pv_active V) (try_enable K X c)" "keeps (pv_active V) (try_disable K X c)"
    and "keeps (pv_active V) (is_enabled K X c)"
    and "keeps (pv_active V) (get_states_inner K X c)" "keeps (pv_active V) (get_states K X c)"
    and "keeps (pv_active V) (kill_matching K X c s)" "keeps (pv_active V) (kill_state K X c st)"
    and "keeps (pv_active V) (clear_interface_states K X c i)"
    and "keeps (pv_active V) (set_interface_flag K X c i flags)"
    and "keeps (pv_active V) (clear_interface_flag K X c i flags)"
  unfolding enable_def disable_def try_enable_def try_disable_def is_enabled_def get_states_def
    get_states_inner_def get_num_states_def kill_matching_def kill_state_def clear_interface_states_def
    set_interface_flag_def clear_interface_flag_def Let_def
  by (auto intro!: keeps_intros other_calls_keep [OF D])

lemma clear_states_keeps:
  assumes D: "documented_others K V"
  shows "keeps (pv_active V) (clear_states K X c name k)"
proof -
  have "keeps (pv_active V) (with_anchor_rule K X c name k (\<lambda>anchor_rule.
      io_bind (io_collect (filter (\<lambda>s. s_anchor s = ir_nr anchor_rule) ss) (kill_matching K X c)) (\<lambda>counts.
      io_lift (checked_sum counts 0))))" for ss
    by (rule with_anchor_rule_keeps [OF D, where h = "\<lambda>act. act"])
      (intro keeps_intros quiet_operations_keep [OF D])
  then show ?thesis
    unfolding clear_states_def by (auto intro!: keeps_bind keeps_return quiet_operations_keep [OF D])
qed

lemma interfaces_loop_keeps:
  "documented_others K V \<Longrightarrow> keeps (pv_active V) (get_interfaces_loop K X d retry buf iface)"
proof (induction K X d retry buf iface rule: get_interfaces_loop.induct)
  case (1 K X d retry buf iface)
  show ?case
    by (subst get_interfaces_loop.simps, unfold Let_def, rule keeps_bind [OF other_calls_keep(7) [OF "1.prems"]])
      (use "1.IH" "1.prems" in \<open>auto simp: Let_def intro!: keeps_intros\<close>)
qed

lemma get_interfaces_keeps: "documented_others K V \<Longrightarrow> keeps (pv_active V) (get_interfaces K X c i)"
  unfolding get_interfaces_def Let_def by (intro keeps_intros interfaces_loop_keeps)

lemma anchor_operations_keep:
  assumes D: "documented_others K V"
  shows "keeps (\<lambda>k. below_main (pv_active V k)) (add_anchor K X c name k)"
    and "keeps (\<lambda>k. below_main (pv_active V k)) (remove_anchor K X c name k)"
    and "keeps (\<lambda>k. below_main (pv_active V k)) (try_add_anchor K X c name k)"
    and "keeps (\<lambda>k. below_main (pv_active V k)) (try_remove_anchor K X c name k)"
proof -
  show add: "keeps (\<lambda>k. below_main (pv_active V k)) (add_anchor K X c name k)"
    unfolding add_anchor_def Let_def
    by (intro keeps_intros main_calls_keep [OF D]) (simp_all add: pfioc_rule_zeroed_def)
  show remove: "keeps (\<lambda>k. below_main (pv_active V k)) (remove_anchor K X c name k)"
    unfolding remove_anchor_def
    by (intro with_anchor_rule_keeps [OF D] keeps_intros main_calls_keep [OF D])
  show "keeps (\<lambda>k. below_main (pv_active V k)) (try_add_anchor K X c name k)"
    "keeps (\<lambda>k. below_main (pv_active V k)) (try_remove_anchor K X c name k)"
    unfolding try_add_anchor_def try_remove_anchor_def by (intro keeps_ignoring add remove)+
qed

section \<open>The abstract firewall\<close>

text \<open>The rulesets that a command replaces, with their new rules.\<close>

fun replaces :: "command \<Rightarrow> (ruleset_kind \<times> rstring \<times> any_rule list) list option" where
  "replaces (SetRules anchor change) = Some (plan [anchor] (add_change anchor change transaction_new))"
| "replaces (FlushRules anchor k) = Some [(k, anchor, [])]"
| "replaces (Commit order t) = Some (plan order t)"
| "replaces _ = None"

fun changes_anchors :: "command \<Rightarrow> bool" where
  "changes_anchors (AddAnchor name k) = True"
| "changes_anchors (TryAddAnchor name k) = True"
| "changes_anchors (RemoveAnchor name k) = True"
| "changes_anchors (TryRemoveAnchor name k) = True"
| "changes_anchors _ = False"

text \<open>Commands that have an effect whenever they succeed. The variants that ignore an error may
  succeed without one.\<close>

fun needs_effect :: "command \<Rightarrow> bool" where
  "needs_effect (AddAnchor name k) = True"
| "needs_effect (RemoveAnchor name k) = True"
| "needs_effect (AppendRule anchor r) = True"
| "needs_effect cmd = (replaces cmd \<noteq> None)"

text \<open>The main ruleset of a kind of anchor, and the rule of an anchor.\<close>

fun anchor_ruleset :: "anchor_kind \<Rightarrow> ruleset_kind" where
  "anchor_ruleset AnchorKind_Filter = RulesetKind_Filter"
| "anchor_ruleset AnchorKind_Nat = RulesetKind_Nat"
| "anchor_ruleset AnchorKind_Redirect = RulesetKind_Redirect"
| "anchor_ruleset AnchorKind_Scrub = RulesetKind_Scrub"

definition main_ruleset :: "anchor_kind \<Rightarrow> ruleset" where
  "main_ruleset k = (ruleset_kind_to_i32 (anchor_ruleset k), main_path)"

definition anchor_struct :: "anchor_kind \<Rightarrow> pf_rule" where
  "anchor_struct k = pf_rule_zeroed\<lparr>r_action := anchor_kind_to_u8 k\<rparr>"

text \<open>One step: the command, whether it succeeded, and the active rules before and after.\<close>

inductive fw_step ::
  "externals \<Rightarrow> command \<Rightarrow> bool \<Rightarrow> (ruleset \<Rightarrow> entry list) \<Rightarrow> (ruleset \<Rightarrow> entry list) \<Rightarrow> bool"
  for X :: externals where
  append: "name_fits 1024 anchor \<Longrightarrow> appended_entry X r = Ok e \<Longrightarrow>
    fw_step X (AppendRule anchor r) True act (appended_at (slot (any_kind r) anchor) e act)"
| replace: "replaces cmd = Some p \<Longrightarrow> \<forall>(k, a, rs) \<in> set p. name_fits 1024 a \<Longrightarrow>
    replaced X p act act' \<Longrightarrow> fw_step X cmd True act act'"
| anchor_added: "cmd = AddAnchor name k \<or> cmd = TryAddAnchor name k \<Longrightarrow> name_fits 1024 name \<Longrightarrow>
    act (main_ruleset k) = xs @ ys \<Longrightarrow>
    fw_step X cmd True act (act(main_ruleset k := xs @ (anchor_struct k, ps) # ys))"
| anchor_removed: "cmd = RemoveAnchor name k \<or> cmd = TryRemoveAnchor name k \<Longrightarrow>
    i < length (act (main_ruleset k)) \<Longrightarrow>
    fw_step X cmd True act (act(main_ruleset k := without_nth i (act (main_ruleset k))))"
| nothing: "(ok \<Longrightarrow> \<not> needs_effect cmd) \<Longrightarrow> fw_step X cmd ok act act"

inductive fw_run ::
  "externals \<Rightarrow> (command \<times> bool) list \<Rightarrow> (ruleset \<Rightarrow> entry list) \<Rightarrow> (ruleset \<Rightarrow> entry list) \<Rightarrow> bool"
  for X :: externals where
  finished: "fw_run X [] act act"
| more: "fw_step X cmd ok act act1 \<Longrightarrow> fw_run X hist act1 act2 \<Longrightarrow> fw_run X ((cmd, ok) # hist) act act2"

inductive_cases fw_appendE: "fw_step X (AppendRule anchor r) ok act act'"
inductive_simps fw_run_simps: "fw_run X [] act act'" "fw_run X ((cmd, ok) # hist) act act'"

section \<open>The rules of anchors\<close>

lemma anchor_number:
  assumes "documented_pf K V"
  shows "pv_number V (anchor_kind_to_u8 k) = ruleset_kind_to_i32 (anchor_ruleset k)"
  using documented_pfD(1) [OF assms] by (cases k) (simp_all add: documented_numbers_def)

lemma anchor_target:
  assumes "documented_pf K V" and "r_action (ir_rule a) = anchor_kind_to_u8 k" and "ir_anchor a = main_path"
  shows "rule_target V a = main_ruleset k"
  by (simp add: rule_target_def main_ruleset_def anchor_number [OF assms(1)] assms(2,3))

lemma guarded_call_cases:
  assumes "guarded e (call ev g) w = (q, w')"
  obtains (granted) ret errno x where "g (w_kernel w) = (ret, errno, x, w_kernel w')" "ret \<noteq> - 1" "q = Ok x"
  | (refused) errno x e where "g (w_kernel w) = (- 1, errno, x, w_kernel w')" "q = Err e"
proof -
  obtain ret errno x k where g: "g (w_kernel w) = (ret, errno, x, k)" by (metis surj_pair)
  show ?thesis
  proof (cases "ret = - 1")
    case True
    then show ?thesis
      using assms g refused by (auto simp: guarded_def call_def ioctl_guard_def IOCTL_ERROR_def split: if_splits)
  next
    case False
    then show ?thesis
      using assms g granted by (auto simp: guarded_def call_def ioctl_guard_def IOCTL_ERROR_def)
  qed
qed

text \<open>Adding an anchor: one entry more, or nothing.\<close>

lemma add_anchor_effect:
  assumes D: "documented_pf K V" and R: "documented_anchor_rules K V"
    and run: "add_anchor K X c name k w = (q, w')"
  shows "if q = Ok () then name_fits 1024 name \<and>
      (\<exists>xs ys ps. pv_active V (w_kernel w) (main_ruleset k) = xs @ ys \<and>
        pv_active V (w_kernel w') = (pv_active V (w_kernel w))(main_ruleset k := xs @ (anchor_struct k, ps) # ys))
    else pv_active V (w_kernel w') = pv_active V (w_kernel w)"
proof (cases "name_fits 1024 name")
  case False
  then have "q \<noteq> Ok ()" "w' = w"
    using run by (auto simp: add_anchor_def Let_def copy_anchor_name_cases pfioc_rule_zeroed_def io_bind_def io_lift_def)
  then show ?thesis by simp
next
  case True
  define a where "a = pfioc_rule_zeroed\<lparr>ir_rule := anchor_struct k, ir_anchor_call := nul_terminated name (zeros 1024)\<rparr>"
  have a: "rule_target V a = main_ruleset k" "ir_rule a = anchor_struct k"
    by (intro anchor_target [OF D]; simp add: a_def anchor_struct_def pfioc_rule_zeroed_def)
      (simp add: a_def)
  obtain s where s: "guarded (EEXIST X) (pf_insert_rule K (ctl_file c) a) w = (s, w')" "q = Ok () \<longleftrightarrow> is_ok s"
    using run True
    by (cases "guarded (EEXIST X) (pf_insert_rule K (ctl_file c) a) w")
      (auto simp: add_anchor_def Let_def copy_anchor_name_cases io_bind_def io_lift_def io_return_def a_def
        anchor_struct_def split: outcome.splits)
  note insert = R [unfolded documented_anchor_rules_def, THEN conjunct1, rule_format]
  from s(1) [unfolded pf_insert_rule_def] show ?thesis
  proof (cases rule: guarded_call_cases)
    case (granted ret errno x)
    then show ?thesis using insert [OF granted(1)] s(2) True by (simp add: a)
  next
    case (refused errno x e)
    then show ?thesis using insert [OF refused(1)] s(2) by simp
  qed
qed

text \<open>Removing an anchor: one entry less, or nothing.\<close>

definition removes_one :: "'k pf_view \<Rightarrow> ruleset \<Rightarrow> unit result \<Rightarrow> 'k \<Rightarrow> 'k \<Rightarrow> bool" where
  "removes_one V s q k k' \<longleftrightarrow>
     (if q = Ok () then \<exists>i < length (pv_active V k s). pv_active V k' = (pv_active V k)(s := without_nth i (pv_active V k s))
      else pv_active V k' = pv_active V k)"

lemma delete_listed:
  assumes R: "documented_anchor_rules K V" and listed: "listed_struct V (w_kernel w) b"
    and run: "io_bind (guarded e (pf_delete_rule K d b)) (\<lambda>_. io_return ()) w = (q, w')"
  shows "removes_one V (rule_target V b) q (w_kernel w) (w_kernel w')"
proof -
  obtain s where s: "guarded e (pf_delete_rule K d b) w = (s, w')" "q = Ok () \<longleftrightarrow> is_ok s"
    using run by (cases "guarded e (pf_delete_rule K d b) w")
      (auto simp: io_bind_def io_return_def split: outcome.splits)
  note delete = R [unfolded documented_anchor_rules_def, THEN conjunct2, THEN conjunct2, THEN conjunct2, rule_format]
  from s(1) [unfolded pf_delete_rule_def] show ?thesis
  proof (cases rule: guarded_call_cases)
    case (granted ret errno x)
    then show ?thesis
      using delete [OF granted(1) listed] s(2) listed by (auto simp: removes_one_def listed_struct_def)
  next
    case (refused errno x e)
    then show ?thesis using delete [OF refused(1) listed] s(2) by (simp add: removes_one_def)
  qed
qed

lemma listing_call:
  assumes O: "documented_others K V" and R: "documented_anchor_rules K V"
    and run: "guarded e (pf_get_rule K d a) w = (s, w')"
  shows "pv_active V (w_kernel w') = pv_active V (w_kernel w)"
    and "s = Ok b \<Longrightarrow> rule_target V b = rule_target V a \<and> listed_struct V (w_kernel w') b"
proof -
  have same: "pv_active V (snd (snd (snd (sys_rule K (ioctl_request PfGetRule) d a k)))) = pv_active V k" for k
    using O unfolding documented_others_def by blast
  then show keep: "pv_active V (w_kernel w') = pv_active V (w_kernel w)"
    using run unfolding pf_get_rule_def by (metis keeps_call keepsD)
  note get = R [unfolded documented_anchor_rules_def, THEN conjunct2, THEN conjunct2, THEN conjunct1, rule_format]
  show "rule_target V b = rule_target V a \<and> listed_struct V (w_kernel w') b" if "s = Ok b"
    using run [unfolded pf_get_rule_def]
  proof (cases rule: guarded_call_cases)
    case (granted ret errno x)
    then show ?thesis using get [OF granted(1,2)] that keep unfolding listed_struct_def by simp argo
  qed (use that in simp)
qed

lemma anchor_loop_removes:
  assumes O: "documented_others K V" and R: "documented_anchor_rules K V"
    and run: "anchor_rule_loop K X d name ix a
      (\<lambda>b. io_bind (guarded (EEXIST X) (pf_delete_rule K d b)) (\<lambda>_. io_return ())) w = (q, w')"
  shows "removes_one V (rule_target V a) q (w_kernel w) (w_kernel w')"
  using run
proof (induction ix arbitrary: a w)
  case Nil
  then show ?case by (auto simp: removes_one_def io_lift_def)
next
  case (Cons i ix)
  let ?f = "\<lambda>b. io_bind (guarded (EEXIST X) (pf_delete_rule K d b)) (\<lambda>_. io_return ())"
  obtain s w1 where s: "guarded (EEXIST X) (pf_get_rule K d (a\<lparr>ir_nr := i\<rparr>)) w = (s, w1)" by fastforce
  note get = listing_call [OF O R s]
  have t: "rule_target V (a\<lparr>ir_nr := i\<rparr>) = rule_target V a" by (simp add: rule_target_def)
  show ?case
  proof (cases s)
    case (Ok b)
    note b = get(2) [OF Ok, unfolded t]
    consider "compare_cstr_safe name (ir_anchor_call b) = Ok True" "?f b w1 = (q, w')"
      | "compare_cstr_safe name (ir_anchor_call b) = Ok False" "anchor_rule_loop K X d name ix b ?f w1 = (q, w')"
      | "q \<noteq> Ok ()" "w' = w1"
      using Cons.prems s Ok
      by (cases "compare_cstr_safe name (ir_anchor_call b)") (auto simp: io_bind_def io_lift_def split: if_splits)
    then have "removes_one V (rule_target V b) q (w_kernel w1) (w_kernel w')"
    proof cases
      case 1
      then show ?thesis using delete_listed [OF R conjunct2 [OF b]] by blast
    next
      case 2
      then show ?thesis using Cons.IH by blast
    qed (simp add: removes_one_def)
    then show ?thesis unfolding removes_one_def get(1) conjunct1 [OF b] .
  qed (use Cons.prems s get(1) in \<open>auto simp: io_bind_def removes_one_def\<close>)
qed

lemma remove_anchor_effect:
  assumes D: "documented_pf K V" and O: "documented_others K V" and R: "documented_anchor_rules K V"
    and run: "remove_anchor K X c name k w = (q, w')"
  shows "removes_one V (main_ruleset k) q (w_kernel w) (w_kernel w')"
proof -
  let ?a = "pfioc_rule_zeroed\<lparr>ir_rule := (ir_rule pfioc_rule_zeroed)\<lparr>r_action := anchor_kind_to_u8 k\<rparr>\<rparr>"
  have a: "rule_target V ?a = main_ruleset k"
    by (rule anchor_target [OF D]) (simp_all add: pfioc_rule_zeroed_def)
  obtain s w1 where s: "guarded (EEXIST X) (pf_get_rules K (ctl_file c) ?a) w = (s, w1)" by fastforce
  have same: "pv_active V (snd (snd (snd (sys_rule K (ioctl_request PfGetRules) d a k)))) = pv_active V k" for d a k
    using O unfolding documented_others_def by blast
  then have keep: "pv_active V (w_kernel w1) = pv_active V (w_kernel w)"
    using s unfolding pf_get_rules_def by (metis keeps_call keepsD)
  note get = R [unfolded documented_anchor_rules_def, THEN conjunct2, THEN conjunct1, rule_format]
  show ?thesis
  proof (cases s)
    case (Ok b)
    have t: "rule_target V (b\<lparr>ir_action := x\<rparr>) = main_ruleset k" for x
      using s [unfolded pf_get_rules_def]
    proof (cases rule: guarded_call_cases)
      case (granted ret errno y)
      then show ?thesis using get [OF granted(1,2)] a Ok by (simp add: rule_target_def)
    qed (use Ok in simp)
    have "removes_one V (main_ruleset k) q (w_kernel w1) (w_kernel w')"
      using anchor_loop_removes [OF O R] run s Ok t
      unfolding remove_anchor_def with_anchor_rule_def Let_def io_bind_def by fastforce
    then show ?thesis unfolding removes_one_def keep .
  qed (use run s keep in \<open>auto simp: remove_anchor_def with_anchor_rule_def Let_def io_bind_def removes_one_def\<close>)
qed

section \<open>Sequences of operations\<close>

text \<open>All commands are given, one after the other; a panic ends the program.\<close>

fun perform_all ::
  "'k kernel \<Rightarrow> externals \<Rightarrow> pfctl \<Rightarrow> command list \<Rightarrow> 'k world \<Rightarrow> bool list \<times> 'k world" where
  "perform_all K X c [] w = ([], w)"
| "perform_all K X c (cmd # cmds) w =
     (case perform K X c cmd w of
        (Panic, w') \<Rightarrow> ([False], w')
      | (q, w') \<Rightarrow> (case perform_all K X c cmds w' of (oks, w'') \<Rightarrow> (is_ok q # oks, w'')))"

text \<open>The iteration order of a transaction visits each of its anchors once, and the number of its
  elements fits the signed integer in which the kernel reads it.\<close>

fun visits_all :: "command \<Rightarrow> bool" where
  "visits_all (Commit order t) \<longleftrightarrow>
     distinct order \<and> set order = dom (change_by_anchor t) \<and> length (plan order t) < 2 ^ 31"
| "visits_all _ \<longleftrightarrow> True"

lemma quiet_cases:
  assumes "quiet m w = (q, w')"
  obtains r where "m w = (r, w')" and "is_ok q = is_ok r"
  using assms by (cases "m w") (auto simp: io_bind_def io_return_def split: outcome.splits)

lemma quiet_keeps: "keeps f m \<Longrightarrow> keeps f (quiet m)"
  by (intro keeps_intros)

lemma append_fits: "append_any K X c anchor r w = (Ok (), w') \<Longrightarrow> name_fits 1024 anchor"
  by (cases r) (auto simp del: append_any.simps simp: append_any_eq append_plain_def append_pool_def
      io_bind_Ok io_lift_eq copy_anchor_name_Ok_iff name_fits_def)

lemma commit_fits:
  assumes "commit K X order t w = (Ok (), w')" and "(k, a, rs) \<in> set (plan order t)"
  shows "name_fits 1024 a"
proof -
  obtain es where "plan_elements (plan order t) = Ok es"
    using assms(1) unfolding commit_eq_spec commit_spec_def io_bind_Ok io_lift_eq by blast
  then show ?thesis using assms(2) plan_elements_Ok_iff [of "plan order t"] by blast
qed

lemma commit_step:
  assumes D: "documented_pf K V" and "distinct order" and "length (plan order t) < 2 ^ 31"
    and run: "commit K X order t w = (q, w')" and "replaces cmd = Some (plan order t)"
  shows "fw_step X cmd (is_ok q) (pv_active V (w_kernel w)) (pv_active V (w_kernel w'))"
proof (cases "q = Ok ()")
  case True
  then have "replaced X (plan order t) (pv_active V (w_kernel w)) (pv_active V (w_kernel w'))"
    using commit_effect [OF D assms(2,3) run] by simp
  then show ?thesis
    using assms(5) commit_fits [OF run [unfolded True]] True by (auto intro!: fw_step.replace)
next
  case False
  then show ?thesis
    using commit_effect [OF D assms(2,3) run] by (cases q) (auto intro!: fw_step.nothing)
qed

lemma length_plan_single: "length (plan [anchor] t) \<le> 4"
proof -
  have "length (partition_changes f [anchor] t) \<le> 1" for f :: "anchor_change \<Rightarrow> 'r list option"
    by (simp add: partition_changes_def List.map_filter_simps split: option.split)
  from this [of filter_rules] this [of nat_rules] this [of redirect_rules] this [of scrub_rules]
  show ?thesis by (simp add: plan_def)
qed

text \<open>Commands that leave the rules alone, and commands on anchors.\<close>

lemma perform_keeps:
  assumes D: "documented_others K V" and "replaces cmd = None" and "\<forall>anchor r. cmd \<noteq> AppendRule anchor r"
    and "\<not> changes_anchors cmd"
  shows "keeps (pv_active V) (perform K X c cmd)"
  using assms(2-)
  by (cases cmd) (simp_all add: quiet_keeps quiet_operations_keep [OF D] clear_states_keeps [OF D]
      get_interfaces_keeps [OF D])

lemma perform_keeps_below:
  assumes D: "documented_others K V" and "changes_anchors cmd"
  shows "keeps (\<lambda>k. below_main (pv_active V k)) (perform K X c cmd)"
  using assms(2) by (cases cmd) (simp_all add: quiet_keeps anchor_operations_keep [OF D])

lemma replace_step:
  assumes D: "documented_pf K V" and visits: "visits_all cmd" and "replaces cmd = Some p"
    and run: "perform K X c cmd w = (q, w')"
  shows "fw_step X cmd (is_ok q) (pv_active V (w_kernel w)) (pv_active V (w_kernel w'))"
proof -
  have small: "length (plan [anchor] t) < 2 ^ 31" for anchor t using length_plan_single [of anchor t] by simp
  obtain order t where o: "distinct order" "length (plan order t) < 2 ^ 31" "p = plan order t"
    and eq: "perform K X c cmd w = quiet (commit K X order t) w"
  proof (cases cmd)
    case (SetRules anchor change)
    show thesis
    proof (rule that)
      show "distinct [anchor]" by simp
      show "length (plan [anchor] (add_change anchor change transaction_new)) < 2 ^ 31" by (rule small)
      show "p = plan [anchor] (add_change anchor change transaction_new)" using assms(3) SetRules by simp
    qed (simp add: SetRules set_rules_def)
  next
    case (FlushRules anchor k)
    obtain t where t: "\<forall>w. flush_rules K X anchor k w = commit K X [anchor] t w" "plan [anchor] t = [(k, anchor, [])]"
      using flush_commits by blast
    show thesis
    proof (rule that)
      show "distinct [anchor]" by simp
      show "length (plan [anchor] t) < 2 ^ 31" by (rule small)
      show "p = plan [anchor] t" using assms(3) FlushRules t(2) by simp
    qed (simp add: FlushRules io_bind_def t(1) [rule_format])
  next
    case (Commit order t)
    show thesis
    proof (rule that)
      show "distinct order" "length (plan order t) < 2 ^ 31" using visits Commit by simp_all
      show "p = plan order t" using assms(3) Commit by simp
    qed (simp add: Commit)
  qed (use assms(3) in simp_all)
  obtain r where r: "commit K X order t w = (r, w')" "is_ok q = is_ok r"
    using run unfolding eq by (rule quiet_cases)
  show ?thesis using commit_step [OF D o(1,2) r(1)] assms(3) o(3) r(2) by simp
qed

lemma append_step:
  assumes D: "documented_pf K V" and run: "perform K X c (AppendRule anchor r) w = (q, w')"
  shows "fw_step X (AppendRule anchor r) (is_ok q) (pv_active V (w_kernel w)) (pv_active V (w_kernel w'))"
proof -
  obtain s where s: "append_any K X c anchor r w = (s, w')" "is_ok q = is_ok s"
    using run quiet_cases [of "append_any K X c anchor r"] by (metis perform.simps(10))
  show ?thesis
  proof (cases s)
    case (Ok u)
    then show ?thesis
      using append_Ok [OF D, of X c anchor r w w'] append_fits [of K X c anchor r w w'] s
      by (auto intro: fw_step.append)
  qed (use s fails_safeD [OF append_fails_safe [OF D] s(1)] in \<open>auto intro: fw_step.nothing\<close>)
qed

lemma anchor_add_step:
  assumes "documented_pf K V" and "documented_anchor_rules K V" and "add_anchor K X c name k w = (r, w')"
    and "ok = is_ok r \<and> cmd = AddAnchor name k \<or> (is_ok r \<longrightarrow> ok) \<and> cmd = TryAddAnchor name k"
  shows "fw_step X cmd ok (pv_active V (w_kernel w)) (pv_active V (w_kernel w'))"
proof (cases "r = Ok ()")
  case True
  then obtain xs ys ps where "name_fits 1024 name" "pv_active V (w_kernel w) (main_ruleset k) = xs @ ys"
    "pv_active V (w_kernel w') = (pv_active V (w_kernel w))(main_ruleset k := xs @ (anchor_struct k, ps) # ys)"
    using add_anchor_effect [OF assms(1-3)] by auto
  moreover have "ok" using True assms(4) by auto
  ultimately show ?thesis using assms(4) by (auto intro: fw_step.anchor_added)
next
  case False
  then have "\<not> is_ok r" by (cases r) simp_all
  moreover have "pv_active V (w_kernel w') = pv_active V (w_kernel w)"
    using add_anchor_effect [OF assms(1-3)] False by simp
  ultimately show ?thesis using assms(4) by (auto intro: fw_step.nothing)
qed

lemma anchor_remove_step:
  assumes "documented_pf K V" and "documented_others K V" and "documented_anchor_rules K V"
    and "remove_anchor K X c name k w = (r, w')"
    and "ok = is_ok r \<and> cmd = RemoveAnchor name k \<or> (is_ok r \<longrightarrow> ok) \<and> cmd = TryRemoveAnchor name k"
  shows "fw_step X cmd ok (pv_active V (w_kernel w)) (pv_active V (w_kernel w'))"
proof (cases "r = Ok ()")
  case True
  then obtain i where "i < length (pv_active V (w_kernel w) (main_ruleset k))"
    "pv_active V (w_kernel w') = (pv_active V (w_kernel w))
       (main_ruleset k := without_nth i (pv_active V (w_kernel w) (main_ruleset k)))"
    using remove_anchor_effect [OF assms(1-4)] by (auto simp: removes_one_def)
  moreover have "ok" using True assms(5) by auto
  ultimately show ?thesis using assms(5) by (auto intro: fw_step.anchor_removed)
next
  case False
  then have "\<not> is_ok r" by (cases r) simp_all
  moreover have "pv_active V (w_kernel w') = pv_active V (w_kernel w)"
    using remove_anchor_effect [OF assms(1-4)] False by (simp add: removes_one_def)
  ultimately show ?thesis using assms(5) by (auto intro: fw_step.nothing)
qed

lemma ignoring_ok: "is_ok r \<Longrightarrow> is_ok (ignore_error_kind r k)"
  by (cases r) simp_all

lemma anchor_step:
  assumes D: "documented_pf K V" and O: "documented_others K V" and R: "documented_anchor_rules K V"
    and "changes_anchors cmd" and run: "perform K X c cmd w = (q, w')"
  shows "fw_step X cmd (is_ok q) (pv_active V (w_kernel w)) (pv_active V (w_kernel w'))"
proof (cases cmd)
  case (AddAnchor name k)
  then obtain r where "add_anchor K X c name k w = (r, w')" "is_ok q = is_ok r"
    using run by (auto elim: quiet_cases)
  then show ?thesis using AddAnchor by (intro anchor_add_step [OF D R]) auto
next
  case (TryAddAnchor name k)
  then obtain p where p: "try_add_anchor K X c name k w = (p, w')" "is_ok q = is_ok p"
    using run by (auto elim: quiet_cases)
  then obtain r where "add_anchor K X c name k w = (r, w')" "p = ignore_error_kind r Kind_StateAlreadyActive"
    by (cases "add_anchor K X c name k w") (auto simp: try_add_anchor_def ignoring_def)
  then show ?thesis using TryAddAnchor p(2) ignoring_ok by (intro anchor_add_step [OF D R]) auto
next
  case (RemoveAnchor name k)
  then obtain r where "remove_anchor K X c name k w = (r, w')" "is_ok q = is_ok r"
    using run by (auto elim: quiet_cases)
  then show ?thesis using RemoveAnchor by (intro anchor_remove_step [OF D O R]) auto
next
  case (TryRemoveAnchor name k)
  then obtain p where p: "try_remove_anchor K X c name k w = (p, w')" "is_ok q = is_ok p"
    using run by (auto elim: quiet_cases)
  then obtain r where "remove_anchor K X c name k w = (r, w')" "p = ignore_error_kind r Kind_AnchorDoesNotExist"
    by (cases "remove_anchor K X c name k w") (auto simp: try_remove_anchor_def ignoring_def)
  then show ?thesis using TryRemoveAnchor p(2) ignoring_ok by (intro anchor_remove_step [OF D O R]) auto
qed (use assms(4) in simp_all)

lemma perform_step:
  assumes "documented_pf K V" and "documented_others K V" and "visits_all cmd"
    and "\<not> changes_anchors cmd" and run: "perform K X c cmd w = (q, w')"
  shows "fw_step X cmd (is_ok q) (pv_active V (w_kernel w)) (pv_active V (w_kernel w'))"
proof (cases "replaces cmd")
  case (Some p)
  then show ?thesis by (rule replace_step [OF assms(1,3) _ run])
next
  case None
  show ?thesis
  proof (cases "\<exists>anchor r. cmd = AppendRule anchor r")
    case True
    then show ?thesis using append_step [OF assms(1)] run by auto
  next
    case False
    then have other: "\<forall>anchor r. cmd \<noteq> AppendRule anchor r" by blast
    then have "\<not> needs_effect cmd" using None assms(4) by (cases cmd) simp_all
    then show ?thesis
      using keepsD [OF perform_keeps [OF assms(2) None other assms(4)] run] by (auto intro: fw_step.nothing)
  qed
qed

text \<open>An abstract run touches only the anchors that its commands name.\<close>

fun named :: "command \<Rightarrow> rstring set" where
  "named (AppendRule anchor r) = {anchor}"
| "named (SetRules anchor change) = {anchor}"
| "named (FlushRules anchor k) = {anchor}"
| "named (Commit order t) = set order"
| "named _ = {}"

lemma replaces_named: "replaces cmd = Some p \<Longrightarrow> (k, a, rs) \<in> set p \<Longrightarrow> a \<in> named cmd"
  by (cases cmd) (auto simp: in_plan_iff)

lemma slot_below_main:
  assumes "name_fits 1024 b" and "b \<noteq> []"
  shows "snd (slot k b) \<noteq> main_path"
proof
  assume "snd (slot k b) = main_path"
  then have "hd (nul_terminated b main_path) = hd main_path" by (simp only: slot_def snd_conv)
  then have "hd b = 0" using assms(2) by (simp add: nul_terminated_def)
  then show False using assms hd_in_set [of b] by (simp add: name_fits_def)
qed

lemma fw_step_isolated:
  assumes "fw_step X cmd ok act act'" and "b \<notin> named cmd" and "name_fits 1024 b" and "\<not> changes_anchors cmd"
  shows "act' (slot k b) = act (slot k b)"
  using assms(1)
proof cases
  case (append anchor r e)
  then have "slot k b \<noteq> slot (any_kind r) anchor"
    using assms(2,3) slot_inject [of b anchor k "any_kind r"] by auto
  then show ?thesis using append by (simp add: appended_at_def)
next
  case (replace p)
  have "slot k b \<notin> change_slot ` set p"
  proof
    assume "slot k b \<in> change_slot ` set p"
    then obtain l a rs where m: "(l, a, rs) \<in> set p" "slot k b = slot l a" by auto
    moreover have "name_fits 1024 a" using m(1) replace(3) by blast
    ultimately have "a = b" using slot_inject [of b a k l] assms(3) by simp
    then show False using replaces_named [OF replace(2) m(1)] assms(2) by simp
  qed
  then show ?thesis using replace(4) unfolding replaced_def by blast
qed (use assms(4) in auto)

text \<open>The commands on anchors touch the main ruleset only, whatever they do there.\<close>

lemma perform_isolated:
  assumes D: "documented_pf K V" and O: "documented_others K V" and "visits_all cmd"
    and run: "perform K X c cmd w = (q, w')" and "b \<notin> named cmd" and b: "name_fits 1024 b" "b \<noteq> []"
  shows "pv_active V (w_kernel w') (slot k b) = pv_active V (w_kernel w) (slot k b)"
proof (cases "changes_anchors cmd")
  case True
  then have "below_main (pv_active V (w_kernel w')) (slot k b) = below_main (pv_active V (w_kernel w)) (slot k b)"
    using keepsD [OF perform_keeps_below [OF O] run] by simp
  then show ?thesis using slot_below_main [OF b, of k] by (simp add: below_main_def)
next
  case False
  show ?thesis by (rule fw_step_isolated [OF perform_step [OF D O assms(3) False run] assms(5) b(1) False])
qed

lemma machine_others: "documented_others pf_machine machine_view"
proof -
  have target: "p = ir_anchor a" if "(n, p) = rule_target machine_view a" for n p a
    using that by (simp add: rule_target_def)
  show ?thesis
    unfolding documented_others_def machine_sel
    by (intro conjI allI ballI impI)
      (auto simp: pf_machine_def machine_rule_def Let_def ioctl_request_inject
        simp del: ioctl_request.simps dest: target)
qed

lemma machine_anchor_rules: "documented_anchor_rules pf_machine machine_view"
  unfolding documented_anchor_rules_def
proof (intro conjI allI impI)
  fix d k ret errno a' k' and a :: pfioc_rule
  note run = pf_machine_def machine_rule_def Let_def ioctl_request_inject
  show "if ret = - 1 then pv_active machine_view k' = pv_active machine_view k
      else \<exists>xs ys ps. pv_active machine_view k (rule_target machine_view a) = xs @ ys \<and>
        pv_active machine_view k' = (pv_active machine_view k)
          (rule_target machine_view a := xs @ (ir_rule a, ps) # ys)"
    if "sys_rule pf_machine (ioctl_request PfInsertRule) d a k = (ret, errno, a', k')"
  proof -
    have "ret = 0" "pm_active k' = (pm_active k)(rule_target machine_view a :=
        (ir_rule a, []) # pm_active k (rule_target machine_view a))"
      using that by (auto simp: run simp del: ioctl_request.simps)
    then have "pm_active k (rule_target machine_view a) = [] @ pm_active k (rule_target machine_view a)"
      "pm_active k' = (pm_active k)(rule_target machine_view a :=
        [] @ (ir_rule a, []) # pm_active k (rule_target machine_view a))" "ret \<noteq> - 1" by simp_all
    then show ?thesis unfolding machine_sel by (subst if_not_P) blast+
  qed
  show "rule_target machine_view a' = rule_target machine_view a"
    if "sys_rule pf_machine (ioctl_request PfGetRules) d a k = (ret, errno, a', k')"
    using that by (auto simp: run rule_target_def simp del: ioctl_request.simps)
  show "rule_target machine_view a' = rule_target machine_view a" "listed_struct machine_view k a'"
    if "sys_rule pf_machine (ioctl_request PfGetRule) d a k = (ret, errno, a', k')" "ret \<noteq> - 1"
    using that by (auto simp: run rule_target_def listed_struct_def machine_view_def
        simp del: ioctl_request.simps split: if_splits)
  show "if ret = - 1 then pv_active machine_view k' = pv_active machine_view k
      else pv_active machine_view k' = (pv_active machine_view k)
        (rule_target machine_view a := without_nth (unat (ir_nr a)) (pv_active machine_view k (rule_target machine_view a)))"
    if "sys_rule pf_machine (ioctl_request PfDeleteRule) d a k = (ret, errno, a', k')"
    using that by (auto simp: run without_nth_def simp del: ioctl_request.simps split: if_splits)
qed

section \<open>Properties\<close>

text \<open>
  C2. Every sequence of operations, whatever their outcomes, is a run of the abstract firewall: on a
  kernel that behaves as documented, an operation that fails has no effect on the active rules,
  and one that succeeds has exactly its abstract effect: an appended rule is the last of its
  ruleset, a transaction, a setting or a flushing replaces its rulesets, adding an anchor puts
  one entry with the rule of an anchor into the main ruleset of its kind, removing one takes one
  entry out of it (which one, the registry of anchors tells), the variants
  that ignore an error do the same or nothing, and all other operations do nothing.
\<close>

theorem operations_refine_firewall:
  assumes "documented_pf K V" and "documented_others K V" and "documented_anchor_rules K V"
    and "list_all visits_all cmds" and "perform_all K X c cmds w = (oks, w')"
  shows "fw_run X (zip cmds oks) (pv_active V (w_kernel w)) (pv_active V (w_kernel w'))"
  using assms(4,5)
proof (induction cmds arbitrary: w oks)
  case Nil
  then show ?case by (simp add: fw_run.finished)
next
  case (Cons cmd cmds)
  obtain q w1 where one: "perform K X c cmd w = (q, w1)" by fastforce
  then have step: "fw_step X cmd (is_ok q) (pv_active V (w_kernel w)) (pv_active V (w_kernel w1))"
    using perform_step [OF assms(1,2) _ _ one] anchor_step [OF assms(1-3) _ one] Cons.prems(1) by auto
  show ?case
  proof (cases "q = Panic")
    case True
    then show ?thesis
      using Cons.prems(2) one fw_run.more [OF step fw_run.finished] by auto
  next
    case False
    obtain more where rest: "perform_all K X c cmds w1 = (more, w')" and oks: "oks = is_ok q # more"
      using Cons.prems(2) one False by (cases q) (auto split: prod.splits)
    have "fw_run X (zip cmds more) (pv_active V (w_kernel w1)) (pv_active V (w_kernel w'))"
      using Cons.IH [OF _ rest] Cons.prems(1) by simp
    with step show ?thesis unfolding oks by (simp add: fw_run.more)
  qed
qed

text \<open>An anchor is added, its NAT rules are flushed, a scrub rule is appended and one is set.\<close>

definition sample_commands :: "command list" where
  "sample_commands =
     [AddAnchor [97] AnchorKind_Scrub, FlushRules [97] RulesetKind_Nat, AppendRule [97] (AnyScrub scrub_in),
      SetRules [97] (set_scrub_rules [scrub_in] anchor_change_new), RemoveAnchor [97] AnchorKind_Scrub]"

lemma sample_commands_visit: "list_all visits_all sample_commands"
  by (simp add: sample_commands_def)

lemma operations_refine_firewall_witness:
  "case perform_all pf_machine macos \<lparr>ctl_file = 3\<rparr> sample_commands machine_world of (oks, w') \<Rightarrow>
     fw_run macos (zip sample_commands oks) (\<lambda>_. [(pf_rule_zeroed, [])]) (pm_active (w_kernel w'))"
proof -
  obtain oks w' where run: "perform_all pf_machine macos \<lparr>ctl_file = 3\<rparr> sample_commands machine_world = (oks, w')"
    by fastforce
  show ?thesis
    using operations_refine_firewall [OF machine_documented machine_others machine_anchor_rules sample_commands_visit run]
    by (simp add: run)
qed

text \<open>
  C3. Isolation of anchors: a sequence of operations, whatever their outcomes, leaves all rules of
  every anchor that none of them names as they were (the main ruleset excepted, where anchors
  are registered).
\<close>

theorem anchors_isolated:
  assumes "documented_pf K V" and "documented_others K V" and "list_all visits_all cmds"
    and "perform_all K X c cmds w = (oks, w')"
    and "\<forall>cmd \<in> set cmds. b \<notin> named cmd" and "name_fits 1024 b" and "b \<noteq> []"
  shows "pv_active V (w_kernel w') (slot k b) = pv_active V (w_kernel w) (slot k b)"
  using assms(3-5)
proof (induction cmds arbitrary: w oks)
  case (Cons cmd cmds)
  obtain q w1 where one: "perform K X c cmd w = (q, w1)" by fastforce
  then have same: "pv_active V (w_kernel w1) (slot k b) = pv_active V (w_kernel w) (slot k b)"
    using perform_isolated [OF assms(1,2) _ one _ assms(6,7)] Cons.prems(1,3) by simp
  show ?case
  proof (cases "q = Panic")
    case True
    then show ?thesis using Cons.prems(2) one same by simp
  next
    case False
    then obtain more where "perform_all K X c cmds w1 = (more, w')"
      using Cons.prems(2) one by (cases q) (auto split: prod.splits)
    then show ?thesis using Cons.IH Cons.prems(1,3) same by simp
  qed
qed simp

lemma anchors_isolated_witness:
  "pm_active (w_kernel (snd (perform_all pf_machine macos \<lparr>ctl_file = 3\<rparr> sample_commands machine_world)))
     (slot RulesetKind_Scrub [98]) = [(pf_rule_zeroed, [])]"
proof -
  obtain oks w' where run: "perform_all pf_machine macos \<lparr>ctl_file = 3\<rparr> sample_commands machine_world = (oks, w')"
    by fastforce
  have "\<forall>cmd \<in> set sample_commands. [98] \<notin> named cmd" "name_fits 1024 [98 :: u8]" "[98 :: u8] \<noteq> []"
    by (simp_all add: sample_commands_def name_fits_def)
  from anchors_isolated [OF machine_documented machine_others sample_commands_visit run this]
  show ?thesis by (simp add: run)
qed

end
