(* ===== verification/ExamplesSpec.thy ===== *)
theory ExamplesSpec
  imports Examples FirewallRuns
begin

text \<open>
  What the programs of \<open>examples/\<close> promise: that no \<open>expect\<close> fails on a kernel that refuses nothing,
  and on every kernel that behaves as documented that the flush program empties the rulesets of
  the anchors it is given, the transaction program replaces three rulesets or none, and the
  program that appends rules leaves a first part of them behind when it fails.
\<close>

section \<open>Running the programs\<close>

lemma expected_Ok_iff [simp]: "expected r = Ok x \<longleftrightarrow> r = Ok x"
  by (cases r) simp_all

lemma expected_no_error [simp]: "expected r \<noteq> Err e"
  by (cases r) simp_all

lemma io_expect_Ok [io_simps]: "io_expect m w = (Ok x, w') \<longleftrightarrow> m w = (Ok x, w')"
  by (auto simp: io_expect_def split: prod.splits)

lemma succeeds_expect [succeeds_intros]: "succeeds m \<Longrightarrow> succeeds (io_expect m)"
  by (auto simp: succeeds_def io_expect_def split: prod.split) (metis prod.inject expected.simps(1))

lemma keeps_expect [keeps_intros]: "keeps f m \<Longrightarrow> keeps f (io_expect m)"
  by (auto simp: keeps_def io_expect_def split: prod.splits)

text \<open>What a program does to an observation, by its result.\<close>

definition leads :: "('k \<Rightarrow> 'o) \<Rightarrow> ('a result \<Rightarrow> 'o \<Rightarrow> 'o \<Rightarrow> bool) \<Rightarrow> ('k, 'a) io \<Rightarrow> bool" where
  "leads f R m \<longleftrightarrow> (\<forall>w q w'. m w = (q, w') \<longrightarrow> R q (f (w_kernel w)) (f (w_kernel w')))"

lemma leadsD: "leads f R m \<Longrightarrow> m w = (q, w') \<Longrightarrow> R q (f (w_kernel w)) (f (w_kernel w'))"
  by (simp add: leads_def)

lemma leads_bind:
  assumes "keeps f m" and "\<And>x. leads f R (g x)" and "\<And>a e. R (Err e) a a" and "\<And>a. R Panic a a"
  shows "leads f R (io_bind m g)"
  unfolding leads_def
proof (intro allI impI)
  fix w q w'
  assume run: "io_bind m g w = (q, w')"
  obtain p w1 where one: "m w = (p, w1)" by fastforce
  note same = keepsD [OF assms(1) one]
  show "R q (f (w_kernel w)) (f (w_kernel w'))"
  proof (cases p)
    case (Ok x)
    then have "g x w1 = (q, w')" using run one by (simp add: io_bind_def)
    then show ?thesis using leadsD [OF assms(2)] same by metis
  qed (use run one same assms(3,4) in \<open>auto simp: io_bind_def\<close>)
qed

section \<open>The rules of the examples\<close>

lemma trans_rules_built:
  assumes "documented_ipnetwork X"
  shows "trans_rule1 X = Ok ((filter_rule_default (FilterRuleAction_Drop DropAction_Drop))
      \<lparr>fr_from := endpoint_from_ip (Ip_Net (IpNetwork_V4 0xC0A8EA01 (- 1)))\<rparr>)"
    and "trans_rule2 X = Ok ((filter_rule_default (FilterRuleAction_Drop DropAction_Drop))
      \<lparr>fr_from := endpoint_from_ip (Ip_Net (IpNetwork_V4 0xC0A8EA02 (- 1))),
       fr_to := endpoint_from_port (port_from_u16 80)\<rparr>)"
  using assms by (simp_all add: trans_rule1_def trans_rule2_def endpoint_from_ipv4_def ip_from_ipv4_def
      documented_ipnetwork_def ipv4addr_new_def)

lemma add_rules_built:
  assumes "documented_ipnetwork X" and "ipv4network_new X 0x0A000000 8 = Some (a, m)"
  shows "block_a_private_net_rule X = Ok ((filter_rule_default (FilterRuleAction_Drop DropAction_Drop))
      \<lparr>fr_from := endpoint_from_ip (Ip_Net (IpNetwork_V4 a m))\<rparr>)"
    and "redirect_incoming_tcp_from_port_3000_to_4000 X =
      Ok ((redirect_rule_default RedirectRuleAction_Redirect
          (endpoint_new (Ip_Net (IpNetwork_V4 0x7F000001 (- 1))) (Port_One 4000 PortUnary_Equal)))
        \<lparr>rr_af := AddrFamily_Ipv4, rr_proto := Proto_Tcp, rr_direction := Direction_In,
         rr_to := endpoint_from_port (Port_One 3000 PortUnary_Equal)\<rparr>)"
  using assms by (simp_all add: block_a_private_net_rule_def redirect_incoming_tcp_from_port_3000_to_4000_def
      ip_from_ipv4_def documented_ipnetwork_def ipv4addr_new_def ip_from_network_def)

lemma anchor_name_fits: "name_fits 1024 ANCHOR_NAME" "name_fits 16 (map of_char ''utun0'' :: rstring)"
  by (simp_all add: ANCHOR_NAME_def name_fits_def)

lemmas example_rule_defs =
  pass_all_rule_def pass_all_ipv4_quick_rule_def pass_all_ipv6_on_utun0_rule_def pass_all_icmp_echo_req_def
  pass_all_icmp_port_unreach_def pass_all_icmp_timex_transit_def pass_all_icmp_timex_reassembly_def
  filter_rule_default_def redirect_rule_default_def endpoint_from_ip_def endpoint_from_port_def port_from_u16_def
  endpoint_new_def interface_from_def

lemma pass_rules_ok:
  "\<forall>r \<in> {pass_all_rule, pass_all_ipv4_quick_rule, pass_all_ipv6_on_utun0_rule, pass_all_icmp_echo_req,
     pass_all_icmp_port_unreach, pass_all_icmp_timex_transit, pass_all_icmp_timex_reassembly}.
   filter_rule_ok r \<and> get_route r = NoRoute"
  using anchor_name_fits(2)
  by (auto simp: example_rule_defs filter_rule_ok_def state_policy_ok_def name_fits_def endpoint_get_af_def
      get_route_def resolves_to_def)

section \<open>Appending is complete\<close>

lemma append_plain_succeeds:
  assumes "obliging K" and "name_fits 1024 anchor" and "copy pf_rule_zeroed = Ok p"
  shows "succeeds (append_plain K X d copy anchor k)"
  using assms by (auto simp: append_plain_def get_ticket_def Let_def pf_change_rule_def copy_anchor_name_zeros
      pfioc_rule_zeroed_def intro!: succeeds_intros succeeds_get_pool_ticket)

lemma append_pool_succeeds:
  assumes "obliging K" and "documented_ipnetwork X" and "name_fits 1024 anchor"
    and "copy pf_rule_zeroed = Ok p" and "finish p = Ok p'" and "\<forall>a \<in> set pools. interface_ok (po_interface a)"
  shows "succeeds (append_pool K X d copy pools finish anchor k)"
  using assms by (auto simp: append_pool_def get_ticket_def Let_def pf_change_rule_def copy_anchor_name_zeros
      pfioc_rule_zeroed_def intro!: succeeds_intros succeeds_get_pool_ticket succeeds_add_pool_address)

lemma append_any_succeeds:
  assumes K: "obliging K" and X: "documented_ipnetwork X" and a: "name_fits 1024 anchor"
    and r: "appended_rule X r = Ok p"
  shows "succeeds (append_any K X c anchor r)"
proof (cases r)
  case (AnyFilter f)
  then show ?thesis using append_plain_succeeds [OF K a] r by (simp only: append_any_eq) simp
next
  case (AnyScrub s)
  have "\<exists>p. scrub_rule_copy_to s pf_rule_zeroed = Ok p" by (simp add: scrub_rule_copy_to_def)
  then show ?thesis using append_plain_succeeds [OF K a] AnyScrub by (auto simp only: append_any_eq)
next
  case (AnyNat n)
  then obtain q where "nat_rule_copy_to X n pf_rule_zeroed = Ok q" "finish_nat X n q = Ok p"
    using r by (auto simp: install_parts outcome_simps)
  moreover have "\<forall>a \<in> set (nat_pools n). interface_ok (po_interface a)"
    by (auto simp: nat_pools_def split: option.splits)
  ultimately show ?thesis unfolding AnyNat append_any_eq by (intro append_pool_succeeds K X a)
next
  case (AnyRedirect q)
  then obtain p0 where "redirect_rule_copy_to X q pf_rule_zeroed = Ok p0" "install_endpoint X (get_redirect_to q) p0 = Ok p"
    using r by (auto simp: install_redirect_def outcome_simps)
  moreover have "\<forall>a \<in> set (redirect_pools q). interface_ok (po_interface a)"
    by (auto simp: redirect_pools_def)
  ultimately show ?thesis unfolding AnyRedirect append_any_eq by (intro append_pool_succeeds K X a)
qed

lemma append_any_Ok_iff:
  assumes "obliging K" and "documented_ipnetwork X"
  shows "is_ok (fst (append_any K X c anchor r w)) \<longleftrightarrow> name_fits 1024 anchor \<and> is_ok (appended_rule X r)"
proof
  assume ok: "is_ok (fst (append_any K X c anchor r w))"
  then obtain w' where run: "append_any K X c anchor r w = (Ok (), w')"
    by (cases "append_any K X c anchor r w"; cases "fst (append_any K X c anchor r w)") auto
  show "name_fits 1024 anchor \<and> is_ok (appended_rule X r)"
    using append_fits [OF run] append_any_appends [OF run] by (auto simp: is_appended_def)
next
  assume "name_fits 1024 anchor \<and> is_ok (appended_rule X r)"
  then obtain p where "name_fits 1024 anchor" "appended_rule X r = Ok p" by (cases "appended_rule X r") auto
  from succeedsD [OF append_any_succeeds [OF assms this]] show "is_ok (fst (append_any K X c anchor r w))"
    by (metis fst_conv is_ok.simps(1))
qed

section \<open>The examples succeed\<close>

lemma succeeds_commit:
  assumes "obliging K" and "documented_ipnetwork X" and "list_all change_ok (plan order t)"
  shows "succeeds (commit K X order t)"
  using commit_Ok_iff [OF assms(1,2)] assms(3) unfolding succeeds_def by (metis prod.collapse)

lemma succeeds_flush:
  assumes "obliging K" and "documented_ipnetwork X" and "name_fits 1024 anchor"
  shows "succeeds (flush_rules K X anchor k)"
proof -
  obtain t where t: "\<forall>w. flush_rules K X anchor k w = commit K X [anchor] t w" "plan [anchor] t = [(k, anchor, [])]"
    using flush_commits by blast
  have "succeeds (commit K X [anchor] t)"
    using assms by (intro succeeds_commit) (simp_all add: t(2) change_ok_def)
  then show ?thesis using t(1) by (simp add: succeeds_def)
qed

lemma succeeds_set_rules:
  assumes "obliging K" and "documented_ipnetwork X"
    and "\<forall>k rs. requested k change = Some rs \<longrightarrow> name_fits 1024 anchor \<and> list_all any_rule_ok rs"
  shows "succeeds (set_rules K X anchor change)"
proof -
  have "list_all change_ok (plan [anchor] (add_change anchor change transaction_new))"
    using assms(3) by (fastforce simp: list_all_iff change_ok_def in_plan_iff add_change_def transaction_new_def)
  from succeeds_commit [OF assms(1,2) this] show ?thesis by (simp add: set_rules_def)
qed

lemma succeeds_add_anchor: "obliging K \<Longrightarrow> name_fits 1024 name \<Longrightarrow> succeeds (add_anchor K X c name k)"
  by (auto simp: add_anchor_def Let_def pfioc_rule_zeroed_def copy_anchor_name_zeros pf_insert_rule_def
      intro!: succeeds_intros)

lemma succeeds_ignoring: "succeeds m \<Longrightarrow> succeeds (ignoring m k)"
  unfolding succeeds_def
proof
  fix w assume "\<forall>w. \<exists>x w'. m w = (Ok x, w')"
  then obtain x w' where "m w = (Ok x, w')" by blast
  then show "\<exists>x w'. ignoring m k w = (Ok x, w')" by (simp add: ignoring_def)
qed

lemma succeeds_try_add_anchor: "obliging K \<Longrightarrow> name_fits 1024 name \<Longrightarrow> succeeds (try_add_anchor K X c name k)"
  by (simp add: try_add_anchor_def succeeds_ignoring succeeds_add_anchor)

lemma succeeds_pfctl_new: "obliging K \<Longrightarrow> succeeds (pfctl_new K)"
  by (auto simp: pfctl_new_def intro!: succeeds_intros)

lemma trans_change_requested:
  assumes "requested k (trans_change r1 r2 r3 r4) = Some rs"
  shows "rs = (case k of RulesetKind_Filter \<Rightarrow> [AnyFilter r1, AnyFilter r2] | RulesetKind_Redirect \<Rightarrow> [AnyRedirect r3]
    | RulesetKind_Scrub \<Rightarrow> [AnyScrub r4] | RulesetKind_Nat \<Rightarrow> rs)" and "k \<noteq> RulesetKind_Nat"
  using assms by (cases k; simp add: trans_change_def set_filter_rules_def set_redirect_rules_def
      set_scrub_rules_def anchor_change_new_def)+

text \<open>The rules with addresses are well formed.\<close>

lemmas example_ok_defs =
  filter_rule_ok_def redirect_rule_ok_def state_policy_ok_def name_fits_def endpoint_get_af_def get_route_def
  resolves_to_def trans_rule3_def get_redirect_to_def redirect_rule_get_af_def compatible_af.simps example_rule_defs

lemma trans_rules_ok:
  assumes "documented_ipnetwork X" and "trans_rule1 X = Ok r1" and "trans_rule2 X = Ok r2"
  shows "any_rule_ok (AnyFilter r1)" "any_rule_ok (AnyFilter r2)" "any_rule_ok (AnyRedirect trans_rule3)"
proof -
  note r = trans_rules_built [OF assms(1), unfolded assms(2,3) outcome.inject]
  show "any_rule_ok (AnyFilter r1)" by (simp only: r(1)) (auto simp: example_ok_defs)
  show "any_rule_ok (AnyFilter r2)" by (simp only: r(2)) (auto simp: example_ok_defs)
  show "any_rule_ok (AnyRedirect trans_rule3)" by (auto simp: example_ok_defs)
qed

lemma add_rules_ok:
  assumes "documented_ipnetwork X" and "ipv4network_new X 0x0A000000 8 = Some (a, m)"
    and "block_a_private_net_rule X = Ok b" and "redirect_incoming_tcp_from_port_3000_to_4000 X = Ok r"
  shows "filter_rule_ok b" "any_rule_ok (AnyRedirect r)"
proof -
  note r = add_rules_built [OF assms(1,2), unfolded assms(3,4) outcome.inject]
  show "filter_rule_ok b" by (simp only: r(1)) (auto simp: example_ok_defs)
  show "any_rule_ok (AnyRedirect r)" by (simp only: r(2)) (auto simp: example_ok_defs)
qed

lemma succeeds_appends:
  assumes "obliging K" and "documented_ipnetwork X" and "name_fits 1024 anchor"
  shows "filter_rule_ok f \<Longrightarrow> succeeds (add_rule K X c anchor f)"
    and "any_rule_ok (AnyRedirect r) \<Longrightarrow> succeeds (add_redirect_rule_now K X c anchor r)"
    and "succeeds (add_scrub_rule_now K X c anchor s)"
proof -
  have "\<exists>p. filter_rule_copy_to X f pf_rule_zeroed = Ok p" if "filter_rule_ok f"
    using that filter_rule_copy_ok [OF assms(2), of pf_rule_zeroed f] by auto
  then show "filter_rule_ok f \<Longrightarrow> succeeds (add_rule K X c anchor f)"
    using append_any_succeeds [OF assms, of "AnyFilter f"] by fastforce
  show "any_rule_ok (AnyRedirect r) \<Longrightarrow> succeeds (add_redirect_rule_now K X c anchor r)"
    using append_any_succeeds [OF assms, of "AnyRedirect r"] install_any_ok [OF assms(2), of "AnyRedirect r"] by fastforce
  show "succeeds (add_scrub_rule_now K X c anchor s)"
    using append_any_succeeds [OF assms, of "AnyScrub s"] by (simp add: install_scrub_def scrub_rule_copy_to_def)
qed

lemma succeeds_enable_main:
  assumes "obliging K"
  shows "succeeds (enable_main K X)"
proof -
  have e: "succeeds (enable K X c)" for c
    using assms by (auto simp: enable_def pf_start_def intro!: succeeds_intros)
  have "succeeds (\<lambda>w. case enable K X c w of (Ok _, w') \<Rightarrow> (Ok (), w')
       | (Err e, w') \<Rightarrow> (if kind e = Kind_StateAlreadyActive then Ok () else Panic, w')
       | (Panic, w') \<Rightarrow> (Panic, w'))" for c
    unfolding succeeds_def
  proof
    fix w
    obtain w' where "enable K X c w = (Ok (), w')" using succeedsD [OF e] by auto
    then show "\<exists>x w'. (case enable K X c w of (Ok _, w') \<Rightarrow> (Ok (), w')
       | (Err e, w') \<Rightarrow> (if kind e = Kind_StateAlreadyActive then Ok () else Panic, w')
       | (Panic, w') \<Rightarrow> (Panic, w')) = (Ok x, w')" by simp
  qed
  then show ?thesis unfolding enable_main_def by (intro succeeds_intros succeeds_pfctl_new assms)
qed

lemma succeeds_transaction_main:
  assumes K: "obliging K" and X: "documented_ipnetwork X"
  shows "succeeds (transaction_main K X)"
proof -
  obtain r1 r2 where r: "trans_rule1 X = Ok r1" "trans_rule2 X = Ok r2"
    using trans_rules_built [OF X] by blast
  have "\<forall>k rs. requested k (trans_change r1 r2 trans_rule3 trans_rule4) = Some rs \<longrightarrow>
      name_fits 1024 ANCHOR_NAME \<and> list_all any_rule_ok rs"
  proof (intro allI impI conjI anchor_name_fits)
    fix k rs assume "requested k (trans_change r1 r2 trans_rule3 trans_rule4) = Some rs"
    from trans_change_requested [OF this] show "list_all any_rule_ok rs"
      using trans_rules_ok [OF X r] by (cases k) (simp_all del: any_rule_ok.simps, simp)
  qed
  then show ?thesis
    unfolding transaction_main_def r io_lift_Ok io_bind_return
    by (intro succeeds_intros succeeds_pfctl_new succeeds_try_add_anchor succeeds_set_rules K X anchor_name_fits)
qed

lemma succeeds_add_rules_main:
  assumes K: "obliging K" and X: "documented_ipnetwork X" and n: "ipv4network_new X 0x0A000000 8 = Some (a, m)"
  shows "succeeds (add_rules_main K X)"
proof -
  obtain b r where r: "block_a_private_net_rule X = Ok b" "redirect_incoming_tcp_from_port_3000_to_4000 X = Ok r"
    using add_rules_built [OF X n] by blast
  note ok = add_rules_ok [OF X n r] pass_rules_ok
  show ?thesis
    unfolding add_rules_main_def r io_lift_Ok io_bind_return
    by (intro succeeds_intros succeeds_pfctl_new succeeds_try_add_anchor succeeds_appends K X anchor_name_fits)
      (use ok in blast)+
qed

section \<open>Flushing\<close>

text \<open>The rulesets of a set are empty, or some of them after a failure; all others are the same.\<close>

definition emptied :: "ruleset set \<Rightarrow> 'a result \<Rightarrow> (ruleset \<Rightarrow> entry list) \<Rightarrow> (ruleset \<Rightarrow> entry list) \<Rightarrow> bool" where
  "emptied S q act act' \<longleftrightarrow>
     (\<forall>s. s \<notin> S \<longrightarrow> act' s = act s) \<and> (\<forall>s \<in> S. act' s = [] \<or> \<not> is_ok q \<and> act' s = act s)"

lemma emptied_failed: "emptied S (Err e) act act" "emptied S Panic act act"
  by (simp_all add: emptied_def)

lemma emptied_bind:
  assumes m: "leads f (emptied S) m" and g: "\<And>x. leads f (emptied T) (g x)"
  shows "leads f (emptied (S \<union> T)) (io_bind m g)"
  unfolding leads_def
proof (intro allI impI)
  fix w q w'
  assume run: "io_bind m g w = (q, w')"
  obtain p w1 where one: "m w = (p, w1)" by fastforce
  note e = leadsD [OF m one]
  show "emptied (S \<union> T) q (f (w_kernel w)) (f (w_kernel w'))"
  proof (cases p)
    case (Ok x)
    then have two: "g x w1 = (q, w')" using run one by (simp add: io_bind_def)
    show ?thesis using e leadsD [OF g two] Ok unfolding emptied_def by (metis UnE UnI1 UnI2 is_ok.simps(1))
  qed (use run one e in \<open>auto simp: io_bind_def emptied_def\<close>)
qed

lemma emptied_return: "leads f (emptied {}) (io_return x)"
  by (simp add: leads_def io_return_def emptied_def)

lemma emptied_for:
  "(\<And>x. leads f (emptied (S x)) (g x)) \<Longrightarrow> leads f (emptied (\<Union>x \<in> set xs. S x)) (io_for xs g)"
  by (induction xs) (simp_all add: emptied_return emptied_bind)

lemma flush_emptied:
  assumes "documented_pf K V"
  shows "leads (pv_active V) (emptied {slot k anchor}) (io_expect (flush_rules K X anchor k))"
  unfolding leads_def
proof (intro allI impI)
  fix w q w'
  assume "io_expect (flush_rules K X anchor k) w = (q, w')"
  then obtain p where "flush_rules K X anchor k w = (p, w')" "q = expected p"
    by (cases "flush_rules K X anchor k w") (auto simp: io_expect_def)
  then show "emptied {slot k anchor} q (pv_active V (w_kernel w)) (pv_active V (w_kernel w'))"
    using flush_active [OF assms, of X anchor k w p w'] by (cases p) (auto simp: emptied_def)
qed

lemma keeps_pfctl_new: "documented_pf K V \<Longrightarrow> keeps (pv_active V) (pfctl_new K)"
  unfolding pfctl_new_def by (intro keeps_intros keeps_rules_active keeps_open)

lemma all_slots: "range (\<lambda>k. slot k a) = {slot RulesetKind_Filter a} \<union> ({slot RulesetKind_Nat a} \<union>
    ({slot RulesetKind_Redirect a} \<union> {slot RulesetKind_Scrub a}))"
  by (auto simp: image_def) (metis ruleset_kind.exhaust)

lemma flush_main_emptied:
  assumes D: "documented_pf K V"
  shows "leads (pv_active V) (emptied (\<Union>a \<in> set args. range (\<lambda>k. slot k a))) (flush_rules_main K X args)"
  unfolding flush_rules_main_def all_slots
  by (intro leads_bind emptied_failed keeps_expect keeps_pfctl_new D emptied_for emptied_bind flush_emptied)

section \<open>One transaction\<close>

lemma set_rules_changes:
  assumes D: "documented_pf K V" and run: "set_rules K X anchor change w = (q, w')"
  shows "if q = Ok () then
      (\<forall>k rs. requested k change = Some rs \<longrightarrow> map (any_entry X) rs = map Ok (pv_active V (w_kernel w') (slot k anchor))) \<and>
      (\<forall>s. (\<forall>k. requested k change \<noteq> None \<longrightarrow> s \<noteq> slot k anchor) \<longrightarrow> pv_active V (w_kernel w') s = pv_active V (w_kernel w) s)
    else pv_active V (w_kernel w') = pv_active V (w_kernel w)"
proof -
  let ?t = "add_change anchor change transaction_new"
  have m: "(k, a, rs) \<in> set (plan [anchor] ?t) \<longleftrightarrow> a = anchor \<and> requested k change = Some rs" for k a rs
    by (auto simp: in_plan_iff add_change_def transaction_new_def)
  have len: "length (plan [anchor] ?t) < 2 ^ 31" using length_plan_single [of anchor ?t] by simp
  have "if q = Ok () then replaced X (plan [anchor] ?t) (pv_active V (w_kernel w)) (pv_active V (w_kernel w'))
      else pv_active V (w_kernel w') = pv_active V (w_kernel w)"
    using run by (intro commit_effect [OF D _ len]) (simp_all add: set_rules_def)
  moreover have "s \<notin> change_slot ` set (plan [anchor] ?t)" if "\<forall>k. requested k change \<noteq> None \<longrightarrow> s \<noteq> slot k anchor" for s
    using that by (auto simp: m image_iff) blast
  moreover have "(k, anchor, rs) \<in> set (plan [anchor] ?t)" if "requested k change = Some rs" for k rs
    using that by (simp add: m)
  ultimately show ?thesis unfolding replaced_def by (cases "q = Ok ()") (simp, blast, simp)
qed

definition transacted ::
  "externals \<Rightarrow> filter_rule list \<Rightarrow> redirect_rule list \<Rightarrow> scrub_rule list \<Rightarrow>
   unit result \<Rightarrow> (ruleset \<Rightarrow> entry list) \<Rightarrow> (ruleset \<Rightarrow> entry list) \<Rightarrow> bool" where
  "transacted X fs rs ss q act act' \<longleftrightarrow>
     (if q = Ok () then \<exists>es ds cs. map (any_entry X) (map AnyFilter fs) = map Ok es \<and>
        map (any_entry X) (map AnyRedirect rs) = map Ok ds \<and> map (any_entry X) (map AnyScrub ss) = map Ok cs \<and>
        act' = act(slot RulesetKind_Filter ANCHOR_NAME := es, slot RulesetKind_Redirect ANCHOR_NAME := ds,
          slot RulesetKind_Scrub ANCHOR_NAME := cs)
      else act' = act)"

lemma transacted_failed: "transacted X fs rs ss (Err e) act act" "transacted X fs rs ss Panic act act"
  by (simp_all add: transacted_def)

lemma anchor_slot_below: "snd (slot k ANCHOR_NAME) \<noteq> main_path"
  using anchor_name_fits(1) by (rule slot_below_main) (simp add: ANCHOR_NAME_def)

lemma below_main_replace:
  assumes "\<forall>s. s \<notin> S \<longrightarrow> act' s = act s" and "\<forall>s \<in> S. snd s \<noteq> main_path"
  shows "below_main act' = (\<lambda>s. if s \<in> S then act' s else below_main act s)"
  using assms by (auto simp: below_main_def fun_eq_iff)

lemma set_rules_transacted:
  fixes K :: "'a kernel"
  assumes D: "documented_pf K V"
  shows "leads (\<lambda>k. below_main (pv_active V k)) (transacted X [r1, r2] [r3] [r4])
    (io_expect (set_rules K X ANCHOR_NAME (trans_change r1 r2 r3 r4)))"
  unfolding leads_def
proof (intro allI impI)
  fix w w' :: "'a world" and q
  let ?c = "trans_change r1 r2 r3 r4"
  let ?act = "pv_active V (w_kernel w)" and ?act' = "pv_active V (w_kernel w')"
  assume "io_expect (set_rules K X ANCHOR_NAME ?c) w = (q, w')"
  then obtain p where run: "set_rules K X ANCHOR_NAME ?c w = (p, w')" and q: "q = expected p"
    by (cases "set_rules K X ANCHOR_NAME ?c w") (auto simp: io_expect_def)
  have req: "requested RulesetKind_Filter ?c = Some [AnyFilter r1, AnyFilter r2]"
    "requested RulesetKind_Redirect ?c = Some [AnyRedirect r3]" "requested RulesetKind_Scrub ?c = Some [AnyScrub r4]"
    by (simp_all add: trans_change_def set_filter_rules_def set_redirect_rules_def set_scrub_rules_def anchor_change_new_def)
  show "transacted X [r1, r2] [r3] [r4] q (below_main ?act) (below_main ?act')"
  proof (cases "p = Ok ()")
    case True
    let ?S = "{slot RulesetKind_Filter ANCHOR_NAME, slot RulesetKind_Redirect ANCHOR_NAME, slot RulesetKind_Scrub ANCHOR_NAME}"
    note e = set_rules_changes [OF D run, unfolded if_P [OF True]]
    have "\<forall>s. s \<notin> ?S \<longrightarrow> ?act' s = ?act s"
    proof (intro allI impI)
      fix s assume "s \<notin> ?S"
      then have "s \<noteq> slot k ANCHOR_NAME" if "requested k ?c \<noteq> None" for k
      proof -
        have "k \<noteq> RulesetKind_Nat" using that trans_change_requested(2) by blast
        then show ?thesis using \<open>s \<notin> ?S\<close> by (cases k) simp_all
      qed
      then show "?act' s = ?act s" using e by blast
    qed
    then have "below_main ?act' = (\<lambda>s. if s \<in> ?S then ?act' s else below_main ?act s)"
      by (rule below_main_replace) (simp add: anchor_slot_below)
    then have after: "below_main ?act' = (below_main ?act)(slot RulesetKind_Filter ANCHOR_NAME := ?act' (slot RulesetKind_Filter ANCHOR_NAME),
        slot RulesetKind_Redirect ANCHOR_NAME := ?act' (slot RulesetKind_Redirect ANCHOR_NAME),
        slot RulesetKind_Scrub ANCHOR_NAME := ?act' (slot RulesetKind_Scrub ANCHOR_NAME))"
      by auto
    have "map (any_entry X) rs = map Ok (?act' (slot k ANCHOR_NAME))" if "requested k ?c = Some rs" for k rs
      using e that by blast
    from req [THEN this] show ?thesis
      unfolding transacted_def q True expected.simps using after by auto
  next
    case False
    then show ?thesis
      using set_rules_changes [OF D run, unfolded if_not_P [OF False]] q by (cases p) (simp_all add: transacted_def)
  qed
qed

lemma keeps_below: "keeps (pv_active V) m \<Longrightarrow> keeps (\<lambda>k. below_main (pv_active V k)) m"
  by (simp add: keeps_def)

lemma transaction_main_transacted:
  assumes "documented_pf K V" and "documented_others K V"
    and r: "trans_rule1 X = Ok r1" "trans_rule2 X = Ok r2"
  shows "leads (\<lambda>k. below_main (pv_active V k)) (transacted X [r1, r2] [trans_rule3] [trans_rule4]) (transaction_main K X)"
  unfolding transaction_main_def r io_lift_Ok io_bind_return
  by (intro leads_bind transacted_failed keeps_expect keeps_below keeps_pfctl_new assms(1)
      anchor_operations_keep(3) [OF assms(2)] set_rules_transacted)

section \<open>One rule after the other\<close>

text \<open>The rulesets after the first so many of some rules were appended, each at the end of its own.\<close>

definition append_all :: "rstring \<Rightarrow> (any_rule \<times> entry) list \<Rightarrow> (ruleset \<Rightarrow> entry list) \<Rightarrow> ruleset \<Rightarrow> entry list" where
  "append_all anchor res = fold (\<lambda>(r, e). appended_at (slot (any_kind r) anchor) e) res"

definition appended_some ::
  "externals \<Rightarrow> rstring \<Rightarrow> any_rule list \<Rightarrow> unit result \<Rightarrow> (ruleset \<Rightarrow> entry list) \<Rightarrow> (ruleset \<Rightarrow> entry list) \<Rightarrow> bool" where
  "appended_some X anchor rs q act act' \<longleftrightarrow>
     (\<exists>n es. n \<le> length rs \<and> (is_ok q \<longrightarrow> n = length rs) \<and> map (appended_entry X) (take n rs) = map Ok es \<and>
        act' = append_all anchor (zip (take n rs) es) act)"

lemma appended_none: "appended_some X anchor rs (Err e) act act" "appended_some X anchor rs Panic act act"
  by (auto simp: appended_some_def append_all_def intro!: exI [of _ 0])

lemma append_expected:
  assumes D: "documented_pf K V" and g: "leads (pv_active V) (appended_some X anchor rs) g"
  shows "leads (pv_active V) (appended_some X anchor (r # rs)) (io_bind (io_expect (append_any K X c anchor r)) (\<lambda>_. g))"
  unfolding leads_def
proof (intro allI impI)
  fix w q w'
  assume run: "io_bind (io_expect (append_any K X c anchor r)) (\<lambda>_. g) w = (q, w')"
  obtain p w1 where one: "append_any K X c anchor r w = (p, w1)" by fastforce
  show "appended_some X anchor (r # rs) q (pv_active V (w_kernel w)) (pv_active V (w_kernel w'))"
  proof (cases p)
    case (Ok u)
    then have two: "g w1 = (q, w')" using run one by (simp add: io_bind_def io_expect_def)
    obtain e where e: "appended_entry X r = Ok e"
      "pv_active V (w_kernel w1) = appended_at (slot (any_kind r) anchor) e (pv_active V (w_kernel w))"
      using append_Ok [OF D, of X c anchor r w w1] one Ok by auto
    obtain n es where "n \<le> length rs" "is_ok q \<longrightarrow> n = length rs" "map (appended_entry X) (take n rs) = map Ok es"
      "pv_active V (w_kernel w') = append_all anchor (zip (take n rs) es) (pv_active V (w_kernel w1))"
      using leadsD [OF g two] unfolding appended_some_def by blast
    then show ?thesis
      using e by (auto simp: appended_some_def append_all_def intro!: exI [of _ "Suc n"] exI [of _ "e # es"])
  next
    case (Err x)
    then have "w' = w1" "q = Panic" using run one by (auto simp: io_bind_def io_expect_def)
    then show ?thesis using fails_safeD [OF append_fails_safe [OF D] one] Err appended_none(2) by simp
  next
    case Panic
    then have "w' = w1" "q = Panic" using run one by (auto simp: io_bind_def io_expect_def)
    then show ?thesis using fails_safeD [OF append_fails_safe [OF D] one] Panic appended_none(2) by simp
  qed
qed

lemma append_last:
  assumes "documented_pf K V"
  shows "leads (pv_active V) (appended_some X anchor [r]) (io_expect (append_any K X c anchor r))"
proof -
  have "leads (pv_active V) (appended_some X anchor []) (io_return ())"
    by (simp add: leads_def io_return_def appended_some_def append_all_def)
  from append_expected [OF assms this, of r c] show ?thesis by simp
qed

text \<open>The rules of \<open>add_rules.rs\<close> in the order in which they are added.\<close>

definition added_rules :: "filter_rule \<Rightarrow> redirect_rule \<Rightarrow> any_rule list" where
  "added_rules block_rule redirect_rule =
     [AnyFilter pass_all_rule, AnyFilter pass_all_ipv4_quick_rule, AnyFilter pass_all_ipv6_on_utun0_rule,
      AnyFilter block_rule, AnyFilter pass_all_icmp_echo_req, AnyFilter pass_all_icmp_port_unreach,
      AnyFilter pass_all_icmp_timex_transit, AnyFilter pass_all_icmp_timex_reassembly,
      AnyRedirect redirect_rule, AnyScrub example_scrub_rule]"

lemma append_all_below:
  assumes "name_fits 1024 a" and "a \<noteq> []"
  shows "below_main (append_all a res act) = append_all a res (below_main act)"
proof (induction res arbitrary: act)
  case (Cons x res)
  obtain r e where x: "x = (r, e)" by (cases x)
  have "below_main (appended_at (slot k a) e act) = appended_at (slot k a) e (below_main act)" for k
    using slot_below_main [OF assms, of k] by (auto simp: below_main_def appended_at_def fun_eq_iff) (metis snd_conv)
  then show ?case using Cons by (simp add: append_all_def x)
qed (simp add: append_all_def)

lemma appended_below:
  assumes "leads (pv_active V) (appended_some X ANCHOR_NAME rs) m"
  shows "leads (\<lambda>k. below_main (pv_active V k)) (appended_some X ANCHOR_NAME rs) m"
proof -
  have n: "ANCHOR_NAME \<noteq> []" by (simp add: ANCHOR_NAME_def)
  have "appended_some X ANCHOR_NAME rs q (below_main act) (below_main act')"
    if "appended_some X ANCHOR_NAME rs q act act'" for q act act'
    using that append_all_below [OF anchor_name_fits(1) n] unfolding appended_some_def by metis
  then show ?thesis using assms by (simp add: leads_def)
qed

lemma add_rules_main_appends:
  assumes D: "documented_pf K V" and O: "documented_others K V"
    and r: "block_a_private_net_rule X = Ok b" "redirect_incoming_tcp_from_port_3000_to_4000 X = Ok r"
  shows "leads (\<lambda>k. below_main (pv_active V k)) (appended_some X ANCHOR_NAME (added_rules b r)) (add_rules_main K X)"
proof -
  note step = append_expected [OF D, of X ANCHOR_NAME _ _ "AnyFilter f" for f, unfolded append_any.simps]
    append_expected [OF D, of X ANCHOR_NAME _ _ "AnyRedirect f" for f, unfolded append_any.simps]
    append_last [OF D, of X ANCHOR_NAME "AnyScrub s" for s, unfolded append_any.simps]
  show ?thesis
    unfolding add_rules_main_def r io_lift_Ok io_bind_return added_rules_def
    by (rule leads_bind appended_none keeps_expect keeps_below keeps_pfctl_new D anchor_operations_keep(3) [OF O]
        appended_below step)+
qed

section \<open>Properties\<close>

text \<open>
  C19. The programs of \<open>examples/\<close> succeed: on a kernel that refuses no call, no \<open>expect\<close> and no
  \<open>unwrap\<close> of them panics, for any names that fit a buffer; in particular every rule that they
  build can be written into the kernel's struct.
\<close>

theorem examples_succeed:
  assumes "obliging K" and "documented_ipnetwork X" and "ipv4network_new X (ipv4addr_new 10 0 0 0) 8 = Some net"
    and "list_all (name_fits 1024) args"
  shows "is_ok (fst (enable_main K X w)) \<and> is_ok (fst (add_anchor_main K X args w)) \<and>
    is_ok (fst (flush_rules_main K X args w)) \<and> is_ok (fst (transaction_main K X w)) \<and>
    is_ok (fst (add_rules_main K X w))"
proof -
  have ok: "is_ok (fst (m w))" if "succeeds m" for m :: "('a, unit) io"
    using succeedsD [OF that, of w] by auto
  have fits: "name_fits 1024 a" if "a \<in> set args" for a using that assms(4) by (simp add: list_all_iff)
  have net: "ipv4network_new X 0x0A000000 8 = Some (fst net, snd net)"
    using assms(3) by (simp add: ipv4addr_new_def)
  have "succeeds (add_anchor_main K X args)"
    unfolding add_anchor_main_def
    by (intro succeeds_intros succeeds_pfctl_new succeeds_try_add_anchor assms(1) fits)
  moreover have "succeeds (flush_rules_main K X args)"
    unfolding flush_rules_main_def
    by (intro succeeds_intros succeeds_pfctl_new succeeds_flush assms(1,2) fits)
  ultimately show ?thesis
    using ok succeeds_enable_main [OF assms(1), of X] succeeds_transaction_main [OF assms(1,2)]
      succeeds_add_rules_main [OF assms(1,2) net] by blast
qed

lemma macos_private_net: "ipv4network_new macos (ipv4addr_new 10 0 0 0) 8 = Some (0x0A000000, push_bit 24 (- 1))"
  by (simp add: macos_def ipv4addr_new_def)

lemma examples_succeed_witness:
  "is_ok (fst (flush_rules_main granting macos [[97]] fresh_world)) \<and>
   is_ok (fst (transaction_main granting macos fresh_world)) \<and> is_ok (fst (add_rules_main granting macos fresh_world))"
  using examples_succeed [OF granting_obliging macos_ipnetwork macos_private_net, of "[[97]]" fresh_world]
  by (simp add: name_fits_def)

text \<open>
  C20. The program \<open>flush_rules\<close>: on a kernel that behaves as documented, after a success all four
  rulesets of every anchor among its arguments are empty; after a panic each of them is empty or
  as it was. Other rulesets never change.
\<close>

theorem flush_example_empties:
  assumes "documented_pf K V" and "flush_rules_main K X args w = (q, w')"
  shows "(\<forall>s. (\<forall>a \<in> set args. \<forall>k. s \<noteq> slot k a) \<longrightarrow> pv_active V (w_kernel w') s = pv_active V (w_kernel w) s) \<and>
    (\<forall>a \<in> set args. \<forall>k. pv_active V (w_kernel w') (slot k a) = [] \<or>
       \<not> is_ok q \<and> pv_active V (w_kernel w') (slot k a) = pv_active V (w_kernel w) (slot k a))"
  using leadsD [OF flush_main_emptied [OF assms(1)] assms(2)] unfolding emptied_def by blast

lemma flush_example_empties_witness:
  "case flush_rules_main pf_machine macos [[97]] machine_world of (q, w') \<Rightarrow>
     (is_ok q \<longrightarrow> (\<forall>k. pm_active (w_kernel w') (slot k [97]) = [])) \<and>
     pm_active (w_kernel w') (slot RulesetKind_Nat [98]) = [(pf_rule_zeroed, [])]"
proof -
  obtain q w' where run: "flush_rules_main pf_machine macos [[97]] machine_world = (q, w')" by fastforce
  have "name_fits 1024 [97 :: u8]" "name_fits 1024 [98 :: u8]" by (simp_all add: name_fits_def)
  then have other: "slot RulesetKind_Nat [98] \<noteq> slot k [97]" for k using slot_inject [of "[98]" "[97]"] by simp
  note e = flush_example_empties [OF machine_documented run, unfolded machine_sel]
  have "pm_active (w_kernel w') (slot RulesetKind_Nat [98]) = [(pf_rule_zeroed, [])]"
    using other by (intro e [THEN conjunct1, rule_format]) simp
  then show ?thesis using e [THEN conjunct2] unfolding run by auto
qed

text \<open>
  C10. The program \<open>transaction\<close> is all or nothing: on a kernel that behaves as documented, after a
  success the filter, redirect and scrub rulesets of its anchor hold exactly the four rules that it
  builds, in order, and every other ruleset below the main one is as before; whatever fails, all of
  them are as before.
\<close>

theorem transaction_example_all_or_nothing:
  assumes "documented_pf K V" and "documented_others K V"
    and "trans_rule1 X = Ok r1" and "trans_rule2 X = Ok r2" and "transaction_main K X w = (q, w')"
  shows "if q = Ok () then \<exists>es ds cs. map (any_entry X) [AnyFilter r1, AnyFilter r2] = map Ok es \<and>
      map (any_entry X) [AnyRedirect trans_rule3] = map Ok ds \<and> map (any_entry X) [AnyScrub trans_rule4] = map Ok cs \<and>
      below_main (pv_active V (w_kernel w')) = (below_main (pv_active V (w_kernel w)))
        (slot RulesetKind_Filter ANCHOR_NAME := es, slot RulesetKind_Redirect ANCHOR_NAME := ds,
         slot RulesetKind_Scrub ANCHOR_NAME := cs)
    else below_main (pv_active V (w_kernel w')) = below_main (pv_active V (w_kernel w))"
  using leadsD [OF transaction_main_transacted [OF assms(1-4)] assms(5)]
  unfolding transacted_def list.map .

lemma transaction_example_all_or_nothing_witness:
  "case transaction_main pf_machine macos machine_world of (q, w') \<Rightarrow>
     pm_active (w_kernel w') (slot RulesetKind_Nat ANCHOR_NAME) = [(pf_rule_zeroed, [])]"
proof -
  obtain q w' where run: "transaction_main pf_machine macos machine_world = (q, w')" by fastforce
  let ?s = "slot RulesetKind_Nat ANCHOR_NAME"
  have other: "?s \<noteq> slot RulesetKind_Filter ANCHOR_NAME" "?s \<noteq> slot RulesetKind_Redirect ANCHOR_NAME"
    "?s \<noteq> slot RulesetKind_Scrub ANCHOR_NAME"
    using slot_inject [OF anchor_name_fits(1) anchor_name_fits(1)] by simp_all
  have "below_main (pm_active (w_kernel w')) ?s = below_main (\<lambda>_. [(pf_rule_zeroed, [])]) ?s"
    using transaction_example_all_or_nothing [OF machine_documented machine_others
      trans_rules_built [OF macos_ipnetwork] run, unfolded machine_sel] other
    by (cases "q = Ok ()") (auto simp del: any_entry_eq)
  then show ?thesis using anchor_slot_below [of RulesetKind_Nat] by (simp add: run below_main_def)
qed

text \<open>
  C21. The program \<open>add_rules\<close> is not: on a kernel that behaves as documented, below the main ruleset
  it only ever appends a first part of its ten rules, each at the end of the ruleset of its kind in
  its anchor, and all of them when it succeeds.
\<close>

theorem add_rules_example_appends:
  assumes "documented_pf K V" and "documented_others K V" and "block_a_private_net_rule X = Ok b"
    and "redirect_incoming_tcp_from_port_3000_to_4000 X = Ok r" and "add_rules_main K X w = (q, w')"
  shows "\<exists>n es. n \<le> 10 \<and> (is_ok q \<longrightarrow> n = 10) \<and>
    map (appended_entry X) (take n (added_rules b r)) = map Ok es \<and>
    below_main (pv_active V (w_kernel w')) =
      append_all ANCHOR_NAME (zip (take n (added_rules b r)) es) (below_main (pv_active V (w_kernel w)))"
proof -
  have "length (added_rules b r) = 10" by (simp add: added_rules_def)
  then show ?thesis
    using leadsD [OF add_rules_main_appends [OF assms(1-4)] assms(5)] unfolding appended_some_def by metis
qed

lemma add_rules_example_appends_witness:
  "case add_rules_main pf_machine macos machine_world of (q, w') \<Rightarrow>
     \<exists>n es r b. n \<le> 10 \<and> (is_ok q \<longrightarrow> n = 10) \<and>
       below_main (pm_active (w_kernel w')) =
         append_all ANCHOR_NAME (zip (take n (added_rules b r)) es) (below_main (\<lambda>_. [(pf_rule_zeroed, [])]))"
proof -
  obtain q w' where run: "add_rules_main pf_machine macos machine_world = (q, w')" by fastforce
  have net: "ipv4network_new macos 0x0A000000 8 = Some (0x0A000000, push_bit 24 (- 1))"
    using macos_private_net by (simp add: ipv4addr_new_def)
  show ?thesis
    using add_rules_example_appends [OF machine_documented machine_others
      add_rules_built [OF macos_ipnetwork net] run, unfolded machine_sel] unfolding run prod.case by blast
qed

end
