(* ===== verification/UnitTests.thy ===== *)
theory UnitTests
  imports Examples
begin

text \<open>
  The unit tests of the crate (\<open>rule/mod.rs\<close>, \<open>lib.rs\<close>, \<open>state.rs\<close>) as programs over the model: an
  assertion that fails and an \<open>unwrap\<close> of an error are panics. The last lemma says that they all
  pass, so that the model agrees with what the authors of the crate expect of it.
\<close>

definition asserts :: "bool \<Rightarrow> unit result" where
  "asserts b = (if b then Ok () else Panic)"

definition asserts_eq :: "'a \<Rightarrow> 'a \<Rightarrow> unit result" where
  "asserts_eq a b = asserts (a = b)"

text \<open>\<open>assert_eq!(x, r.unwrap())\<close> and \<open>assert!(r.is_err())\<close>.\<close>

definition asserts_ok :: "'a \<Rightarrow> 'a result \<Rightarrow> unit result" where
  "asserts_ok x r = obind (expected r) (asserts_eq x)"

fun is_err :: "'a result \<Rightarrow> bool" where
  "is_err (Err e) = True"
| "is_err r = False"

section \<open>Filter rules\<close>

definition correct_af_default :: "unit result" where
  "correct_af_default = asserts_ok AddrFamily_Any (filter_rule_get_af pass_rule)"

definition af_incompatible_from_to :: "externals \<Rightarrow> unit result" where
  "af_incompatible_from_to X =
     obind (endpoint_from_ipv4 X 0) (\<lambda>from. obind (endpoint_from_ipv6 X 0) (\<lambda>to.
     let testee = pass_rule\<lparr>fr_from := from, fr_to := to\<rparr>; from4to6 = testee in
     obind (endpoint_from_ipv6 X 0) (\<lambda>from. obind (endpoint_from_ipv4 X 0) (\<lambda>to.
     let from6to4 = testee\<lparr>fr_from := from, fr_to := to\<rparr> in
     obind (asserts (is_err (filter_rule_get_af from4to6))) (\<lambda>_.
     asserts (is_err (filter_rule_get_af from6to4)))))))"

definition af_compatibility_ipv4 :: "externals \<Rightarrow> unit result" where
  "af_compatibility_ipv4 X =
     obind (endpoint_from_ipv4 X 0) (\<lambda>from.
     let testee = pass_rule\<lparr>fr_from := from\<rparr>; testee = testee\<lparr>fr_af := AddrFamily_Any\<rparr> in
     obind (asserts_ok AddrFamily_Ipv4 (filter_rule_get_af testee)) (\<lambda>_.
     let testee = testee\<lparr>fr_af := AddrFamily_Ipv4\<rparr> in
     obind (asserts_ok AddrFamily_Ipv4 (filter_rule_get_af testee)) (\<lambda>_.
     let testee = testee\<lparr>fr_af := AddrFamily_Ipv6\<rparr> in
     asserts (is_err (filter_rule_get_af testee)))))"

definition af_compatibility_ipv6 :: "externals \<Rightarrow> unit result" where
  "af_compatibility_ipv6 X =
     obind (endpoint_from_ipv6 X 0) (\<lambda>to.
     let testee = pass_rule\<lparr>fr_to := to\<rparr>; testee = testee\<lparr>fr_af := AddrFamily_Any\<rparr> in
     obind (asserts_ok AddrFamily_Ipv6 (filter_rule_get_af testee)) (\<lambda>_.
     let testee = testee\<lparr>fr_af := AddrFamily_Ipv6\<rparr> in
     obind (asserts_ok AddrFamily_Ipv6 (filter_rule_get_af testee)) (\<lambda>_.
     let testee = testee\<lparr>fr_af := AddrFamily_Ipv4\<rparr> in
     asserts (is_err (filter_rule_get_af testee)))))"

definition state_policy_correct_default :: "unit result" where
  "state_policy_correct_default = asserts_ok StatePolicy_None (validate_state_policy pass_rule)"

definition state_policy_none :: "unit result" where
  "state_policy_none = asserts_ok StatePolicy_None
     (validate_state_policy (pass_rule\<lparr>fr_keep_state := StatePolicy_None, fr_proto := Proto_Tcp\<rparr>))"

definition state_policy_keep :: "unit result" where
  "state_policy_keep = asserts_ok StatePolicy_Keep
     (validate_state_policy (pass_rule\<lparr>fr_keep_state := StatePolicy_Keep, fr_proto := Proto_Tcp\<rparr>))"

definition state_policy_modulate :: "unit result" where
  "state_policy_modulate = asserts_ok StatePolicy_Modulate
     (validate_state_policy (pass_rule\<lparr>fr_keep_state := StatePolicy_Modulate, fr_proto := Proto_Tcp\<rparr>))"

definition state_policy_incompatible_modulate :: "unit result" where
  "state_policy_incompatible_modulate = asserts (is_err
     (validate_state_policy (pass_rule\<lparr>fr_keep_state := StatePolicy_Modulate, fr_proto := Proto_Udp\<rparr>)))"

definition state_policy_synproxy :: "unit result" where
  "state_policy_synproxy = asserts_ok StatePolicy_SynProxy
     (validate_state_policy (pass_rule\<lparr>fr_keep_state := StatePolicy_SynProxy, fr_proto := Proto_Tcp\<rparr>))"

definition state_policy_incompatible_synproxy :: "unit result" where
  "state_policy_incompatible_synproxy = asserts (is_err
     (validate_state_policy (pass_rule\<lparr>fr_keep_state := StatePolicy_SynProxy, fr_proto := Proto_Udp\<rparr>)))"

section \<open>Comparing names\<close>

text \<open>The bytes of \<open>CString::new(s)\<close>, without and with the final NUL.\<close>

definition as_bytes :: "string \<Rightarrow> rstring" where
  "as_bytes s = map of_char s"

definition as_bytes_with_nul :: "string \<Rightarrow> i8 list" where
  "as_bytes_with_nul s = map of_char s @ [0]"

definition compare_cstr_without_nul :: "unit result" where
  "compare_cstr_without_nul =
     obind (compare_cstr_safe (as_bytes ''Hello'') (as_bytes ''Hello'')) (\<lambda>_. Ok ())"

definition compare_same_strings :: "unit result" where
  "compare_same_strings =
     obind (compare_cstr_safe (as_bytes ''Hello'') (as_bytes_with_nul ''Hello'')) asserts"

definition compare_different_strings :: "unit result" where
  "compare_different_strings =
     obind (compare_cstr_safe (as_bytes ''olleH'') (as_bytes_with_nul ''Hello'')) (\<lambda>b. asserts (\<not> b))"

definition compare_long_short_strings :: "unit result" where
  "compare_long_short_strings =
     obind (compare_cstr_safe (as_bytes ''short'') (as_bytes_with_nul ''veryverylong'')) (\<lambda>b. asserts (\<not> b))"

definition compare_short_long_strings :: "unit result" where
  "compare_short_long_strings =
     obind (compare_cstr_safe (as_bytes ''veryverylong'') (as_bytes_with_nul ''short'')) (\<lambda>b. asserts (\<not> b))"

section \<open>Reading addresses\<close>

definition test_parse_ipv4_address :: "unit result" where
  "test_parse_ipv4_address =
    (let expected_ip = ipv4addr_new 1 2 3 4; expected_port = 12345 :: u16;
         host = pfsync_state_host_zeroed;
         host = host\<lparr>h_addr := (h_addr host)\<lparr>pfa := overwrite (le_bytes (to_be expected_ip)) (pfa (h_addr host))\<rparr>\<rparr>;
         host = host\<lparr>h_xport := overwrite (le_bytes (to_be expected_port)) (h_xport host)\<rparr>
     in asserts_ok (SocketAddr (IpAddr_V4 expected_ip) expected_port)
          (parse_address (addr_family_to_u8 AddrFamily_Ipv4) host))"

text \<open>\<open>Ipv6Addr::new(1, 2, 3, 4, 5, 6, 7, 0x7f)\<close>\<close>

definition test_parse_ipv6_address :: "unit result" where
  "test_parse_ipv6_address =
    (let expected_ip = 0x0001000200030004000500060007007f; expected_port = 12345 :: u16;
         host = pfsync_state_host_zeroed;
         host = host\<lparr>h_addr := (h_addr host)\<lparr>pfa := overwrite (be_bytes expected_ip) (pfa (h_addr host))\<rparr>\<rparr>;
         host = host\<lparr>h_xport := overwrite (le_bytes (to_be expected_port)) (h_xport host)\<rparr>
     in asserts_ok (SocketAddr (IpAddr_V6 expected_ip) expected_port)
          (parse_address (addr_family_to_u8 AddrFamily_Ipv6) host))"

section \<open>They pass\<close>

lemmas assert_simps = asserts_def asserts_eq_def asserts_ok_def

lemma filter_rule_tests_pass:
  assumes "documented_ipnetwork X"
  shows "correct_af_default = Ok ()" "af_incompatible_from_to X = Ok ()"
    "af_compatibility_ipv4 X = Ok ()" "af_compatibility_ipv6 X = Ok ()"
proof -
  have hosts: "endpoint_from_ipv4 X 0 = Ok (endpoint_new (Ip_Net (IpNetwork_V4 0 (- 1))) Port_Any)"
    "endpoint_from_ipv6 X 0 = Ok (endpoint_new (Ip_Net (IpNetwork_V6 0 (- 1))) Port_Any)"
    using assms by (simp_all add: documented_ipnetwork_def endpoint_from_ipv4_def endpoint_from_ipv6_def
        ip_from_ipv4_def ip_from_ipv6_def endpoint_from_ip_def)
  show "correct_af_default = Ok ()" "af_incompatible_from_to X = Ok ()"
    "af_compatibility_ipv4 X = Ok ()" "af_compatibility_ipv6 X = Ok ()"
    by (simp_all add: correct_af_default_def af_incompatible_from_to_def af_compatibility_ipv4_def
        af_compatibility_ipv6_def hosts assert_simps filter_rule_get_af_def endpoint_get_af_def endpoint_new_def
        filter_rule_default_def compatible_af.simps)
qed

lemma state_policy_tests_pass:
  "list_all (\<lambda>r. r = Ok ()) [state_policy_correct_default, state_policy_none, state_policy_keep,
     state_policy_modulate, state_policy_incompatible_modulate, state_policy_synproxy,
     state_policy_incompatible_synproxy]"
  by (simp add: state_policy_correct_default_def state_policy_none_def state_policy_keep_def
      state_policy_modulate_def state_policy_incompatible_modulate_def state_policy_synproxy_def
      state_policy_incompatible_synproxy_def assert_simps validate_state_policy_def filter_rule_default_def)

lemma compare_tests_pass:
  "compare_cstr_without_nul = Panic"
  "list_all (\<lambda>r. r = Ok ()) [compare_same_strings, compare_different_strings,
     compare_long_short_strings, compare_short_long_strings]"
  by (simp_all add: compare_cstr_without_nul_def compare_same_strings_def compare_different_strings_def
      compare_long_short_strings_def compare_short_long_strings_def as_bytes_def as_bytes_with_nul_def
      compare_cstr_safe_def cstr_until_nul_def assert_simps)

lemma parse_tests_pass: "test_parse_ipv4_address = Ok ()" "test_parse_ipv6_address = Ok ()"
proof -
  let ?host = "\<lambda>bs p. (pfsync_state_host_zeroed\<lparr>h_addr := (h_addr pfsync_state_host_zeroed)
      \<lparr>pfa := overwrite bs (pfa (h_addr pfsync_state_host_zeroed))\<rparr>\<rparr>)
    \<lparr>h_xport := overwrite (le_bytes (to_be p)) (h_xport pfsync_state_host_zeroed)\<rparr>"
  have v4: "parse_address (addr_family_to_u8 AddrFamily_Ipv4) (?host (le_bytes (to_be a)) p) =
      Ok (SocketAddr (IpAddr_V4 a) p)" for a p
    by (simp add: parse_address_def pfsync_state_host_zeroed_def pf_addr_zeroed_def le_bytes_to_be overwrite_fits
        pf_constants from_be_be_bytes)
  have v6: "parse_address (addr_family_to_u8 AddrFamily_Ipv6) (?host (be_bytes a) p) =
      Ok (SocketAddr (IpAddr_V6 a) p)" for a p
    by (simp add: parse_address_def pfsync_state_host_zeroed_def pf_addr_zeroed_def le_bytes_to_be overwrite_fits
        pf_constants from_be_be_bytes of_be_bytes)
  have kept: "h_xport (pfsync_state_host_zeroed\<lparr>h_addr := x\<rparr>) = h_xport pfsync_state_host_zeroed" for x
    by simp
  show "test_parse_ipv4_address = Ok ()" "test_parse_ipv6_address = Ok ()"
    unfolding test_parse_ipv4_address_def test_parse_ipv6_address_def Let_def asserts_ok_def kept v4 v6
    by (simp_all add: asserts_eq_def asserts_def)
qed

end
