(* ===== verification/Spec2Isabelle.thy ===== *)
theory Spec2Isabelle
  imports LayoutTable RuleStructs CommitCalls InterfaceFlags Anchors ExamplesSpec UnitTests
begin

text \<open>
  A model of \<open>pfctl\<close>, the Rust crate that controls the packet filter of macOS through ioctl calls on
  \<open>/dev/pf\<close>, and the theorems that make it correct. All of \<open>src/\<close> except printing is
  modelled, with its unit tests and the programs of \<open>examples/\<close>; the definitions follow the source
  file by file, with the names of the source.

  \<^bold>\<open>The program.\<close> A caller builds rules (\<open>rule/*.rs\<close>), and either collects them in a \<open>Transaction\<close>
  (\<open>transaction.rs\<close>) or gives them one by one to a \<open>PfCtl\<close> (\<open>lib.rs\<close>). Both translate each rule
  into the C struct \<open>pf_rule\<close> of the kernel (\<open>TryCopyTo\<close>), register the pool addresses of the rule
  (\<open>pooladdr.rs\<close>, \<open>utils.rs\<close>), and pass the struct to the kernel by one of the functions of
  \<open>ffi/mod.rs\<close>, every call wrapped by \<open>ioctl_guard\<close> (\<open>macros.rs\<close>). \<open>PfCtl\<close> also enables and
  disables the firewall, manages anchors, reads and kills connection states (\<open>state.rs\<close>) and
  sets flags of interfaces. The structs are declared in \<open>ffi/pfvar.rs\<close>.

  \<^bold>\<open>The theories and the code they model.\<close>
  \<^item> \<open>Prelude\<close>: machine integers as words, a fallible result (\<open>Ok\<close>, \<open>Err\<close>, \<open>Panic\<close>), buffers, byte
    order, and the contracts \<open>wire_enum\<close> (decodable encodings) and \<open>try_copy\<close> (the traits
    \<open>CopyTo\<close> and \<open>TryCopyTo\<close>).
  \<^item> \<open>Errors\<close>: \<open>Error\<close>, \<open>ErrorKind\<close>, their texts, \<open>ignore_error_kind\<close> (\<open>lib.rs\<close>), and the record
    \<open>externals\<close> of what other crates supply.
  \<^item> \<open>Layout\<close>, \<open>LayoutTable\<close>, \<open>Pfvar\<close>: \<open>ffi/pfvar.rs\<close>. The first two compute the size, alignment and
    offsets of every struct by the rule of \<open>repr(C)\<close> and compare them with the assertions of the
    file; the third has the constants and the structs as records.
  \<^item> \<open>Strings\<close>, \<open>RuleFields\<close>, \<open>Address\<close>, \<open>PoolAddrList\<close>, \<open>Rules\<close>, \<open>Conversions\<close>: \<open>rule/*.rs\<close>,
    \<open>anchor.rs\<close>, \<open>ruleset.rs\<close>, \<open>pooladdr.rs\<close>: names in C buffers, enumerations and flag sets,
    addresses, ports, endpoints and interfaces, pools, the four kinds of rules with their
    copies into \<open>pf_rule\<close>, and the conversions that callers use.
  \<^item> \<open>Kernel\<close>: \<open>ffi/mod.rs\<close>, \<open>macros.rs\<close>, \<open>utils.rs\<close>. A kernel is a record of functions, a program a
    function on a world that holds the state of the kernel and the calls made so far.
  \<^item> \<open>Transaction\<close>: \<open>transaction.rs\<close>. \<open>States\<close>: \<open>state.rs\<close>. \<open>PfCtl\<close>, \<open>PfStates\<close>: \<open>lib.rs\<close>.
  \<^item> \<open>TransactionSpec\<close>, \<open>PfCtlSpec\<close>, \<open>PfStatesSpec\<close>: what these promise about their calls, for
    every kernel or for kernels that refuse nothing (\<open>obliging\<close>) or list their rules.
  \<^item> \<open>RuleStructs\<close>: reading rules back from the kernel struct. \<open>CommitCalls\<close>: the calls of a commit
    replayed on the kernel, which tells which of them succeeded, and what they request.
  \<^item> \<open>Firewall\<close>, \<open>FirewallSpec\<close>, \<open>RuleReplacement\<close>: what the calls do to the rules of a kernel that
    behaves as its manual page documents (\<open>documented_pf\<close>), with a reference kernel that does.
  \<^item> \<open>Sessions\<close>: arbitrary sequences of operations, as an inductive relation, and the requests they
    make. \<open>FirewallRuns\<close>: the same sequences against an abstract firewall.
  \<^item> \<open>Anchors\<close>: enabling and disabling against an abstract switch, adding and removing anchors against
    a set of names for each kind. \<open>Listings\<close>: the listings of states and interfaces, and which states
    \<open>clear_states\<close> asks to kill, on kernels that serve them. \<open>InterfaceFlags\<close>: changing flags and then
    listing the interfaces.
  \<^item> \<open>Examples\<close>: the programs of \<open>examples/\<close>; \<open>ExamplesSpec\<close>: what they do to a kernel. \<open>UnitTests\<close>: the
    unit tests of \<open>rule/mod.rs\<close>, \<open>lib.rs\<close> and \<open>state.rs\<close>, which all pass.

  \<^bold>\<open>What is shown.\<close> Transactions: a commit replaces the requested rulesets with exactly the
  requested rules or changes nothing; its calls are one begin, the rules of each change under
  the ticket of its own element, and one commit at the end, and nothing is called after a
  failure; the elements and the rules it requests are exactly those of its changes; it succeeds
  exactly when all names fit and all rules are well formed, if the kernel refuses nothing; it
  never panics. Setting rules of one kind is equivalent to flushing and appending them, except
  for atomicity and routes. Rules: what a copy wrote can be read back, on success every part of
  the rule, and on failure the error is its first fault; a copy does not depend on what was in
  the buffer, and what it wrote about an endpoint is what the crate reads back. Operations of \<open>PfCtl\<close>: which anchor rule is found, that enabling and
  disabling refine a switch and the anchor operations a registry of names, that adding and
  removing an anchor restores the rulesets, that listings are complete and when they end
  (and what is listed when states go away meanwhile), that flags of interfaces that are set are
  seen, the sizes of buffers, the number of listed states, the request that kills a state, the absence
  of overflow and panics. Sessions: every request is well
  formed, every sequence of operations is a run of an abstract firewall on which failures have no
  effect, and the rules of an anchor that no operation names stay. Examples: they succeed on a kernel that refuses nothing,
  the flushing one empties its anchors, the one with a transaction is all or nothing and the one
  without is not. Layouts: the declarations give what the crate asserts.

  \<^bold>\<open>Interfaces.\<close> The locale \<open>try_copy\<close> is interpreted by all eleven copies, \<open>wire_enum\<close> by the
  decodable enumerations, \<open>rule_adder\<close> and \<open>staged_adder\<close> by the helpers of a transaction, for
  the calls they make and for their effect on the kernel.

  \<^bold>\<open>Parameters and hypotheses.\<close> The kernel is a parameter. \<open>documented_pf\<close> states what pf(4)
  documents of the requests on rules, over a view of the kernel's state, and \<open>documented_others\<close>
  that the other requests change no rules outside the main ruleset; \<open>obliging\<close> says that
  no call is refused, \<open>lists_rules\<close> that the rules of a ruleset can be listed,
  \<open>keeps_requests_ok\<close> that the kernel leaves the structs well formed, \<open>terminated_names\<close> and
  \<open>sized_states\<close> that reported names are terminated and sizes not negative. \<open>documented_switch\<close>
  states what pf(4) documents of starting and stopping. The requests that insert and delete single
  rules are not in pf(4): \<open>documented_anchors\<close> and \<open>documented_anchor_rules\<close> state what the crate
  says and tests of them (\<open>lib.rs\<close>, \<open>tests/anchors.rs\<close>), for the structs that it passes: an anchor
  that exists already is refused, another one is inserted, and a struct that was listed deletes
  the rule that was listed. \<open>serves_states\<close> and \<open>serves_interfaces\<close> of the two listings, \<open>documented_flags\<close> of the flags of
  interfaces. \<open>externals\<close> has the numbers
  of \<open>libc\<close>, the constructors of \<open>ipnetwork\<close> and whether \<open>zerocopy\<close> can allocate;
  \<open>documented_libc\<close> and \<open>documented_ipnetwork\<close> are what the crate relies on. Each has a concrete
  instance: \<open>pf_machine\<close>, \<open>registry_kernel\<close>, \<open>serving\<close>, \<open>kif_kernel\<close>, \<open>granting\<close>, \<open>listing\<close>, \<open>two_states\<close>,
  \<open>macos\<close>. The iteration order of
  the \<open>HashMap\<close> of a transaction is the list \<open>order\<close>, any list of its anchors.

  \<^bold>\<open>Bounds.\<close> The loops of the code are recursions over lists, except the retry loop of
  \<open>get_interfaces\<close>, which counts to \<open>MAX_RETRIES\<close> = 2 and whose measure is the rest of that count,
  and the scan of the anchor rules, which counts to the number the kernel gave. Integers are words
  of their width; arithmetic that is checked in a debug build of Rust is a panic in the model.
  The kernel reports the size of its states in 32 bits, so there are at most \<open>2^32 div 297\<close> of
  them (297 bytes each), and a sum of byte-sized counts over them cannot overflow. The theorems on
  the effect of a commit are about fewer than \<open>2^31\<close> elements, since the kernel reads their number
  as a signed integer.

  \<^bold>\<open>Not modelled.\<close> The builders of rules, which \<open>derive_builder\<close> generates (only what a chain of
  setters leaves in them is: \<open>filter_rule_default\<close>, \<open>redirect_rule_default\<close> and
  \<open>scrub_rule_default\<close> with record updates); the \<open>Debug\<close> text of states and structs; \<open>unsafe\<close> reads
  of memory outside the structs, which the types of the model exclude; what the examples print;
  the integration tests under \<open>tests/\<close>, which drive \<open>pfctl\<close> on macOS.
\<close>

section \<open>Reading back what a rule says\<close>

lemma endpoint_copied_parts:
  assumes "endpoint_copy_to X e d = Ok d'" and "ep_ip e = Ip_Net net"
  shows "ra_addr d' = network_copy_to net (ra_addr d)"
    and "port_copy_to_range (ep_port e) (ra_xport d) = Ok (ra_xport d')"
  using assms by (auto simp: endpoint_copy_to_def outcome_simps)

lemma addr_family_of_net: "ip_get_af (Ip_Net net) = addr_family_of (net_ip net)"
  by (cases net) simp_all

text \<open>
  C15. What a rule says about an endpoint is what the kernel reads: the address and the (lower) port
  of an endpoint that was copied into a rule, read in the way the crate reads the kernel's own
  addresses, under the family byte that the rule derives from that endpoint, are the address
  and the port that the caller gave.
\<close>

theorem endpoint_read_back:
  assumes "pf_rule_addr_wf d" and "endpoint_copy_to X e d = Ok d'" and "ep_ip e = Ip_Net net"
  shows "parse_address (addr_family_to_u8 (endpoint_get_af e))
      \<lparr>h_addr = am_addr (aw_v (ra_addr d')), h_xport = concat (map le_bytes (pr_port (ra_xport d'))), h_pad = pd\<rparr>
    = Ok (SocketAddr (net_ip net) (fst (port_bounds (ep_port e))))"
proof -
  have wf: "pf_addr_wf (am_addr (aw_v (ra_addr d)))" "pf_port_range_wf (ra_xport d)"
    using assms(1) by (simp_all add: pf_rule_addr_wf_def pf_addr_wrap_wf_def pf_addr_mask_wf_def)
  note parts = endpoint_copied_parts [OF assms(2,3)]
  have "take 2 (concat (map le_bytes (pr_port (ra_xport d')))) = be_bytes (fst (port_bounds (ep_port e)))"
    by (simp add: port_range_copied_bytes [OF wf(2) parts(2)])
  moreover have "am_addr (aw_v (ra_addr d')) = ip_addr_copy_to (net_ip net) (am_addr (aw_v (ra_addr d)))"
    by (simp add: parts(1) network_copy_to_def)
  ultimately show ?thesis
    unfolding endpoint_get_af_def assms(3) addr_family_of_net
    by (intro parse_address_copied [OF wf(1)]) simp_all
qed

definition sample_endpoint :: endpoint where
  "sample_endpoint = endpoint_new (Ip_Net (IpNetwork_V4 0x0A000001 0xFFFFFFFF)) (Port_One 443 PortUnary_Equal)"

lemma endpoint_read_back_witness:
  "case endpoint_copy_to macos sample_endpoint pf_rule_addr_zeroed of
     Ok d \<Rightarrow> parse_address 2 \<lparr>h_addr = am_addr (aw_v (ra_addr d)),
       h_xport = concat (map le_bytes (pr_port (ra_xport d))), h_pad = []\<rparr>
         = Ok (SocketAddr (IpAddr_V4 0x0A000001) 443)
   | _ \<Rightarrow> False"
proof -
  have "\<exists>d. endpoint_copy_to macos sample_endpoint pf_rule_addr_zeroed = Ok d"
    by (simp add: endpoint_copy_ok [OF macos_ipnetwork] sample_endpoint_def endpoint_new_def)
  then obtain d where d: "endpoint_copy_to macos sample_endpoint pf_rule_addr_zeroed = Ok d" by blast
  then show ?thesis
    using endpoint_read_back [OF pf_rule_addr_zeroed_wf d, of _ "[]"]
    by (simp add: sample_endpoint_def endpoint_new_def endpoint_get_af_def pf_constants)
qed

section \<open>Changing the rules of an anchor\<close>

text \<open>
  C14. \<open>PfCtl::set_rules\<close>, end to end: with a kernel that refuses no call, the change of an anchor is
  committed exactly when, for every kind of rules that the change sets, the anchor's name fits
  and all rules are well formed; a kind that is not set asks for nothing.
\<close>

theorem set_rules_complete:
  assumes "obliging K" and "documented_ipnetwork X"
  shows "fst (set_rules K X anchor change w) = Ok () \<longleftrightarrow>
    (\<forall>k rs. requested k change = Some rs \<longrightarrow> name_fits 1024 anchor \<and> list_all any_rule_ok rs)"
proof -
  let ?t = "add_change anchor change transaction_new"
  have m: "(k, a, rs) \<in> set (plan [anchor] ?t) \<longleftrightarrow> a = anchor \<and> requested k change = Some rs" for k a rs
    by (auto simp: in_plan_iff add_change_def transaction_new_def)
  have all: "list_all change_ok p \<longleftrightarrow>
      (\<forall>k a rs. (k, a, rs) \<in> set p \<longrightarrow> name_fits 1024 a \<and> list_all any_rule_ok rs)" for p
    by (force simp: list_all_iff change_ok_def)
  have "list_all change_ok (plan [anchor] ?t) \<longleftrightarrow>
      (\<forall>k rs. requested k change = Some rs \<longrightarrow> name_fits 1024 anchor \<and> list_all any_rule_ok rs)"
    unfolding all m by blast
  moreover have "fst (commit K X [anchor] ?t w) = Ok () \<longleftrightarrow> list_all change_ok (plan [anchor] ?t)"
    by (rule commit_Ok_iff [OF assms])
  ultimately show ?thesis by (simp add: set_rules_def)
qed

lemma set_rules_complete_witness:
  "fst (set_rules granting macos [97] (set_nat_rules [sample_nat_rule] anchor_change_new) fresh_world) = Ok ()"
proof -
  have "name_fits 1024 [97 :: u8]" by (simp add: name_fits_def)
  then have "\<forall>k rs. requested k (set_nat_rules [sample_nat_rule] anchor_change_new) = Some rs \<longrightarrow>
      name_fits 1024 [97 :: u8] \<and> list_all any_rule_ok rs"
    using sample_nat_rule_ok
    by (intro allI, rename_tac k rs, case_tac k) (auto simp: set_nat_rules_def anchor_change_new_def)
  then show ?thesis
    by (rule iffD2 [OF set_rules_complete [OF granting_obliging macos_ipnetwork]])
qed

end
